(* ===== verification/Prelude.thy ===== *)
theory Prelude
  imports Main "HOL-Library.Word"
begin

text \<open>
  Shared vocabulary of the development: machine integers and byte buffers, the ways in which a
  C++ call can end (a value or a fault), bounds-checked reads and writes of a buffer, and the
  generic lemmas the component theories rely on.

  A buffer is a list of bytes. A read or write outside the list is undefined behaviour in the
  source; here it is the fault \<open>OutOfBounds\<close>, so that memory safety of an operation is the
  statement that it never ends in that fault.
\<close>

unbundle bit_operations_syntax

section \<open>Types\<close>

type_synonym byte = "8 word"
type_synonym uint16 = "16 word"
type_synonym uint32 = "32 word"
type_synonym uint64 = "64 word"
type_synonym bytes = "byte list"

text \<open>
  How a call can end other than by returning: an access outside a buffer, a null pointer that is
  dereferenced, an object that is freed twice, a failed \<open>MS_ASSERT\<close> or \<open>MS_ABORT\<close> (the process aborts), a thrown
  \<open>MediaSoupError\<close> or \<open>std::exception\<close>, a loop that never ends, a shift by at least the width of its operand, which is
  undefined, and a call of a library function outside its documented contract.
\<close>

datatype fault =
    OutOfBounds
  | NullDeref
  | DoubleFree
  | Abort string
  | Throw string
  | Diverges
  | UndefinedShift
  | UndefinedCall string

type_synonym 'a res = "fault + 'a"

abbreviation Ok :: "'a \<Rightarrow> 'a res" where "Ok \<equiv> Inr"
abbreviation Fault :: "fault \<Rightarrow> 'a res" where "Fault \<equiv> Inl"

definition str :: "string \<Rightarrow> bytes" where
  "str s = map of_char s"

section \<open>Sequencing\<close>

definition rbind :: "'a res \<Rightarrow> ('a \<Rightarrow> 'b res) \<Rightarrow> 'b res" where
  "rbind m k = (case m of Inl f \<Rightarrow> Inl f | Inr x \<Rightarrow> k x)"

definition ms_assert :: "bool \<Rightarrow> string \<Rightarrow> unit res" where
  "ms_assert c msg = (if c then Ok () else Fault (Abort msg))"

named_theorems res_simps \<open>rewriting of sequenced computations\<close>
named_theorems byte_simps \<open>byte order conversions\<close>

lemma rbind_simps [simp, res_simps]:
  "rbind (Inl f) k = Inl f"
  "rbind (Inr x) k = k x"
  by (simp_all add: rbind_def)

lemma rbind_assoc [res_simps]: "rbind (rbind m k) h = rbind m (\<lambda>x. rbind (k x) h)"
  by (simp add: rbind_def split: sum.split)

lemma rbind_eq_Inr [simp]: "rbind m k = Inr y \<longleftrightarrow> (\<exists>x. m = Inr x \<and> k x = Inr y)"
  by (simp add: rbind_def split: sum.split)

lemma rbind_eq_Inl: "rbind m k = Inl f \<longleftrightarrow> m = Inl f \<or> (\<exists>x. m = Inr x \<and> k x = Inl f)"
  by (auto simp add: rbind_def split: sum.split)

lemma rbind_cong [fundef_cong]:
  "m = m' \<Longrightarrow> (\<And>x. m' = Inr x \<Longrightarrow> k x = k' x) \<Longrightarrow> rbind m k = rbind m' k'"
  by (simp add: rbind_def split: sum.split)

lemma rbind_if: "rbind (if b then m else m') k = (if b then rbind m k else rbind m' k)"
  by simp

lemma ms_assert_simps [simp]:
  "ms_assert True msg = Inr ()"
  "ms_assert False msg = Inl (Abort msg)"
  "ms_assert c msg = Inr u \<longleftrightarrow> c"
  by (simp_all add: ms_assert_def)

section \<open>Bounds-checked buffers\<close>

definition rd :: "bytes \<Rightarrow> nat \<Rightarrow> byte res" where
  "rd d i = (if i < length d then Ok (d ! i) else Fault OutOfBounds)"

definition wr :: "bytes \<Rightarrow> nat \<Rightarrow> byte \<Rightarrow> bytes res" where
  "wr d i v = (if i < length d then Ok (d[i := v]) else Fault OutOfBounds)"

text \<open>The two sides of a \<open>memcpy\<close> of \<open>n\<close> bytes.\<close>

definition rd_range :: "bytes \<Rightarrow> nat \<Rightarrow> nat \<Rightarrow> bytes res" where
  "rd_range d i n = (if i + n \<le> length d then Ok (take n (drop i d)) else Fault OutOfBounds)"

definition wr_range :: "bytes \<Rightarrow> nat \<Rightarrow> bytes \<Rightarrow> bytes res" where
  "wr_range d i bs =
     (if i + length bs \<le> length d then Ok (take i d @ bs @ drop (i + length bs) d)
      else Fault OutOfBounds)"

lemma rd_ok [simp]: "i < length d \<Longrightarrow> rd d i = Inr (d ! i)"
  by (simp add: rd_def)

lemma rd_eq_Inr: "rd d i = Inr x \<longleftrightarrow> i < length d \<and> x = d ! i"
  by (auto simp: rd_def)

lemma rd_eq_Inl: "rd d i = Inl f \<longleftrightarrow> length d \<le> i \<and> f = OutOfBounds"
  by (auto simp: rd_def)

lemma rd_range_ok [simp]: "i + n \<le> length d \<Longrightarrow> rd_range d i n = Inr (take n (drop i d))"
  by (simp add: rd_range_def)

lemma rd_range_eq_Inr:
  "rd_range d i n = Inr bs \<longleftrightarrow> i + n \<le> length d \<and> bs = take n (drop i d)"
  by (auto simp: rd_range_def)

lemma wr_range_eq_Inr:
  "wr_range d i bs = Inr d' \<longleftrightarrow>
     i + length bs \<le> length d \<and> d' = take i d @ bs @ drop (i + length bs) d"
  by (auto simp: wr_range_def)

lemma length_wr_range: "wr_range d i bs = Inr d' \<Longrightarrow> length d' = length d"
  by (auto simp: wr_range_eq_Inr)

lemma wr_range_append [simp]:
  "length old = length bs \<Longrightarrow> wr_range (pre @ old @ post) (length pre) bs = Inr (pre @ bs @ post)"
  by (simp add: wr_range_def)

lemma rd_range_append [simp]: "rd_range (pre @ bs @ post) (length pre) (length bs) = Inr bs"
  by (simp add: rd_range_def)

text \<open>Writing at the end of the already written prefix \<open>out\<close> of a buffer extends the prefix.\<close>

lemma wr_range_extend:
  "length bs \<le> length rest \<Longrightarrow>
   wr_range (out @ rest) (length out) bs = Inr ((out @ bs) @ drop (length bs) rest)"
  by (simp add: wr_range_def)

lemma wr_range_twice:
  "length bs = length cs \<Longrightarrow>
   rbind (wr_range d i bs) (\<lambda>d'. wr_range d' i cs) = wr_range d i cs"
  by (auto simp: wr_range_def)

lemma wr_range_same: "rd_range d i n = Inr bs \<Longrightarrow> wr_range d i bs = Inr d"
proof -
  assume "rd_range d i n = Inr bs"
  then have b: "i + n \<le> length d" "bs = take n (drop i d)" by (auto simp: rd_range_eq_Inr)
  then have "take i d @ bs @ drop (i + n) d = d"
    by (metis add.commute append_take_drop_id drop_drop)
  with b show ?thesis by (simp add: wr_range_def)
qed

lemma list_split_at:
  assumes "i + n \<le> length d"
  obtains pre mid post where "d = pre @ mid @ post" "length pre = i" "length mid = n"
proof
  show "d = take i d @ take n (drop i d) @ drop (i + n) d"
    by (metis add.commute append_take_drop_id drop_drop)
qed (use assms in auto)

section \<open>Words\<close>

lemma bit_byte_high [simp]: "8 \<le> n \<Longrightarrow> \<not> bit (w :: byte) n"
  by (simp add: bit_word.rep_eq bit_take_bit_iff)

lemma unat_byte_less: "unat (w :: byte) < 256"
  using unsigned_less [of w, where ?'a = nat] by simp

lemma unat_u16_less: "unat (w :: uint16) < 65536"
  using unsigned_less [of w, where ?'a = nat] by simp

lemma unat_of_nat_u16: "unat (word_of_nat n :: uint16) = n mod 65536"
  by (simp add: unat_of_nat)

lemma unat_of_nat_u16_small: "n < 65536 \<Longrightarrow> unat (word_of_nat n :: uint16) = n"
  by (simp add: unat_of_nat_u16)

lemma unat_ucast_byte_u16 [simp]: "unat (ucast (b :: byte) :: uint16) = unat b"
  by (simp add: unsigned_ucast_eq take_bit_nat_eq_self_iff unat_byte_less [THEN less_trans])

end
