(* ===== verification/ByteIO.thy ===== *)
theory ByteIO
  imports Prelude
begin

text \<open>
  Byte order conversion: \<open>Utils::Byte\<close> of common/utils.h (network byte order accessors and the
  padding to 32 bits) and the \<open>ByteReader\<close>/\<open>ByteWriter\<close> templates of rtp/byte_io.h.

  A pointer \<open>data\<close> together with an index \<open>i\<close> is a buffer and an offset; every access is
  bounds-checked. The locale \<open>byte_codec\<close> is the contract of a matching getter and setter; every
  pair of accessors is an interpretation of it, and the packet parsers and serializers use only the
  contract's lemmas.
\<close>

section \<open>Utils::Byte\<close>

definition Get1Byte :: "bytes \<Rightarrow> nat \<Rightarrow> byte res" where
  "Get1Byte data i = rd data i"

definition Get2Bytes :: "bytes \<Rightarrow> nat \<Rightarrow> uint16 res" where
  "Get2Bytes data i =
     rbind (rd data (i + 1)) (\<lambda>b1. rbind (rd data i) (\<lambda>b0.
       Ok (ucast b1 OR push_bit 8 (ucast b0))))"

definition Get3Bytes :: "bytes \<Rightarrow> nat \<Rightarrow> uint32 res" where
  "Get3Bytes data i =
     rbind (rd data (i + 2)) (\<lambda>b2. rbind (rd data (i + 1)) (\<lambda>b1. rbind (rd data i) (\<lambda>b0.
       Ok (ucast b2 OR push_bit 8 (ucast b1) OR push_bit 16 (ucast b0)))))"

definition Get4Bytes :: "bytes \<Rightarrow> nat \<Rightarrow> uint32 res" where
  "Get4Bytes data i =
     rbind (rd data (i + 3)) (\<lambda>b3. rbind (rd data (i + 2)) (\<lambda>b2.
     rbind (rd data (i + 1)) (\<lambda>b1. rbind (rd data i) (\<lambda>b0.
       Ok (ucast b3 OR push_bit 8 (ucast b2) OR push_bit 16 (ucast b1) OR push_bit 24 (ucast b0))))))"

definition Get8Bytes :: "bytes \<Rightarrow> nat \<Rightarrow> uint64 res" where
  "Get8Bytes data i =
     rbind (Get4Bytes data i) (\<lambda>hi. rbind (Get4Bytes data (i + 4)) (\<lambda>lo.
       Ok (push_bit 32 (ucast hi) OR ucast lo)))"

definition Set1Byte :: "bytes \<Rightarrow> nat \<Rightarrow> byte \<Rightarrow> bytes res" where
  "Set1Byte data i v = wr data i v"

definition Set2Bytes :: "bytes \<Rightarrow> nat \<Rightarrow> uint16 \<Rightarrow> bytes res" where
  "Set2Bytes data i v =
     rbind (wr data (i + 1) (ucast v)) (\<lambda>data.
       wr data i (ucast (drop_bit 8 v)))"

definition Set3Bytes :: "bytes \<Rightarrow> nat \<Rightarrow> uint32 \<Rightarrow> bytes res" where
  "Set3Bytes data i v =
     rbind (wr data (i + 2) (ucast v)) (\<lambda>data.
     rbind (wr data (i + 1) (ucast (drop_bit 8 v))) (\<lambda>data.
       wr data i (ucast (drop_bit 16 v))))"

definition Set4Bytes :: "bytes \<Rightarrow> nat \<Rightarrow> uint32 \<Rightarrow> bytes res" where
  "Set4Bytes data i v =
     rbind (wr data (i + 3) (ucast v)) (\<lambda>data.
     rbind (wr data (i + 2) (ucast (drop_bit 8 v))) (\<lambda>data.
     rbind (wr data (i + 1) (ucast (drop_bit 16 v))) (\<lambda>data.
       wr data i (ucast (drop_bit 24 v)))))"

definition Set8Bytes :: "bytes \<Rightarrow> nat \<Rightarrow> uint64 \<Rightarrow> bytes res" where
  "Set8Bytes data i v =
     rbind (wr data (i + 7) (ucast v)) (\<lambda>data.
     rbind (wr data (i + 6) (ucast (drop_bit 8 v))) (\<lambda>data.
     rbind (wr data (i + 5) (ucast (drop_bit 16 v))) (\<lambda>data.
     rbind (wr data (i + 4) (ucast (drop_bit 24 v))) (\<lambda>data.
     rbind (wr data (i + 3) (ucast (drop_bit 32 v))) (\<lambda>data.
     rbind (wr data (i + 2) (ucast (drop_bit 40 v))) (\<lambda>data.
     rbind (wr data (i + 1) (ucast (drop_bit 48 v))) (\<lambda>data.
       wr data i (ucast (drop_bit 56 v)))))))))"

text \<open>The two overloads of \<open>PadTo4Bytes\<close>.\<close>

definition PadTo4Bytes :: "uint16 \<Rightarrow> uint16" where
  "PadTo4Bytes sz = (if sz AND 0x03 \<noteq> 0 then (sz AND 0xFFFC) + 4 else sz)"

definition PadTo4Bytes32 :: "uint32 \<Rightarrow> uint32" where
  "PadTo4Bytes32 sz = (if sz AND 0x03 \<noteq> 0 then (sz AND 0xFFFFFFFC) + 4 else sz)"

section \<open>ByteReader and ByteWriter\<close>

text \<open>The generic templates: a loop over the \<open>B\<close> bytes at offset \<open>p\<close>.\<close>

function InternalReadBigEndian :: "nat \<Rightarrow> nat \<Rightarrow> bytes \<Rightarrow> nat \<Rightarrow> 'a::len word \<Rightarrow> 'a word res" where
  "InternalReadBigEndian B i data p val =
     (if i < B then
        rbind (rd data (p + i)) (\<lambda>b.
          InternalReadBigEndian B (i + 1) data p (val OR push_bit ((B - 1 - i) * 8) (ucast b)))
      else Ok val)"
  by pat_completeness auto
termination
  by (relation "measure (\<lambda>(B, i, data, p, val). B - i)") auto

function InternalReadLittleEndian :: "nat \<Rightarrow> nat \<Rightarrow> bytes \<Rightarrow> nat \<Rightarrow> 'a::len word \<Rightarrow> 'a word res" where
  "InternalReadLittleEndian B i data p val =
     (if i < B then
        rbind (rd data (p + i)) (\<lambda>b.
          InternalReadLittleEndian B (i + 1) data p (val OR push_bit (i * 8) (ucast b)))
      else Ok val)"
  by pat_completeness auto
termination
  by (relation "measure (\<lambda>(B, i, data, p, val). B - i)") auto

function WriteBigEndian :: "nat \<Rightarrow> nat \<Rightarrow> bytes \<Rightarrow> nat \<Rightarrow> 'a::len word \<Rightarrow> bytes res" where
  "WriteBigEndian B i data p val =
     (if i < B then
        rbind (wr data (p + i) (ucast (drop_bit ((B - 1 - i) * 8) val))) (\<lambda>data.
          WriteBigEndian B (i + 1) data p val)
      else Ok data)"
  by pat_completeness auto
termination
  by (relation "measure (\<lambda>(B, i, data, p, val). B - i)") auto

function WriteLittleEndian :: "nat \<Rightarrow> nat \<Rightarrow> bytes \<Rightarrow> nat \<Rightarrow> 'a::len word \<Rightarrow> bytes res" where
  "WriteLittleEndian B i data p val =
     (if i < B then
        rbind (wr data (p + i) (ucast (drop_bit (i * 8) val))) (\<lambda>data.
          WriteLittleEndian B (i + 1) data p val)
      else Ok data)"
  by pat_completeness auto
termination
  by (relation "measure (\<lambda>(B, i, data, p, val). B - i)") auto

declare InternalReadBigEndian.simps [simp del] InternalReadLittleEndian.simps [simp del]
  WriteBigEndian.simps [simp del] WriteLittleEndian.simps [simp del]

text \<open>The specializations for 1, 2, 4 and 8 bytes.\<close>

definition ReadBigEndian1 :: "bytes \<Rightarrow> nat \<Rightarrow> byte res" where
  "ReadBigEndian1 data p = rd data p"

definition ReadLittleEndian1 :: "bytes \<Rightarrow> nat \<Rightarrow> byte res" where
  "ReadLittleEndian1 data p = rd data p"

definition WriteBigEndian1 :: "bytes \<Rightarrow> nat \<Rightarrow> byte \<Rightarrow> bytes res" where
  "WriteBigEndian1 data p val = wr data p val"

definition WriteLittleEndian1 :: "bytes \<Rightarrow> nat \<Rightarrow> byte \<Rightarrow> bytes res" where
  "WriteLittleEndian1 data p val = wr data p val"

definition ReadBigEndian2 :: "bytes \<Rightarrow> nat \<Rightarrow> uint16 res" where
  "ReadBigEndian2 data p =
     rbind (rd data p) (\<lambda>b0. rbind (rd data (p + 1)) (\<lambda>b1.
       Ok (push_bit 8 (ucast b0) OR ucast b1)))"

definition ReadLittleEndian2 :: "bytes \<Rightarrow> nat \<Rightarrow> uint16 res" where
  "ReadLittleEndian2 data p =
     rbind (rd data p) (\<lambda>b0. rbind (rd data (p + 1)) (\<lambda>b1.
       Ok (ucast b0 OR push_bit 8 (ucast b1))))"

definition WriteBigEndian2 :: "bytes \<Rightarrow> nat \<Rightarrow> uint16 \<Rightarrow> bytes res" where
  "WriteBigEndian2 data p val =
     rbind (wr data p (ucast (drop_bit 8 val))) (\<lambda>data. wr data (p + 1) (ucast val))"

definition WriteLittleEndian2 :: "bytes \<Rightarrow> nat \<Rightarrow> uint16 \<Rightarrow> bytes res" where
  "WriteLittleEndian2 data p val =
     rbind (wr data p (ucast val)) (\<lambda>data. wr data (p + 1) (ucast (drop_bit 8 val)))"

definition ReadBigEndian4 :: "bytes \<Rightarrow> nat \<Rightarrow> uint32 res" where
  "ReadBigEndian4 data p =
     rbind (rd data p) (\<lambda>b0. rbind (rd data (p + 1)) (\<lambda>b1.
     rbind (rd data (p + 2)) (\<lambda>b2. rbind (rd data (p + 3)) (\<lambda>b3.
       Ok (push_bit 24 (ucast b0) OR push_bit 16 (ucast b1) OR push_bit 8 (ucast b2) OR ucast b3)))))"

definition ReadLittleEndian4 :: "bytes \<Rightarrow> nat \<Rightarrow> uint32 res" where
  "ReadLittleEndian4 data p =
     rbind (rd data p) (\<lambda>b0. rbind (rd data (p + 1)) (\<lambda>b1.
     rbind (rd data (p + 2)) (\<lambda>b2. rbind (rd data (p + 3)) (\<lambda>b3.
       Ok (ucast b0 OR push_bit 8 (ucast b1) OR push_bit 16 (ucast b2) OR push_bit 24 (ucast b3))))))"

definition WriteBigEndian4 :: "bytes \<Rightarrow> nat \<Rightarrow> uint32 \<Rightarrow> bytes res" where
  "WriteBigEndian4 data p val =
     rbind (wr data p (ucast (drop_bit 24 val))) (\<lambda>data.
     rbind (wr data (p + 1) (ucast (drop_bit 16 val))) (\<lambda>data.
     rbind (wr data (p + 2) (ucast (drop_bit 8 val))) (\<lambda>data.
       wr data (p + 3) (ucast val))))"

definition WriteLittleEndian4 :: "bytes \<Rightarrow> nat \<Rightarrow> uint32 \<Rightarrow> bytes res" where
  "WriteLittleEndian4 data p val =
     rbind (wr data p (ucast val)) (\<lambda>data.
     rbind (wr data (p + 1) (ucast (drop_bit 8 val))) (\<lambda>data.
     rbind (wr data (p + 2) (ucast (drop_bit 16 val))) (\<lambda>data.
       wr data (p + 3) (ucast (drop_bit 24 val)))))"

definition ReadBigEndian8 :: "bytes \<Rightarrow> nat \<Rightarrow> uint64 res" where
  "ReadBigEndian8 data p =
     rbind (rd data p) (\<lambda>b0. rbind (rd data (p + 1)) (\<lambda>b1.
     rbind (rd data (p + 2)) (\<lambda>b2. rbind (rd data (p + 3)) (\<lambda>b3.
     rbind (rd data (p + 4)) (\<lambda>b4. rbind (rd data (p + 5)) (\<lambda>b5.
     rbind (rd data (p + 6)) (\<lambda>b6. rbind (rd data (p + 7)) (\<lambda>b7.
       Ok (push_bit 56 (ucast b0) OR push_bit 48 (ucast b1) OR push_bit 40 (ucast b2) OR
           push_bit 32 (ucast b3) OR push_bit 24 (ucast b4) OR push_bit 16 (ucast b5) OR
           push_bit 8 (ucast b6) OR ucast b7)))))))))"

definition ReadLittleEndian8 :: "bytes \<Rightarrow> nat \<Rightarrow> uint64 res" where
  "ReadLittleEndian8 data p =
     rbind (rd data p) (\<lambda>b0. rbind (rd data (p + 1)) (\<lambda>b1.
     rbind (rd data (p + 2)) (\<lambda>b2. rbind (rd data (p + 3)) (\<lambda>b3.
     rbind (rd data (p + 4)) (\<lambda>b4. rbind (rd data (p + 5)) (\<lambda>b5.
     rbind (rd data (p + 6)) (\<lambda>b6. rbind (rd data (p + 7)) (\<lambda>b7.
       Ok (ucast b0 OR push_bit 8 (ucast b1) OR push_bit 16 (ucast b2) OR
           push_bit 24 (ucast b3) OR push_bit 32 (ucast b4) OR push_bit 40 (ucast b5) OR
           push_bit 48 (ucast b6) OR push_bit 56 (ucast b7))))))))))"

definition WriteBigEndian8 :: "bytes \<Rightarrow> nat \<Rightarrow> uint64 \<Rightarrow> bytes res" where
  "WriteBigEndian8 data p val =
     rbind (wr data p (ucast (drop_bit 56 val))) (\<lambda>data.
     rbind (wr data (p + 1) (ucast (drop_bit 48 val))) (\<lambda>data.
     rbind (wr data (p + 2) (ucast (drop_bit 40 val))) (\<lambda>data.
     rbind (wr data (p + 3) (ucast (drop_bit 32 val))) (\<lambda>data.
     rbind (wr data (p + 4) (ucast (drop_bit 24 val))) (\<lambda>data.
     rbind (wr data (p + 5) (ucast (drop_bit 16 val))) (\<lambda>data.
     rbind (wr data (p + 6) (ucast (drop_bit 8 val))) (\<lambda>data.
       wr data (p + 7) (ucast val))))))))"

definition WriteLittleEndian8 :: "bytes \<Rightarrow> nat \<Rightarrow> uint64 \<Rightarrow> bytes res" where
  "WriteLittleEndian8 data p val =
     rbind (wr data p (ucast val)) (\<lambda>data.
     rbind (wr data (p + 1) (ucast (drop_bit 8 val))) (\<lambda>data.
     rbind (wr data (p + 2) (ucast (drop_bit 16 val))) (\<lambda>data.
     rbind (wr data (p + 3) (ucast (drop_bit 24 val))) (\<lambda>data.
     rbind (wr data (p + 4) (ucast (drop_bit 32 val))) (\<lambda>data.
     rbind (wr data (p + 5) (ucast (drop_bit 40 val))) (\<lambda>data.
     rbind (wr data (p + 6) (ucast (drop_bit 48 val))) (\<lambda>data.
       wr data (p + 7) (ucast (drop_bit 56 val)))))))))"

section \<open>Reference encodings\<close>

text \<open>
  Little-endian and big-endian byte sequences of a word, and the word a sequence stands for. These
  are the specification of the accessors above.
\<close>

definition le_bytes :: "nat \<Rightarrow> 'a::len word \<Rightarrow> bytes" where
  "le_bytes n v = map (\<lambda>i. ucast (drop_bit (8 * i) v)) [0..<n]"

definition be_bytes :: "nat \<Rightarrow> 'a::len word \<Rightarrow> bytes" where
  "be_bytes n v = rev (le_bytes n v)"

primrec of_le :: "bytes \<Rightarrow> 'a::len word" where
  "of_le [] = 0"
| "of_le (b # bs) = ucast b OR push_bit 8 (of_le bs)"

definition of_be :: "bytes \<Rightarrow> 'a::len word" where
  "of_be bs = of_le (rev bs)"

lemma length_le_bytes [simp]: "length (le_bytes n v) = n"
  by (simp add: le_bytes_def)

lemma length_be_bytes [simp]: "length (be_bytes n v) = n"
  by (simp add: be_bytes_def)

lemma bit_of_le:
  "bit (of_le bs :: 'a::len word) k \<longleftrightarrow>
     k < LENGTH('a) \<and> k div 8 < length bs \<and> bit (bs ! (k div 8)) (k mod 8)"
proof (induction bs arbitrary: k)
  case Nil
  then show ?case by simp
next
  case (Cons b bs)
  show ?case
  proof (cases "k < 8")
    case True
    then show ?thesis by (auto simp: bit_simps)
  next
    case False
    then have k: "k div 8 = Suc ((k - 8) div 8)" "k mod 8 = (k - 8) mod 8"
      by (simp_all add: div_if mod_if)
    from False show ?thesis
      by (auto simp: bit_simps Cons.IH k)
  qed
qed

lemma of_le_le_bytes: "of_le (le_bytes n v) = take_bit (8 * n) (v :: 'a::len word)"
proof (rule bit_word_eqI)
  fix k assume "k < LENGTH('a)"
  moreover have "8 * (k div 8) + k mod 8 = k" by simp
  ultimately show "bit (of_le (le_bytes n v) :: 'a word) k \<longleftrightarrow> bit (take_bit (8 * n) v) k"
    by (auto simp: bit_of_le le_bytes_def bit_simps)
qed

lemma le_bytes_of_le:
  assumes "8 * length bs \<le> LENGTH('a::len)"
  shows "le_bytes (length bs) (of_le bs :: 'a word) = bs"
proof (rule nth_equalityI)
  fix i assume i: "i < length (le_bytes (length bs) (of_le bs :: 'a word))"
  show "le_bytes (length bs) (of_le bs :: 'a word) ! i = bs ! i"
  proof (rule bit_word_eqI)
    fix k assume "k < LENGTH(8)"
    with i assms show "bit (le_bytes (length bs) (of_le bs :: 'a word) ! i) k \<longleftrightarrow> bit (bs ! i) k"
      by (auto simp: le_bytes_def bit_simps bit_of_le)
  qed
qed simp

lemma of_be_be_bytes: "of_be (be_bytes n v) = take_bit (8 * n) (v :: 'a::len word)"
  by (simp add: of_be_def be_bytes_def of_le_le_bytes)

lemma be_bytes_of_be:
  "8 * length bs \<le> LENGTH('a::len) \<Longrightarrow> be_bytes (length bs) (of_be bs :: 'a word) = bs"
  using le_bytes_of_le [of "rev bs", where 'a = 'a] by (simp add: of_be_def be_bytes_def)

lemma upt_literals:
  "[0..<1] = [0]" "[0..<2] = [0, 1]" "[0..<3] = [0, 1, 2]" "[0..<4] = [0, 1, 2, 3]"
  "[0..<8] = [0, 1, 2, 3, 4, 5, 6, 7]"
  by (simp_all add: upt_rec)

lemma take_drop_nth:
  "i + n \<le> length d \<Longrightarrow> take n (drop i d) = map (\<lambda>k. d ! (i + k)) [0..<n]"
  by (rule nth_equalityI) auto

lemma list_update_append_range:
  "i < length d \<Longrightarrow> d[i := b] = take i d @ b # drop (Suc i) d"
  by (rule upd_conv_take_nth_drop)

lemma offset_literals:
  "i + 3 = Suc (Suc (Suc i))" "i + 4 = Suc (Suc (Suc (Suc i)))"
  "i + 5 = Suc (Suc (Suc (Suc (Suc i))))" "i + 6 = Suc (Suc (Suc (Suc (Suc (Suc i)))))"
  "i + 7 = Suc (Suc (Suc (Suc (Suc (Suc (Suc i))))))"
  by simp_all

lemma wr_range_single [byte_simps]: "wr_range d i [b] = wr d i b"
  by (auto simp: wr_range_def wr_def list_update_append_range)

lemma wr_range_Cons:
  "bs \<noteq> [] \<Longrightarrow> wr_range d i (b # bs) = rbind (wr d i b) (\<lambda>d. wr_range d (i + 1) bs)"
  by (auto simp: wr_range_def wr_def list_update_append_range take_Suc_conv_app_nth Suc_le_eq
      nth_append min_def neq_Nil_conv add.commute [of i])

lemma wr_range_Cons':
  "bs \<noteq> [] \<Longrightarrow> wr_range d i (b # bs) = rbind (wr_range d (i + 1) bs) (\<lambda>d. wr d i b)"
  by (auto simp: wr_range_def wr_def list_update_append neq_Nil_conv take_Suc_conv_app_nth Suc_le_eq)

section \<open>The contract of an accessor pair\<close>

text \<open>
  A getter and a setter for values of a fixed width. \<open>valid\<close> are the values the width can
  represent, \<open>enc\<close> and \<open>dec\<close> the wire format.
\<close>

locale byte_codec =
  fixes width :: nat
    and get :: "bytes \<Rightarrow> nat \<Rightarrow> 'v res"
    and put :: "bytes \<Rightarrow> nat \<Rightarrow> 'v \<Rightarrow> bytes res"
    and enc :: "'v \<Rightarrow> bytes"
    and dec :: "bytes \<Rightarrow> 'v"
    and valid :: "'v \<Rightarrow> bool"
  assumes length_enc [simp]: "length (enc v) = width"
    and dec_enc [simp]: "valid v \<Longrightarrow> dec (enc v) = v"
    and enc_dec [simp]: "length bs = width \<Longrightarrow> enc (dec bs) = bs"
    and get_eq: "get data i = rbind (rd_range data i width) (\<lambda>bs. Ok (dec bs))"
    and set_eq: "put data i v = wr_range data i (enc v)"
begin

lemma get_in_bounds: "i + width \<le> length data \<Longrightarrow> get data i = Inr (dec (take width (drop i data)))"
  by (simp add: get_eq)

lemma get_bounds: "(\<exists>v. get data i = Inr v) \<longleftrightarrow> i + width \<le> length data"
  by (auto simp: get_eq rd_range_def split: if_splits)

lemma get_fault: "get data i = Inl f \<Longrightarrow> f = OutOfBounds \<and> length data < i + width"
  by (auto simp: get_eq rd_range_def split: if_splits)

lemma set_bounds: "(\<exists>d. put data i v = Inr d) \<longleftrightarrow> i + width \<le> length data"
  by (auto simp: set_eq wr_range_def split: if_splits)

lemma set_in_bounds:
  "i + width \<le> length data \<Longrightarrow> put data i v = Inr (take i data @ enc v @ drop (i + width) data)"
  by (simp add: set_eq wr_range_def)

lemma set_length: "put data i v = Inr d \<Longrightarrow> length d = length data"
  by (auto simp: set_eq length_wr_range)

lemma get_append: "valid v \<Longrightarrow> i = length pre \<Longrightarrow> get (pre @ enc v @ post) i = Inr v"
  using rd_range_append [of pre "enc v" post] by (simp add: get_eq)

lemma set_append:
  "length old = width \<Longrightarrow> i = length pre \<Longrightarrow> put (pre @ old @ post) i v = Inr (pre @ enc v @ post)"
  by (simp add: set_eq)

lemma set_extend:
  "width \<le> length rest \<Longrightarrow> i = length out \<Longrightarrow>
   put (out @ rest) i v = Inr ((out @ enc v) @ drop width rest)"
  using wr_range_extend [of "enc v" rest out] by (simp add: set_eq)

lemma get_after_set: "valid v \<Longrightarrow> put data i v = Inr d \<Longrightarrow> get d i = Inr v"
  by (auto simp: set_eq get_eq wr_range_eq_Inr rd_range_def)

lemma get_after_set_elsewhere:
  assumes "put data i v = Inr d" and "j + width \<le> i \<or> i + width \<le> j"
  shows "get d j = get data j"
proof -
  from assms(1) have b: "i + width \<le> length data"
    and d: "d = take i data @ enc v @ drop (i + width) data"
    by (auto simp: set_eq wr_range_eq_Inr)
  have "length d = length data" using assms(1) by (rule set_length)
  moreover from assms(2) have "take width (drop j d) = take width (drop j data)"
    using b by (auto simp: d drop_append take_append min_def drop_take)
  ultimately show ?thesis by (simp add: get_eq rd_range_def)
qed

lemma set_after_get: "get data i = Inr v \<Longrightarrow> put data i v = Inr data"
proof -
  assume g: "get data i = Inr v"
  then obtain bs where bs: "rd_range data i width = Inr bs" "v = dec bs"
    by (auto simp: get_eq)
  then have "length bs = width" by (auto simp: rd_range_eq_Inr)
  with bs show ?thesis by (simp add: set_eq wr_range_same)
qed

lemma set_set_restore:
  assumes "get data i = Inr v"
  shows "rbind (put data i w) (\<lambda>d. put d i v) = Inr data"
proof -
  have "rbind (put data i w) (\<lambda>d. put d i v) = put data i v"
    by (simp add: set_eq wr_range_twice)
  with set_after_get [OF assms] show ?thesis by simp
qed

end

lemmas accessor_defs =
  Get1Byte_def Get2Bytes_def Get3Bytes_def Get4Bytes_def Get8Bytes_def
  ReadBigEndian2_def ReadLittleEndian2_def ReadBigEndian4_def ReadLittleEndian4_def
  ReadBigEndian8_def ReadLittleEndian8_def

lemmas setter_defs =
  Set1Byte_def Set2Bytes_def Set3Bytes_def Set4Bytes_def Set8Bytes_def
  WriteBigEndian2_def WriteLittleEndian2_def WriteBigEndian4_def WriteLittleEndian4_def
  WriteBigEndian8_def WriteLittleEndian8_def

lemma be_bytes_literals [byte_simps]:
  "be_bytes 1 v = [ucast v]"
  "be_bytes 2 v = [ucast (drop_bit 8 v), ucast v]"
  "be_bytes 3 v = [ucast (drop_bit 16 v), ucast (drop_bit 8 v), ucast v]"
  "be_bytes 4 v = [ucast (drop_bit 24 v), ucast (drop_bit 16 v), ucast (drop_bit 8 v), ucast v]"
  "be_bytes 8 v =
     [ucast (drop_bit 56 v), ucast (drop_bit 48 v), ucast (drop_bit 40 v), ucast (drop_bit 32 v),
      ucast (drop_bit 24 v), ucast (drop_bit 16 v), ucast (drop_bit 8 v), ucast v]"
  by (simp_all add: be_bytes_def le_bytes_def upt_literals)

lemma le_bytes_literals [byte_simps]:
  "le_bytes 2 v = [ucast v, ucast (drop_bit 8 v)]"
  "le_bytes 4 v = [ucast v, ucast (drop_bit 8 v), ucast (drop_bit 16 v), ucast (drop_bit 24 v)]"
  "le_bytes 8 v =
     [ucast v, ucast (drop_bit 8 v), ucast (drop_bit 16 v), ucast (drop_bit 24 v),
      ucast (drop_bit 32 v), ucast (drop_bit 40 v), ucast (drop_bit 48 v), ucast (drop_bit 56 v)]"
  by (simp_all add: le_bytes_def upt_literals)

lemma of_le_append:
  assumes "8 * length xs \<le> LENGTH('b::len)" "8 * length ys \<le> LENGTH('b)"
  shows "of_le (xs @ ys) =
    (ucast (of_le xs :: 'b word) OR push_bit (8 * length xs) (ucast (of_le ys :: 'b word)) :: 'a::len word)"
proof (rule bit_word_eqI)
  fix k assume k: "k < LENGTH('a)"
  show "bit (of_le (xs @ ys) :: 'a word) k \<longleftrightarrow>
    bit (ucast (of_le xs :: 'b word) OR push_bit (8 * length xs) (ucast (of_le ys :: 'b word)) :: 'a word) k"
  proof (cases "k < 8 * length xs")
    case True
    with k assms show ?thesis by (auto simp: bit_simps bit_of_le nth_append)
  next
    case False
    then have "\<exists>m. k = 8 * length xs + m" by presburger
    then obtain m where "k = 8 * length xs + m" ..
    with k assms show ?thesis by (auto simp: bit_simps bit_of_le nth_append)
  qed
qed

text \<open>Sufficient conditions for a getter and setter of a whole word to satisfy the contract.\<close>

lemma be_codecI:
  assumes "LENGTH('a::len) = 8 * n"
    and "\<And>data i. get data i = rbind (rd_range data i n) (\<lambda>bs. Ok (of_be bs))"
    and "\<And>data i v. put data i v = wr_range data i (be_bytes n v)"
  shows "byte_codec n get put (be_bytes n) of_be (\<lambda>_ :: 'a word. True)"
proof
  fix bs :: bytes assume "length bs = n"
  then show "be_bytes n (of_be bs :: 'a word) = bs"
    using be_bytes_of_be [of bs, where 'a = 'a] assms(1) by simp
qed (use assms in \<open>simp_all add: of_be_be_bytes take_bit_word_eq_self\<close>)

lemma le_codecI:
  assumes "LENGTH('a::len) = 8 * n"
    and "\<And>data i. get data i = rbind (rd_range data i n) (\<lambda>bs. Ok (of_le bs))"
    and "\<And>data i v. put data i v = wr_range data i (le_bytes n v)"
  shows "byte_codec n get put (le_bytes n) of_le (\<lambda>_ :: 'a word. True)"
proof
  fix bs :: bytes assume "length bs = n"
  then show "le_bytes n (of_le bs :: 'a word) = bs"
    using le_bytes_of_le [of bs, where 'a = 'a] assms(1) by simp
qed (use assms in \<open>simp_all add: of_le_le_bytes take_bit_word_eq_self\<close>)

lemmas get_unfold = accessor_defs rd_range_def rd_def take_drop_nth upt_literals of_be_def

lemmas set_unfold = setter_defs byte_simps wr_range_Cons offset_literals

lemmas set_unfold' = setter_defs byte_simps wr_range_Cons' offset_literals rbind_assoc

interpretation u8: byte_codec 1 Get1Byte Set1Byte "be_bytes 1" of_be "\<lambda>_ :: byte. True"
  by (rule be_codecI) (auto simp: get_unfold set_unfold simp del: One_nat_def)

interpretation u16: byte_codec 2 Get2Bytes Set2Bytes "be_bytes 2" of_be "\<lambda>_ :: uint16. True"
  by (rule be_codecI) (auto simp: get_unfold set_unfold')

interpretation u32: byte_codec 4 Get4Bytes Set4Bytes "be_bytes 4" of_be "\<lambda>_ :: uint32. True"
  by (rule be_codecI) (auto simp: get_unfold set_unfold' ac_simps)

lemma Get8Bytes_value:
  "Get8Bytes data i = rbind (rd_range data i 8) (\<lambda>bs. Ok (of_be bs))"
proof (cases "i + 8 \<le> length data")
  case True
  have "take 8 (drop i data) = take 4 (drop i data) @ take 4 (drop (i + 4) data)"
    by (metis add.commute drop_drop numeral_Bit0 take_add)
  with True have "of_be (take 8 (drop i data)) =
      (push_bit 32 (ucast (of_be (take 4 (drop i data)) :: uint32))
       OR ucast (of_be (take 4 (drop (i + 4) data)) :: uint32) :: uint64)"
    using of_le_append [of "rev (take 4 (drop (i + 4) data))" "rev (take 4 (drop i data))", where 'a = 64 and 'b = 32]
    by (simp add: of_be_def ac_simps)
  with True show ?thesis by (simp add: Get8Bytes_def u32.get_eq)
next
  case False
  then show ?thesis by (auto simp: Get8Bytes_def u32.get_eq rd_range_def)
qed

interpretation u64: byte_codec 8 Get8Bytes Set8Bytes "be_bytes 8" of_be "\<lambda>_ :: uint64. True"
  by (rule be_codecI) (auto simp: Get8Bytes_value set_unfold' ac_simps)

lemma take_bit_eq_self_u24: "v < 16777216 \<Longrightarrow> take_bit 24 (v :: uint32) = v"
  by (simp add: take_bit_eq_mod word_unat_eq_iff unat_mod_distrib word_less_nat_alt)

interpretation u24: byte_codec 3 Get3Bytes Set3Bytes "be_bytes 3" of_be "\<lambda>v :: uint32. v < 2 ^ 24"
proof
  fix bs :: bytes assume "length bs = 3"
  then show "be_bytes 3 (of_be bs :: uint32) = bs"
    using be_bytes_of_be [of bs, where 'a = 32] by simp
next
  fix v :: uint32 assume "v < 2 ^ 24"
  then show "of_be (be_bytes 3 v) = v"
    by (simp add: of_be_be_bytes take_bit_eq_self_u24)
qed (auto simp: get_unfold set_unfold' ac_simps)

interpretation be2: byte_codec 2 ReadBigEndian2 WriteBigEndian2 "be_bytes 2" of_be "\<lambda>_ :: uint16. True"
  by (rule be_codecI) (auto simp: get_unfold set_unfold ac_simps)

interpretation be4: byte_codec 4 ReadBigEndian4 WriteBigEndian4 "be_bytes 4" of_be "\<lambda>_ :: uint32. True"
  by (rule be_codecI) (auto simp: get_unfold set_unfold ac_simps)

interpretation be8: byte_codec 8 ReadBigEndian8 WriteBigEndian8 "be_bytes 8" of_be "\<lambda>_ :: uint64. True"
  by (rule be_codecI) (auto simp: get_unfold set_unfold ac_simps)

interpretation le2: byte_codec 2 ReadLittleEndian2 WriteLittleEndian2 "le_bytes 2" of_le "\<lambda>_ :: uint16. True"
  by (rule le_codecI) (auto simp: get_unfold set_unfold ac_simps)

interpretation le4: byte_codec 4 ReadLittleEndian4 WriteLittleEndian4 "le_bytes 4" of_le "\<lambda>_ :: uint32. True"
  by (rule le_codecI) (auto simp: get_unfold set_unfold ac_simps)

interpretation le8: byte_codec 8 ReadLittleEndian8 WriteLittleEndian8 "le_bytes 8" of_le "\<lambda>_ :: uint64. True"
  by (rule le_codecI) (auto simp: get_unfold set_unfold ac_simps)

section \<open>Padding to 32 bits\<close>

lemma unat_and_3: "unat ((x :: 'a::len word) AND 3) = unat x mod 4"
proof -
  have "x AND 3 = take_bit 2 x" by (simp add: take_bit_eq_mask mask_eq_exp_minus_1)
  then have "unat (x AND 3) = take_bit 2 (unat x)" by (simp only: unsigned_take_bit_eq)
  then show ?thesis by (simp add: take_bit_eq_mod)
qed

lemma and_3_eq_0_iff: "(x :: 'a::len word) AND 3 = 0 \<longleftrightarrow> unat x mod 4 = 0"
  by (simp add: word_unat_eq_iff unat_and_3)

lemma and_complement_add:
  assumes "c AND d = 0" "c OR d = -1"
  shows "((x :: 'a::len word) AND c) + (x AND d) = x"
proof -
  have "(x AND c) AND (x AND d) = 0"
    by (metis assms(1) and.assoc and.left_commute and_zero_eq)
  then have "(x AND c) + (x AND d) = (x AND c) OR (x AND d)"
    by (rule disjunctive_add_eq_or)
  also have "\<dots> = x AND (c OR d)" by (simp add: bit.conj_disj_distrib)
  finally show ?thesis by (simp add: assms)
qed

lemma unat_and_not_3:
  assumes "c AND 3 = 0" "c OR 3 = -1"
  shows "unat ((x :: 'a::len word) AND c) = 4 * (unat x div 4)"
proof -
  have "x AND c = x - (x AND 3)"
    using and_complement_add [OF assms, of x] by (simp add: eq_diff_eq)
  moreover have "x AND 3 \<le> x" by (rule word_and_le2)
  ultimately have "unat (x AND c) = unat x - unat (x AND 3)" by (simp add: unat_sub)
  then show ?thesis by (simp add: unat_and_3 minus_mod_eq_mult_div)
qed

lemma unat_pad:
  assumes "c AND 3 = 0" "c OR 3 = -1"
  shows "unat (if (x :: 'a::len word) AND 3 \<noteq> 0 then (x AND c) + 4 else x) =
    4 * ((unat x + 3) div 4) mod 2 ^ LENGTH('a)"
proof (cases "unat x mod 4 = 0")
  case True
  then have "4 * ((unat x + 3) div 4) = unat x" by presburger
  with True show ?thesis by (simp add: and_3_eq_0_iff)
next
  case False
  then have "4 * ((unat x + 3) div 4) = 4 * (unat x div 4) + 4" by presburger
  with False show ?thesis
    by (simp add: and_3_eq_0_iff unat_word_ariths unat_and_not_3 [OF assms] unsigned_numeral take_bit_eq_mod
        mod_simps)
qed

lemma unat_PadTo4Bytes: "unat (PadTo4Bytes x) = 4 * ((unat x + 3) div 4) mod 65536"
  using unat_pad [of "0xFFFC" x] by (simp add: PadTo4Bytes_def)

lemma unat_PadTo4Bytes32: "unat (PadTo4Bytes32 x) = 4 * ((unat x + 3) div 4) mod 4294967296"
  using unat_pad [of "0xFFFFFFFC" x] by (simp add: PadTo4Bytes32_def)

section \<open>The generic templates compute the reference encodings\<close>

lemma of_be_Cons: "of_be (b # bs) = push_bit (8 * length bs) (ucast b) OR (of_be bs :: 'a::len word)"
proof -
  have "of_le (xs @ [b]) = of_le xs OR (push_bit (8 * length xs) (ucast b) :: 'a word)" for xs
    by (induction xs) (simp_all add: or.assoc push_bit_or push_bit_push_bit add.commute)
  then show ?thesis by (simp add: of_be_def or.commute)
qed

lemma take_drop_Cons:
  "i < n \<Longrightarrow> p + n \<le> length d \<Longrightarrow>
   take (n - i) (drop (p + i) d) = d ! (p + i) # take (n - Suc i) (drop (p + Suc i) d)"
  by (metis Suc_diff_Suc add_Suc_right add_less_cancel_left Cons_nth_drop_Suc order_less_le_trans take_Suc_Cons)

lemma InternalReadBigEndian_in_bounds:
  "p + B \<le> length data \<Longrightarrow> i \<le> B \<Longrightarrow>
   InternalReadBigEndian B i data p val = Inr (val OR of_be (take (B - i) (drop (p + i) data)))"
proof (induction B i data p val rule: InternalReadBigEndian.induct)
  case (1 B i data p val)
  show ?case
  proof (cases "i < B")
    case True
    with 1 have "InternalReadBigEndian B (i + 1) data p (val OR push_bit ((B - 1 - i) * 8) (ucast (data ! (p + i)))) =
        Inr ((val OR push_bit ((B - 1 - i) * 8) (ucast (data ! (p + i)))) OR
          of_be (take (B - (i + 1)) (drop (p + (i + 1)) data)))"
      by simp
    moreover have "min (length data - Suc (p + i)) (B - Suc i) = B - Suc i"
      using 1(2) by simp
    ultimately show ?thesis using True 1(2)
      by (simp add: InternalReadBigEndian.simps [of B i] take_drop_Cons of_be_Cons or.assoc
          mult.commute)
  next
    case False
    with 1 show ?thesis by (simp add: InternalReadBigEndian.simps [of B B] of_be_def)
  qed
qed

lemma InternalReadBigEndian_out_of_bounds:
  "length data < p + B \<Longrightarrow> i < B \<Longrightarrow> InternalReadBigEndian B i data p val = Inl OutOfBounds"
proof (induction B i data p val rule: InternalReadBigEndian.induct)
  case (1 B i data p val)
  then show ?case
    by (cases "p + i < length data"; cases "i + 1 < B")
      (auto simp: InternalReadBigEndian.simps [of B i] rd_def)
qed

lemma InternalReadLittleEndian_in_bounds:
  "p + B \<le> length data \<Longrightarrow> i \<le> B \<Longrightarrow>
   InternalReadLittleEndian B i data p val =
     Inr (val OR push_bit (8 * i) (of_le (take (B - i) (drop (p + i) data))))"
proof (induction B i data p val rule: InternalReadLittleEndian.induct)
  case (1 B i data p val)
  show ?case
  proof (cases "i < B")
    case True
    with 1 have "InternalReadLittleEndian B (i + 1) data p (val OR push_bit (i * 8) (ucast (data ! (p + i)))) =
        Inr ((val OR push_bit (i * 8) (ucast (data ! (p + i)))) OR
          push_bit (8 * (i + 1)) (of_le (take (B - (i + 1)) (drop (p + (i + 1)) data))))"
      by simp
    with True 1(2) show ?thesis
      by (simp add: InternalReadLittleEndian.simps [of B i] take_drop_Cons or.assoc push_bit_or
          mult.commute add.commute [of "i * 8" 8])
  next
    case False
    with 1 show ?thesis by (simp add: InternalReadLittleEndian.simps [of B B])
  qed
qed

lemma InternalReadLittleEndian_out_of_bounds:
  "length data < p + B \<Longrightarrow> i < B \<Longrightarrow> InternalReadLittleEndian B i data p val = Inl OutOfBounds"
proof (induction B i data p val rule: InternalReadLittleEndian.induct)
  case (1 B i data p val)
  then show ?case
    by (cases "p + i < length data"; cases "i + 1 < B")
      (auto simp: InternalReadLittleEndian.simps [of B i] rd_def)
qed

lemma InternalRead_eq:
  assumes "0 < B"
  shows "InternalReadBigEndian B 0 data p 0 = rbind (rd_range data p B) (\<lambda>bs. Ok (of_be bs))"
    and "InternalReadLittleEndian B 0 data p 0 = rbind (rd_range data p B) (\<lambda>bs. Ok (of_le bs))"
  using assms
  by (cases "p + B \<le> length data";
      simp add: InternalReadBigEndian_in_bounds InternalReadBigEndian_out_of_bounds
        InternalReadLittleEndian_in_bounds InternalReadLittleEndian_out_of_bounds rd_range_def)+

lemma WriteBigEndian_suffix:
  "i < B \<Longrightarrow> WriteBigEndian B i data p val = wr_range data (p + i) (drop i (be_bytes B val))"
proof (induction B i data p val rule: WriteBigEndian.induct)
  case (1 B i data p val)
  have d: "drop i (be_bytes B val) = ucast (drop_bit ((B - 1 - i) * 8) val) # drop (Suc i) (be_bytes B val)"
    using 1(2) by (subst Cons_nth_drop_Suc [symmetric])
      (simp_all add: be_bytes_def rev_nth le_bytes_def mult.commute)
  show ?case
  proof (cases "Suc i < B")
    case True
    then have "drop (Suc i) (be_bytes B val) \<noteq> []" by simp
    with 1 True show ?thesis
      by (simp add: WriteBigEndian.simps [of B i] d wr_range_Cons cong: rbind_cong)
  next
    case False
    with 1(2) have "drop (Suc i) (be_bytes B val) = []" by simp
    with 1(2) False show ?thesis
      by (simp add: WriteBigEndian.simps [of B i] WriteBigEndian.simps [of B "Suc i"] d wr_range_single
          rbind_def split: sum.split)
  qed
qed

lemma WriteLittleEndian_suffix:
  "i < B \<Longrightarrow> WriteLittleEndian B i data p val = wr_range data (p + i) (drop i (le_bytes B val))"
proof (induction B i data p val rule: WriteLittleEndian.induct)
  case (1 B i data p val)
  have d: "drop i (le_bytes B val) = ucast (drop_bit (i * 8) val) # drop (Suc i) (le_bytes B val)"
    using 1(2) by (subst Cons_nth_drop_Suc [symmetric]) (simp_all add: le_bytes_def mult.commute)
  show ?case
  proof (cases "Suc i < B")
    case True
    then have "drop (Suc i) (le_bytes B val) \<noteq> []" by simp
    with 1 True show ?thesis
      by (simp add: WriteLittleEndian.simps [of B i] d wr_range_Cons cong: rbind_cong)
  next
    case False
    with 1(2) have "drop (Suc i) (le_bytes B val) = []" by simp
    with 1(2) False show ?thesis
      by (simp add: WriteLittleEndian.simps [of B i] WriteLittleEndian.simps [of B "Suc i"] d
          wr_range_single rbind_def split: sum.split)
  qed
qed

lemma Write_eq:
  assumes "0 < B"
  shows "WriteBigEndian B 0 data p val = wr_range data p (be_bytes B val)"
    and "WriteLittleEndian B 0 data p val = wr_range data p (le_bytes B val)"
  using assms by (simp_all add: WriteBigEndian_suffix WriteLittleEndian_suffix)

lemma single_byte:
  "ReadBigEndian1 data p = InternalReadBigEndian 1 0 data p 0" "ReadLittleEndian1 data p = InternalReadLittleEndian 1 0 data p 0"
  "WriteBigEndian1 data p v = WriteBigEndian 1 0 data p v" "WriteLittleEndian1 data p v = WriteLittleEndian 1 0 data p v"
proof -
  have "rbind (rd data p) (\<lambda>b. Ok (ucast b :: byte)) = rd data p" by (simp add: rbind_def split: sum.split)
  moreover have "rbind (wr data p v) Ok = wr data p v" by (simp add: rbind_def split: sum.split)
  ultimately show "ReadBigEndian1 data p = InternalReadBigEndian 1 0 data p 0" "ReadLittleEndian1 data p = InternalReadLittleEndian 1 0 data p 0"
    "WriteBigEndian1 data p v = WriteBigEndian 1 0 data p v" "WriteLittleEndian1 data p v = WriteLittleEndian 1 0 data p v"
    by (simp_all add: ReadBigEndian1_def ReadLittleEndian1_def WriteBigEndian1_def WriteLittleEndian1_def
        InternalReadBigEndian.simps [of "Suc 0" 0] InternalReadBigEndian.simps [of "Suc 0" "Suc 0"] InternalReadLittleEndian.simps [of "Suc 0" 0] InternalReadLittleEndian.simps [of "Suc 0" "Suc 0"] WriteBigEndian.simps [of "Suc 0" 0] WriteBigEndian.simps [of "Suc 0" "Suc 0"] WriteLittleEndian.simps [of "Suc 0" 0] WriteLittleEndian.simps [of "Suc 0" "Suc 0"]
        del: rbind_eq_Inr)
qed

text \<open>C35: the specializations of ByteReader and ByteWriter for 1, 2, 4 and 8 bytes agree with the
  generic loops.\<close>

theorem byte_io_specializations:
  "ReadBigEndian1 data p = InternalReadBigEndian 1 0 data p 0 \<and>
   ReadLittleEndian1 data p = InternalReadLittleEndian 1 0 data p 0 \<and>
   WriteBigEndian1 data p v1 = WriteBigEndian 1 0 data p v1 \<and>
   WriteLittleEndian1 data p v1 = WriteLittleEndian 1 0 data p v1 \<and>
   ReadBigEndian2 data p = InternalReadBigEndian 2 0 data p 0 \<and>
   ReadBigEndian4 data p = InternalReadBigEndian 4 0 data p 0 \<and>
   ReadBigEndian8 data p = InternalReadBigEndian 8 0 data p 0 \<and>
   ReadLittleEndian2 data p = InternalReadLittleEndian 2 0 data p 0 \<and>
   ReadLittleEndian4 data p = InternalReadLittleEndian 4 0 data p 0 \<and>
   ReadLittleEndian8 data p = InternalReadLittleEndian 8 0 data p 0 \<and>
   WriteBigEndian2 data p v2 = WriteBigEndian 2 0 data p v2 \<and>
   WriteBigEndian4 data p v4 = WriteBigEndian 4 0 data p v4 \<and>
   WriteBigEndian8 data p v8 = WriteBigEndian 8 0 data p v8 \<and>
   WriteLittleEndian2 data p v2 = WriteLittleEndian 2 0 data p v2 \<and>
   WriteLittleEndian4 data p v4 = WriteLittleEndian 4 0 data p v4 \<and>
   WriteLittleEndian8 data p v8 = WriteLittleEndian 8 0 data p v8"
  by (simp add: InternalRead_eq Write_eq be2.get_eq be4.get_eq be8.get_eq le2.get_eq le4.get_eq
      le8.get_eq be2.set_eq be4.set_eq be8.set_eq le2.set_eq le4.set_eq le8.set_eq
      single_byte)

end
