(* ===== verification/RtpPacket.thy ===== *)
theory RtpPacket
  imports ByteIO
begin

text \<open>
  \<open>webrtc::RtpPacket\<close> (rtp/rtp_packet.h, rtp/rtp_packet.cc) and the packet classifiers of
  rtp/rtp_util.cc. Sizes are natural numbers: every sum the parser forms is at most 12 + 60 + 4 + 262140 + 255,
  far below the range of \<open>size_t\<close>. The theory shows that the parser reads only the bytes it is given,
  accepts exactly the RFC 3550 layout, and inverts an encoder of that layout.
\<close>

section \<open>Data\<close>

record rtp_packet =
  r_marker :: bool
  r_payload_type :: byte
  r_padding_size :: byte
  r_sequence_number :: uint16
  r_timestamp :: uint32
  r_ssrc :: uint32
  r_payload_offset :: nat
  r_payload_size :: nat
  r_buffer :: bytes

definition kFixedHeaderSize :: nat where "kFixedHeaderSize = 12"
definition kRtpVersion :: byte where "kRtpVersion = 2"

definition rtp_size :: "rtp_packet \<Rightarrow> nat" where
  "rtp_size p = r_payload_offset p + r_payload_size p + unat (r_padding_size p)"

definition has_padding :: "rtp_packet \<Rightarrow> bool res" where
  "has_padding p = rbind (rd (r_buffer p) 0) (\<lambda>b. Ok (b AND 0x20 \<noteq> 0))"

text \<open>Reading through the pointer that \<open>payload()\<close> returns.\<close>

definition rd_payload :: "rtp_packet \<Rightarrow> nat \<Rightarrow> byte res" where
  "rd_payload p i = rd (r_buffer p) (r_payload_offset p + i)"

section \<open>Parsing\<close>

definition Clear :: "rtp_packet \<Rightarrow> rtp_packet" where
  "Clear p = p\<lparr>r_marker := False, r_payload_type := 0, r_sequence_number := 0, r_timestamp := 0, r_ssrc := 0,
     r_payload_offset := kFixedHeaderSize, r_payload_size := 0, r_padding_size := 0\<rparr>"

text \<open>The header extension: skipped, whatever its profile.\<close>

definition parse_extension :: "bytes \<Rightarrow> nat \<Rightarrow> rtp_packet \<Rightarrow> (bool \<times> rtp_packet) res" where
  "parse_extension buffer sz p =
     (let extension_offset = r_payload_offset p + 4 in
      if extension_offset > sz then Ok (False, p)
      else
        rbind (ReadBigEndian2 buffer (r_payload_offset p)) (\<lambda>profile.
        rbind (ReadBigEndian2 buffer (r_payload_offset p + 2)) (\<lambda>capacity.
        let extensions_capacity = unat capacity * 4 in
        if extension_offset + extensions_capacity > sz then Ok (False, p)
        else Ok (True, p\<lparr>r_payload_offset := extension_offset + extensions_capacity\<rparr>))))"

definition parse_padding :: "bytes \<Rightarrow> nat \<Rightarrow> bool \<Rightarrow> rtp_packet \<Rightarrow> (bool \<times> rtp_packet) res" where
  "parse_padding buffer sz pad p =
     rbind
       (if pad \<and> r_payload_offset p < sz then
          rbind (rd buffer (sz - 1)) (\<lambda>b.
            let p = p\<lparr>r_padding_size := b\<rparr> in if b = 0 then Ok (False, p) else Ok (True, p))
        else Ok (True, p\<lparr>r_padding_size := 0\<rparr>))
       (\<lambda>(ok, p).
        if \<not> ok then Ok (False, p)
        else if r_payload_offset p + unat (r_padding_size p) > sz then Ok (False, p)
        else Ok (True, p\<lparr>r_payload_size := sz - r_payload_offset p - unat (r_padding_size p)\<rparr>))"

definition ParseBuffer :: "bytes \<Rightarrow> nat \<Rightarrow> rtp_packet \<Rightarrow> (bool \<times> rtp_packet) res" where
  "ParseBuffer buffer sz p =
     (if sz < kFixedHeaderSize then Ok (False, p)
      else
        rbind (rd buffer 0) (\<lambda>b0.
        if drop_bit 6 b0 \<noteq> kRtpVersion then Ok (False, p)
        else
          let pad = (b0 AND 0x20 \<noteq> 0);
              has_extension = (b0 AND 0x10 \<noteq> 0);
              number_of_crcs = unat (b0 AND 0x0f)
          in
          rbind (rd buffer 1) (\<lambda>b1.
          rbind (ReadBigEndian2 buffer 2) (\<lambda>seqno.
          rbind (ReadBigEndian4 buffer 4) (\<lambda>ts.
          rbind (ReadBigEndian4 buffer 8) (\<lambda>ssrc.
          let p = p\<lparr>r_marker := (b1 AND 0x80 \<noteq> 0), r_payload_type := b1 AND 0x7f, r_sequence_number := seqno,
                r_timestamp := ts, r_ssrc := ssrc\<rparr>
          in
          if sz < kFixedHeaderSize + number_of_crcs * 4 then Ok (False, p)
          else
            let p = p\<lparr>r_payload_offset := kFixedHeaderSize + number_of_crcs * 4\<rparr> in
            rbind (if has_extension then parse_extension buffer sz p else Ok (True, p)) (\<lambda>(ok, p).
            if \<not> ok then Ok (False, p) else parse_padding buffer sz pad p)))))))"

text \<open>On success the function ends without a return statement; the value is then \<open>None\<close>.\<close>

definition RtpPacket_Parse :: "bytes \<Rightarrow> nat \<Rightarrow> rtp_packet \<Rightarrow> (bool option \<times> rtp_packet) res" where
  "RtpPacket_Parse buffer buffer_size p =
     rbind (ParseBuffer buffer buffer_size p) (\<lambda>(ok, p).
     if \<not> ok then Ok (Some False, Clear p)
     else rbind (rd_range buffer 0 buffer_size) (\<lambda>bs. Ok (None, p\<lparr>r_buffer := bs\<rparr>)))"

section \<open>Classification (rtp_util)\<close>

definition kMinRtpPacketLen :: nat where "kMinRtpPacketLen = 12"
definition kMinRtcpPacketLen :: nat where "kMinRtcpPacketLen = 4"

definition HasCorrectRtpVersion :: "bytes \<Rightarrow> bool res" where
  "HasCorrectRtpVersion packet = rbind (rd packet 0) (\<lambda>b. Ok (drop_bit 6 b = kRtpVersion))"

definition PayloadTypeIsReservedForRtcp :: "byte \<Rightarrow> bool" where
  "PayloadTypeIsReservedForRtcp payload_type \<longleftrightarrow> 64 \<le> payload_type \<and> payload_type < 96"

definition IsRtpPacket :: "bytes \<Rightarrow> nat \<Rightarrow> bool res" where
  "IsRtpPacket packet sz =
     (if \<not> sz \<ge> kMinRtpPacketLen then Ok False
      else rbind (HasCorrectRtpVersion packet) (\<lambda>v. if \<not> v then Ok False
        else rbind (rd packet 1) (\<lambda>b. Ok (\<not> PayloadTypeIsReservedForRtcp (b AND 0x7F)))))"

definition IsRtcpPacket :: "bytes \<Rightarrow> nat \<Rightarrow> bool res" where
  "IsRtcpPacket packet sz =
     (if \<not> sz \<ge> kMinRtcpPacketLen then Ok False
      else rbind (HasCorrectRtpVersion packet) (\<lambda>v. if \<not> v then Ok False
        else rbind (rd packet 1) (\<lambda>b. Ok (PayloadTypeIsReservedForRtcp (b AND 0x7F)))))"

definition ParseRtpPayloadType :: "bytes \<Rightarrow> int res" where
  "ParseRtpPayloadType rtp_packet = rbind (rd rtp_packet 1) (\<lambda>b. Ok (uint (b AND 0x7F)))"

definition ParseRtpSequenceNumber :: "bytes \<Rightarrow> uint16 res" where
  "ParseRtpSequenceNumber rtp_packet = ReadBigEndian2 rtp_packet 2"

definition ParseRtpSsrc :: "bytes \<Rightarrow> uint32 res" where
  "ParseRtpSsrc rtp_packet = ReadBigEndian4 rtp_packet 8"

section \<open>The layout of RFC 3550\<close>

text \<open>An RTP packet as its parts. The padding bit can be set without padding only in front of nothing at
  all, which is how the parser treats it.\<close>

record rtp_parts =
  q_padding_bit :: bool
  q_marker :: bool
  q_payload_type :: byte
  q_sequence_number :: uint16
  q_timestamp :: uint32
  q_ssrc :: uint32
  q_csrcs :: bytes
  q_extension :: "(uint16 \<times> bytes) option"
  q_payload :: bytes
  q_padding :: bytes

definition rtp_b0 :: "bool \<Rightarrow> bool \<Rightarrow> nat \<Rightarrow> byte" where
  "rtp_b0 pad ext n = 0x80 OR (if pad then 0x20 else 0) OR (if ext then 0x10 else 0) OR word_of_nat n"

definition rtp_b1 :: "bool \<Rightarrow> byte \<Rightarrow> byte" where
  "rtp_b1 marker pt = (if marker then 0x80 else 0) OR pt"

fun enc_extension :: "(uint16 \<times> bytes) option \<Rightarrow> bytes" where
  "enc_extension None = []"
| "enc_extension (Some (profile, ext)) = be_bytes 2 profile @ be_bytes 2 (word_of_nat (length ext div 4) :: uint16) @ ext"

definition enc_rtp_fixed :: "rtp_parts \<Rightarrow> bytes" where
  "enc_rtp_fixed q =
     [rtp_b0 (q_padding_bit q) (q_extension q \<noteq> None) (length (q_csrcs q) div 4), rtp_b1 (q_marker q) (q_payload_type q)] @
     be_bytes 2 (q_sequence_number q) @ be_bytes 4 (q_timestamp q) @ be_bytes 4 (q_ssrc q)"

definition enc_rtp :: "rtp_parts \<Rightarrow> bytes" where
  "enc_rtp q = enc_rtp_fixed q @ q_csrcs q @ enc_extension (q_extension q) @ q_payload q @ q_padding q"

definition rtp_parts_ok :: "rtp_parts \<Rightarrow> bool" where
  "rtp_parts_ok q \<longleftrightarrow>
     q_payload_type q < 128 \<and>
     4 dvd length (q_csrcs q) \<and> length (q_csrcs q) < 64 \<and>
     (case q_extension q of None \<Rightarrow> True | Some (profile, ext) \<Rightarrow> 4 dvd length ext \<and> length ext div 4 < 65536) \<and>
     (if q_padding q = [] then \<not> q_padding_bit q \<or> q_payload q = []
      else q_padding_bit q \<and> length (q_padding q) < 256 \<and> last (q_padding q) = word_of_nat (length (q_padding q)))"

text \<open>What the parser stores for the parts.\<close>

definition rtp_of_parts :: "rtp_parts \<Rightarrow> rtp_packet \<Rightarrow> rtp_packet" where
  "rtp_of_parts q p = p\<lparr>r_marker := q_marker q, r_payload_type := q_payload_type q,
     r_sequence_number := q_sequence_number q, r_timestamp := q_timestamp q, r_ssrc := q_ssrc q,
     r_payload_offset := 12 + length (q_csrcs q) + length (enc_extension (q_extension q)),
     r_padding_size := word_of_nat (length (q_padding q)), r_payload_size := length (q_payload q)\<rparr>"

section \<open>The first two bytes\<close>

lemma rtp_b0_dec:
  assumes "n < 16"
  shows "drop_bit 6 (rtp_b0 pad ext n) = 2" "rtp_b0 pad ext n AND 0x20 \<noteq> 0 \<longleftrightarrow> pad"
    "rtp_b0 pad ext n AND 0x10 \<noteq> 0 \<longleftrightarrow> ext" "unat (rtp_b0 pad ext n AND 0x0f) = n"
proof -
  have "n \<in> {0, 1, 2, 3, 4, 5, 6, 7, 8, 9, 10, 11, 12, 13, 14, 15}" using assms by (simp, arith)
  then show "drop_bit 6 (rtp_b0 pad ext n) = 2" "rtp_b0 pad ext n AND 0x20 \<noteq> 0 \<longleftrightarrow> pad"
    "rtp_b0 pad ext n AND 0x10 \<noteq> 0 \<longleftrightarrow> ext" "unat (rtp_b0 pad ext n AND 0x0f) = n"
    by (cases pad; cases ext; auto simp: rtp_b0_def)+
qed

lemma byte_eqI:
  fixes a b :: byte
  assumes "bit a 0 = bit b 0" "bit a 1 = bit b 1" "bit a 2 = bit b 2" "bit a 3 = bit b 3"
    "bit a 4 = bit b 4" "bit a 5 = bit b 5" "bit a 6 = bit b 6" "bit a 7 = bit b 7"
  shows "a = b"
proof (rule bit_word_eqI)
  fix n assume "n < LENGTH(8)"
  then have "n \<in> {0, 1, 2, 3, 4, 5, 6, 7}" by auto
  with assms show "bit a n = bit b n" by auto
qed

lemma byte_mask_bit:
  fixes b :: byte
  shows "b AND 0x80 \<noteq> 0 \<longleftrightarrow> bit b 7" "b AND 0x20 \<noteq> 0 \<longleftrightarrow> bit b 5" "b AND 0x10 \<noteq> 0 \<longleftrightarrow> bit b 4"
  using and_exp_eq_0_iff_not_bit [of b 7] and_exp_eq_0_iff_not_bit [of b 5] and_exp_eq_0_iff_not_bit [of b 4] by simp_all

lemma rtp_b0_enc:
  assumes "drop_bit 6 b = 2"
  shows "rtp_b0 (b AND 0x20 \<noteq> 0) (b AND 0x10 \<noteq> 0) (unat (b AND 0x0f)) = b"
proof -
  have "bit (drop_bit 6 b) 0 = bit (2 :: byte) 0" "bit (drop_bit 6 b) 1 = bit (2 :: byte) 1" using assms by simp_all
  then have "\<not> bit b 6" "bit b 7" by (simp_all add: bit_drop_bit_eq)
  then show ?thesis
    unfolding rtp_b0_def byte_mask_bit by (intro byte_eqI) (auto simp: bit_simps)
qed

lemma rtp_b1_dec:
  assumes "pt < 128"
  shows "rtp_b1 m pt AND 0x80 \<noteq> 0 \<longleftrightarrow> m" "rtp_b1 m pt AND 0x7f = pt"
proof -
  have "take_bit 7 pt = pt" using assms by (simp add: take_bit_eq_mod word_unat_eq_iff unat_mod_distrib word_less_nat_alt)
  then have "\<not> bit pt 7" by (metis bit_take_bit_iff less_irrefl)
  then show "rtp_b1 m pt AND 0x80 \<noteq> 0 \<longleftrightarrow> m" "rtp_b1 m pt AND 0x7f = pt"
    by (auto simp: byte_mask_bit rtp_b1_def bit_simps intro!: byte_eqI)
qed

lemma rtp_b1_enc: "rtp_b1 (b AND 0x80 \<noteq> 0) (b AND 0x7f) = b" "b AND 0x7f < (128 :: byte)"
proof -
  show "rtp_b1 (b AND 0x80 \<noteq> 0) (b AND 0x7f) = b"
    unfolding byte_mask_bit by (intro byte_eqI) (auto simp: rtp_b1_def bit_simps)
  show "b AND 0x7f < (128 :: byte)" by (rule le_less_trans [OF word_and_le1]) simp
qed

section \<open>The parser inverts the encoder\<close>

lemma length_enc_rtp_fixed [simp]: "length (enc_rtp_fixed q) = 12"
  by (simp add: enc_rtp_fixed_def)

lemma length_enc_rtp:
  "length (enc_rtp q) = 12 + length (q_csrcs q) + length (enc_extension (q_extension q)) + length (q_payload q) + length (q_padding q)"
  by (simp add: enc_rtp_def)

lemma rtp_fixed_reads:
  fixes rest :: bytes and q :: rtp_parts
  defines "d \<equiv> enc_rtp_fixed q @ rest"
  shows "rd d 0 = Inr (rtp_b0 (q_padding_bit q) (q_extension q \<noteq> None) (length (q_csrcs q) div 4))"
    "rd d 1 = Inr (rtp_b1 (q_marker q) (q_payload_type q))"
    "ReadBigEndian2 d 2 = Inr (q_sequence_number q)" "ReadBigEndian4 d 4 = Inr (q_timestamp q)"
    "ReadBigEndian4 d 8 = Inr (q_ssrc q)"
proof -
  let ?b = "[rtp_b0 (q_padding_bit q) (q_extension q \<noteq> None) (length (q_csrcs q) div 4), rtp_b1 (q_marker q) (q_payload_type q)]"
  let ?s = "be_bytes 2 (q_sequence_number q)" and ?t = "be_bytes 4 (q_timestamp q)" and ?r = "be_bytes 4 (q_ssrc q)"
  show "rd d 0 = Inr (rtp_b0 (q_padding_bit q) (q_extension q \<noteq> None) (length (q_csrcs q) div 4))"
    "rd d 1 = Inr (rtp_b1 (q_marker q) (q_payload_type q))" by (simp_all add: d_def enc_rtp_fixed_def rd_def)
  show "ReadBigEndian2 d 2 = Inr (q_sequence_number q)"
    using be2.get_append [where v = "q_sequence_number q" and i = 2 and pre = ?b and post = "?t @ ?r @ rest"] by (simp add: d_def enc_rtp_fixed_def)
  show "ReadBigEndian4 d 4 = Inr (q_timestamp q)"
    using be4.get_append [where v = "q_timestamp q" and i = 4 and pre = "?b @ ?s" and post = "?r @ rest"] by (simp add: d_def enc_rtp_fixed_def)
  show "ReadBigEndian4 d 8 = Inr (q_ssrc q)"
    using be4.get_append [where v = "q_ssrc q" and i = 8 and pre = "?b @ ?s @ ?t" and post = rest] by (simp add: d_def enc_rtp_fixed_def)
qed

lemma parse_extension_enc:
  assumes "4 dvd length ext" "length ext div 4 < 65536" "r_payload_offset p = length pre"
    "sz \<ge> length pre + 4 + length ext"
  shows "parse_extension (pre @ enc_extension (Some (profile, ext)) @ post) sz p =
    Inr (True, p\<lparr>r_payload_offset := length pre + length (enc_extension (Some (profile, ext)))\<rparr>)"
proof -
  let ?n = "word_of_nat (length ext div 4) :: uint16"
  let ?d = "pre @ enc_extension (Some (profile, ext)) @ post"
  have "ReadBigEndian2 ?d (length pre) = Inr profile"
    using be2.get_append [where v = profile and i = "length pre" and pre = pre and post = "be_bytes 2 ?n @ ext @ post"] by simp
  moreover have "ReadBigEndian2 ?d (length pre + 2) = Inr ?n"
    using be2.get_append [where v = ?n and i = "length pre + 2" and pre = "pre @ be_bytes 2 profile" and post = "ext @ post"] by simp
  moreover have "unat ?n * 4 = length ext" using assms(1,2) by (simp add: unat_of_nat_u16_small)
  ultimately show ?thesis using assms(3,4) by (simp add: parse_extension_def Let_def del: enc_extension.simps) simp
qed

lemma parse_padding_enc:
  assumes "r_payload_offset p = length pre" and sz: "sz = length pre + length payload + length padding"
    and pad: "if padding = [] then \<not> pad \<or> payload = []
      else pad \<and> length padding < 256 \<and> last padding = word_of_nat (length padding)"
  shows "parse_padding (pre @ payload @ padding @ rest) sz pad p =
    Inr (True, p\<lparr>r_padding_size := word_of_nat (length padding), r_payload_size := length payload\<rparr>)"
proof (cases "padding = []")
  case True
  with assms show ?thesis by (auto simp: parse_padding_def)
next
  case False
  then have n: "unat (word_of_nat (length padding) :: byte) = length padding" using pad by (simp add: unat_of_nat)
  have "rd (pre @ payload @ padding @ rest) (sz - 1) = Inr (last padding)"
  proof -
    obtain ini l where l: "padding = ini @ [l]" using False by (metis rev_exhaust)
    then show ?thesis using nth_append_length [of "pre @ payload @ ini" l rest] by (simp add: rd_def sz add.assoc)
  qed
  moreover have "last padding \<noteq> 0" using n pad False by (metis length_0_conv unat_0)
  ultimately show ?thesis using False assms n by (simp add: parse_padding_def Let_def)
qed

lemma ParseBuffer_enc:
  assumes ok: "rtp_parts_ok q"
  shows "ParseBuffer (enc_rtp q @ rest) (length (enc_rtp q)) p = Inr (True, rtp_of_parts q p)"
proof -
  let ?n = "length (q_csrcs q) div 4"
  let ?ext = "enc_extension (q_extension q)"
  have n: "?n < 16" "?n * 4 = length (q_csrcs q)" and pt: "q_payload_type q < 128" using ok by (auto simp: rtp_parts_ok_def)
  define d where "d = enc_rtp q @ rest"
  have split: "d = enc_rtp_fixed q @ (q_csrcs q @ ?ext @ q_payload q @ q_padding q @ rest)" by (simp add: d_def enc_rtp_def)
  note reads = rtp_fixed_reads [of q "q_csrcs q @ ?ext @ q_payload q @ q_padding q @ rest", folded split]
  define p1 where "p1 = p\<lparr>r_marker := q_marker q, r_payload_type := q_payload_type q, r_sequence_number := q_sequence_number q,
    r_timestamp := q_timestamp q, r_ssrc := q_ssrc q, r_payload_offset := 12 + length (q_csrcs q)\<rparr>"
  define p2 where "p2 = p1\<lparr>r_payload_offset := 12 + length (q_csrcs q) + length ?ext\<rparr>"
  have ext: "(if q_extension q \<noteq> None then parse_extension d (length (enc_rtp q)) p1 else Ok (True, p1)) = Inr (True, p2)"
  proof (cases "q_extension q")
    case None
    then show ?thesis by (simp add: p1_def p2_def)
  next
    case (Some x)
    then obtain profile ext where x: "q_extension q = Some (profile, ext)" by (cases x) auto
    then have "4 dvd length ext" "length ext div 4 < 65536" using ok by (auto simp: rtp_parts_ok_def)
    with x show ?thesis
      using parse_extension_enc [of ext p1 "enc_rtp_fixed q @ q_csrcs q" "length (enc_rtp q)" profile "q_payload q @ q_padding q @ rest"]
      by (simp add: p1_def p2_def split length_enc_rtp)
  qed
  have pad: "parse_padding d (length (enc_rtp q)) (q_padding_bit q) p2 = Inr (True, rtp_of_parts q p)"
  proof -
    have "if q_padding q = [] then \<not> q_padding_bit q \<or> q_payload q = [] else q_padding_bit q \<and>
        length (q_padding q) < 256 \<and> last (q_padding q) = word_of_nat (length (q_padding q))"
      using ok unfolding rtp_parts_ok_def by blast
    from parse_padding_enc [OF _ _ this, of p2 "enc_rtp_fixed q @ q_csrcs q @ ?ext" "length (enc_rtp q)" rest] show ?thesis
      by (simp add: p1_def p2_def split length_enc_rtp rtp_of_parts_def)
  qed
  have "kFixedHeaderSize \<le> length (enc_rtp q)" "\<not> length (enc_rtp q) < kFixedHeaderSize + ?n * 4"
    by (simp_all add: length_enc_rtp kFixedHeaderSize_def n)
  then have "ParseBuffer d (length (enc_rtp q)) p =
      rbind (if q_extension q \<noteq> None then parse_extension d (length (enc_rtp q)) p1 else Ok (True, p1)) (\<lambda>(ok, p).
        if \<not> ok then Ok (False, p) else parse_padding d (length (enc_rtp q)) (q_padding_bit q) p)"
    using reads by (simp add: ParseBuffer_def kRtpVersion_def rtp_b0_dec [OF n(1)] rtp_b1_dec [OF pt] Let_def n(2) p1_def
        kFixedHeaderSize_def del: One_nat_def)
  then show ?thesis unfolding ext using pad by (simp add: d_def)
qed

section \<open>The parser accepts nothing else\<close>

lemma ParseBuffer_total:
  assumes "sz \<le> length buffer"
  shows "\<exists>ok p'. ParseBuffer buffer sz p = Inr (ok, p')"
proof (cases "sz < kFixedHeaderSize")
  case True
  then show ?thesis by (auto simp: ParseBuffer_def)
next
  case False
  then have l: "12 \<le> length buffer" using assms by (simp add: kFixedHeaderSize_def)
  then have "0 < length buffer" "1 < length buffer" by linarith+
  then have reads: "rd buffer 0 = Inr (buffer ! 0)" "rd buffer 1 = Inr (buffer ! 1)" by (simp_all only: rd_ok)
  have reads': "\<exists>v. ReadBigEndian2 buffer 2 = Inr v" "\<exists>v. ReadBigEndian4 buffer 4 = Inr v" "\<exists>v. ReadBigEndian4 buffer 8 = Inr v"
    unfolding be2.get_bounds be4.get_bounds using l by simp_all
  have ext: "\<exists>ok p'. parse_extension buffer sz p = Inr (ok, p')" for p
  proof (cases "r_payload_offset p + 4 > sz")
    case False
    then obtain v v' where "ReadBigEndian2 buffer (r_payload_offset p) = Inr v" "ReadBigEndian2 buffer (r_payload_offset p + 2) = Inr v'"
      using be2.get_bounds [of buffer "r_payload_offset p"] be2.get_bounds [of buffer "r_payload_offset p + 2"] assms by auto
    then show ?thesis by (cases "r_payload_offset p + 4 + unat v' * 4 > sz") (auto simp: parse_extension_def Let_def simp del: rbind_eq_Inr)
  qed (auto simp: parse_extension_def)
  have pad: "\<exists>ok p'. parse_padding buffer sz b p = Inr (ok, p')" for b p
  proof -
    have "rd buffer (sz - 1) = Inr (buffer ! (sz - 1))" if "r_payload_offset p < sz" using that assms by simp
    then show ?thesis unfolding parse_padding_def Let_def
      by (cases "b \<and> r_payload_offset p < sz"; cases "buffer ! (sz - 1) = 0") (auto simp del: rbind_eq_Inr)
  qed
  obtain sq ts ss where rs: "ReadBigEndian2 buffer 2 = Inr sq" "ReadBigEndian4 buffer 4 = Inr ts" "ReadBigEndian4 buffer 8 = Inr ss"
    using reads' by blast
  have tail: "\<exists>ok p'. rbind (if x then parse_extension buffer sz p else Ok (True, p))
      (\<lambda>(ok, p). if \<not> ok then Ok (False, p) else parse_padding buffer sz b p) = Inr (ok, p')" for x b p
  proof -
    obtain ok p' where e: "(if x then parse_extension buffer sz p else Ok (True, p)) = Inr (ok, p')" using ext by (metis (full_types))
    show ?thesis unfolding e using pad [of b p'] by (cases ok) (auto simp del: rbind_eq_Inr)
  qed
  show ?thesis unfolding ParseBuffer_def reads rs Let_def rbind_simps using tail by (auto simp del: rbind_eq_Inr)
qed

lemma take_three:
  "take (a + (b + c)) (drop i xs) = take a (drop i xs) @ take b (drop (i + a) xs) @ take c (drop (i + a + b) xs)"
  by (simp add: take_add ac_simps)

lemma parse_extension_sound:
  assumes sz: "sz \<le> length buffer" and r: "parse_extension buffer sz p = Inr (True, p')"
  obtains profile ext where "4 dvd length ext" "length ext div 4 < 65536"
    "take (length (enc_extension (Some (profile, ext)))) (drop (r_payload_offset p) buffer) = enc_extension (Some (profile, ext))"
    "p' = p\<lparr>r_payload_offset := r_payload_offset p + length (enc_extension (Some (profile, ext)))\<rparr>"
    "r_payload_offset p + length (enc_extension (Some (profile, ext))) \<le> sz"
proof -
  let ?o = "r_payload_offset p"
  have o4: "?o + 4 \<le> sz" using r by (auto simp: parse_extension_def Let_def split: if_splits)
  define profile :: uint16 where "profile = of_be (take 2 (drop ?o buffer))"
  define n :: uint16 where "n = of_be (take 2 (drop (?o + 2) buffer))"
  have reads: "ReadBigEndian2 buffer ?o = Inr profile" "ReadBigEndian2 buffer (?o + 2) = Inr n"
    using be2.get_in_bounds o4 sz by (simp_all add: profile_def n_def)
  have enc: "be_bytes 2 profile = take 2 (drop ?o buffer)" "be_bytes 2 n = take 2 (drop (?o + 2) buffer)"
    using o4 sz by (simp_all add: profile_def n_def be2.enc_dec)
  have b: "?o + 4 + unat n * 4 \<le> sz" and p': "p' = p\<lparr>r_payload_offset := ?o + 4 + unat n * 4\<rparr>"
    using r reads o4 by (auto simp: parse_extension_def Let_def split: if_splits)
  define ext where "ext = take (unat n * 4) (drop (?o + 2 + 2) buffer)"
  have l: "length ext = unat n * 4" using b sz by (simp add: ext_def)
  have w: "word_of_nat (length ext div 4) = n" by (simp add: l)
  show thesis
  proof (rule that [of ext profile])
    show "4 dvd length ext" "length ext div 4 < 65536" using unat_u16_less [of n] by (simp_all add: l)
    have "take (2 + (2 + unat n * 4)) (drop ?o buffer) = take 2 (drop ?o buffer) @ take 2 (drop (?o + 2) buffer) @ ext"
      unfolding ext_def by (rule take_three)
    moreover have "length (enc_extension (Some (profile, ext))) = 2 + (2 + unat n * 4)" by (simp add: l)
    moreover have "enc_extension (Some (profile, ext)) = take 2 (drop ?o buffer) @ take 2 (drop (?o + 2) buffer) @ ext" by (simp add: w enc)
    ultimately show "take (length (enc_extension (Some (profile, ext)))) (drop ?o buffer) = enc_extension (Some (profile, ext))"
      by argo
  qed (use p' b l in simp_all)
qed

lemma parse_padding_sound:
  assumes sz: "sz \<le> length buffer" and r: "parse_padding buffer sz pad p = Inr (True, p')" and off: "r_payload_offset p \<le> sz"
  obtains payload padding where "take (sz - r_payload_offset p) (drop (r_payload_offset p) buffer) = payload @ padding"
    "if padding = [] then \<not> pad \<or> payload = [] else pad \<and> length padding < 256 \<and> last padding = word_of_nat (length padding)"
proof (cases "pad \<and> r_payload_offset p < sz")
  case False
  with off show thesis using that [of "take (sz - r_payload_offset p) (drop (r_payload_offset p) buffer)" "[]"] by auto
next
  case True
  define b where "b = buffer ! (sz - 1)"
  let ?d = "take (sz - r_payload_offset p) (drop (r_payload_offset p) buffer)"
  have b: "b \<noteq> 0" "r_payload_offset p + unat b \<le> sz"
    using True sz r by (auto simp: parse_padding_def Let_def b_def split: if_splits)
  let ?k = "length ?d - unat b"
  have k: "length ?d = sz - r_payload_offset p" "unat b \<le> length ?d" "0 < unat b"
    using b sz by (auto simp: word_neq_0_conv unat_gt_0)
  have "r_payload_offset p + (sz - Suc (r_payload_offset p)) = sz - 1" "sz - Suc (r_payload_offset p) < sz - r_payload_offset p"
    using True by auto
  then have "last ?d = b" using True sz by (simp add: last_conv_nth b_def)
  define d where "d = ?d"
  have d: "last d = b" "unat b \<le> length d" "0 < unat b" using \<open>last ?d = b\<close> k by (simp_all add: d_def)
  have e: "last (drop (length d - unat b) d) = b" "length (drop (length d - unat b) d) = unat b" using d by simp_all
  show thesis
  proof (rule that)
    show "?d = take (length d - unat b) d @ drop (length d - unat b) d"
      unfolding d_def [symmetric] by (rule append_take_drop_id [symmetric])
    show "if drop (length d - unat b) d = [] then \<not> pad \<or> take (length d - unat b) d = []
      else pad \<and> length (drop (length d - unat b) d) < 256 \<and>
        last (drop (length d - unat b) d) = word_of_nat (length (drop (length d - unat b) d))"
      unfolding e using True d unat_byte_less [of b] by simp
  qed
qed

text \<open>The optional extension, between the fixed header and the padding.\<close>

lemma optional_extension_sound:
  assumes sz: "sz \<le> length buffer" and o: "r_payload_offset p1 \<le> sz"
    and r: "rbind (if x then parse_extension buffer sz p1 else Ok (True, p1))
      (\<lambda>(ok, p). if \<not> ok then Ok (False, p) else parse_padding buffer sz pad p) = Inr (True, p')"
  obtains e where "e \<noteq> None \<longleftrightarrow> x" "case e of None \<Rightarrow> True | Some (profile, ext) \<Rightarrow> 4 dvd length ext \<and> length ext div 4 < 65536"
    "take (length (enc_extension e)) (drop (r_payload_offset p1) buffer) = enc_extension e"
    "r_payload_offset p1 + length (enc_extension e) \<le> sz"
    "parse_padding buffer sz pad (p1\<lparr>r_payload_offset := r_payload_offset p1 + length (enc_extension e)\<rparr>) = Inr (True, p')"
proof (cases x)
  case False
  with r o show thesis by (intro that [of None]) simp_all
next
  case True
  with r obtain p2 where p2: "parse_extension buffer sz p1 = Inr (True, p2)" "parse_padding buffer sz pad p2 = Inr (True, p')"
    by (auto split: if_splits)
  obtain profile ext where e: "4 dvd length ext" "length ext div 4 < 65536"
    "take (length (enc_extension (Some (profile, ext)))) (drop (r_payload_offset p1) buffer) = enc_extension (Some (profile, ext))"
    "p2 = p1\<lparr>r_payload_offset := r_payload_offset p1 + length (enc_extension (Some (profile, ext)))\<rparr>"
    "r_payload_offset p1 + length (enc_extension (Some (profile, ext))) \<le> sz"
    using parse_extension_sound [OF sz p2(1)] by metis
  show thesis by (rule that [of "Some (profile, ext)"]) (use e p2(2) True in \<open>simp_all del: enc_extension.simps\<close>)
qed

lemma fixed_header_bytes:
  assumes "12 \<le> length buffer"
  shows "take 12 buffer = [buffer ! 0, buffer ! 1] @ take 2 (drop 2 buffer) @ take 4 (drop 4 buffer) @ take 4 (drop 8 buffer)"
proof -
  have "take 2 (drop 0 buffer) = [buffer ! 0, buffer ! 1]"
    using take_drop_nth [of 0 2 buffer] assms by (simp add: upt_literals)
  then show ?thesis using take_three [of 2 2 "4 + 4" 0 buffer] take_three [of 4 4 0 4 buffer]
    by (simp del: add_2_eq_Suc add_2_eq_Suc')
qed

lemma ParseBuffer_sound:
  assumes sz: "sz \<le> length buffer" and r: "ParseBuffer buffer sz p = Inr (True, p')"
  shows "\<exists>q. rtp_parts_ok q \<and> take sz buffer = enc_rtp q"
proof -
  have l: "12 \<le> sz" using r by (auto simp: ParseBuffer_def kFixedHeaderSize_def split: if_splits)
  define b0 where "b0 = buffer ! 0"
  define b1 where "b1 = buffer ! 1"
  define sq :: uint16 where "sq = of_be (take 2 (drop 2 buffer))"
  define ts :: uint32 where "ts = of_be (take 4 (drop 4 buffer))"
  define ss :: uint32 where "ss = of_be (take 4 (drop 8 buffer))"
  have "0 < length buffer" "1 < length buffer" using l sz by linarith+
  then have reads: "rd buffer 0 = Inr b0" "rd buffer 1 = Inr b1" "ReadBigEndian2 buffer 2 = Inr sq"
    "ReadBigEndian4 buffer 4 = Inr ts" "ReadBigEndian4 buffer 8 = Inr ss"
    using l sz be2.get_in_bounds be4.get_in_bounds by (simp_all add: b0_def b1_def sq_def ts_def ss_def)
  define n where "n = unat (b0 AND 0x0f)"
  have "n \<le> 15" using word_and_le1 [of b0 "0x0f"] by (simp add: n_def word_le_nat_alt)
  have v: "drop_bit 6 b0 = 2" using r l reads(1) by (auto simp: ParseBuffer_def kFixedHeaderSize_def kRtpVersion_def split: if_splits)
  define p1 where "p1 = p\<lparr>r_marker := (b1 AND 0x80 \<noteq> 0), r_payload_type := b1 AND 0x7f, r_sequence_number := sq,
    r_timestamp := ts, r_ssrc := ss, r_payload_offset := 12 + n * 4\<rparr>"
  have c: "12 + n * 4 \<le> sz" and r': "rbind (if b0 AND 0x10 \<noteq> 0 then parse_extension buffer sz p1 else Ok (True, p1))
      (\<lambda>(ok, p). if \<not> ok then Ok (False, p) else parse_padding buffer sz (b0 AND 0x20 \<noteq> 0) p) = Inr (True, p')"
    using r reads v l
    by (auto simp: ParseBuffer_def kFixedHeaderSize_def kRtpVersion_def Let_def n_def p1_def split: if_splits simp del: rbind_eq_Inr)
  have o: "r_payload_offset p1 = 12 + n * 4" by (simp add: p1_def)
  obtain e where e: "e \<noteq> None \<longleftrightarrow> b0 AND 0x10 \<noteq> 0"
    "case e of None \<Rightarrow> True | Some (profile, ext) \<Rightarrow> 4 dvd length ext \<and> length ext div 4 < 65536"
    "take (length (enc_extension e)) (drop (12 + n * 4) buffer) = enc_extension e" "12 + n * 4 + length (enc_extension e) \<le> sz"
    and pad: "parse_padding buffer sz (b0 AND 0x20 \<noteq> 0) (p1\<lparr>r_payload_offset := 12 + n * 4 + length (enc_extension e)\<rparr>) = Inr (True, p')"
    using optional_extension_sound [OF sz _ r', unfolded o, OF c] .
  have o2: "r_payload_offset (p1\<lparr>r_payload_offset := 12 + n * 4 + length (enc_extension e)\<rparr>) = 12 + n * 4 + length (enc_extension e)" by simp
  obtain payload padding where pp:
    "take (sz - (12 + n * 4 + length (enc_extension e))) (drop (12 + n * 4 + length (enc_extension e)) buffer) = payload @ padding"
    "if padding = [] then b0 AND 0x20 = 0 \<or> payload = []
     else b0 AND 0x20 \<noteq> 0 \<and> length padding < 256 \<and> last padding = word_of_nat (length padding)"
    using parse_padding_sound [OF sz pad, unfolded o2, OF e(4)] by (metis (full_types))
  define csrcs where "csrcs = take (n * 4) (drop 12 buffer)"
  have ln: "length csrcs = n * 4" using c sz by (simp add: csrcs_def)
  define q where "q = \<lparr>q_padding_bit = (b0 AND 0x20 \<noteq> 0), q_marker = (b1 AND 0x80 \<noteq> 0), q_payload_type = b1 AND 0x7f,
    q_sequence_number = sq, q_timestamp = ts, q_ssrc = ss, q_csrcs = csrcs,
    q_extension = e, q_payload = payload, q_padding = padding\<rparr>"
  have "rtp_parts_ok q" using pp(2) e(2) \<open>n \<le> 15\<close> rtp_b1_enc(2) by (simp add: rtp_parts_ok_def q_def ln)
  moreover have "enc_rtp_fixed q = take 12 buffer"
    using l sz rtp_b0_enc [OF v] rtp_b1_enc(1) [of b1] e(1) fixed_header_bytes [of buffer]
    by (simp add: enc_rtp_fixed_def q_def ln n_def b0_def b1_def sq_def ts_def ss_def be2.enc_dec be4.enc_dec)
  moreover have "take sz buffer = take 12 buffer @ csrcs @ enc_extension e @ payload @ padding"
    unfolding csrcs_def
    using take_three [of 12 "n * 4" "sz - (12 + n * 4)" 0 buffer]
      take_three [of "length (enc_extension e)" "sz - (12 + n * 4 + length (enc_extension e))" 0 "12 + n * 4" buffer] pp(1) e(3,4) c
    by simp
  ultimately show ?thesis by (auto simp: enc_rtp_def q_def)
qed

section \<open>Properties\<close>

definition is_rtp_layout :: "bytes \<Rightarrow> bool" where
  "is_rtp_layout d \<longleftrightarrow> (\<exists>q. rtp_parts_ok q \<and> d = enc_rtp q)"

text \<open>The invariant the depacketizer relies on: the payload lies in the buffer.\<close>

definition payload_in_buffer :: "rtp_packet \<Rightarrow> bool" where
  "payload_in_buffer p \<longleftrightarrow> r_payload_size p = 0 \<or> r_payload_offset p + r_payload_size p \<le> length (r_buffer p)"

lemma RtpPacket_Parse_eq:
  assumes "sz \<le> length buffer" "rtp_parts_ok q" "take sz buffer = enc_rtp q"
  shows "RtpPacket_Parse buffer sz p = Inr (None, (rtp_of_parts q p)\<lparr>r_buffer := enc_rtp q\<rparr>)"
proof -
  have "length (enc_rtp q) = sz" using assms(1,3) by (metis length_take min_absorb2)
  moreover have "buffer = enc_rtp q @ drop sz buffer" using assms(3) by (metis append_take_drop_id)
  ultimately have "ParseBuffer buffer sz p = Inr (True, rtp_of_parts q p)" using ParseBuffer_enc [OF assms(2)] by metis
  with assms show ?thesis by (simp add: RtpPacket_Parse_def)
qed

lemma RtpPacket_Parse_cases:
  assumes "sz \<le> length buffer"
  obtains (accepted) q where "rtp_parts_ok q" "take sz buffer = enc_rtp q"
      "RtpPacket_Parse buffer sz p = Inr (None, (rtp_of_parts q p)\<lparr>r_buffer := enc_rtp q\<rparr>)"
    | (rejected) p' where "\<not> is_rtp_layout (take sz buffer)" "RtpPacket_Parse buffer sz p = Inr (Some False, Clear p')"
proof (cases "is_rtp_layout (take sz buffer)")
  case True
  then show thesis using accepted RtpPacket_Parse_eq [OF assms] by (auto simp: is_rtp_layout_def)
next
  case False
  obtain ok p' where r: "ParseBuffer buffer sz p = Inr (ok, p')" using ParseBuffer_total [OF assms] by blast
  then have "\<not> ok" using ParseBuffer_sound [OF assms, of p p'] False unfolding is_rtp_layout_def by (cases ok) auto
  with r show thesis using rejected [of p'] False by (simp add: RtpPacket_Parse_def)
qed

lemma rtp_payload_slice:
  "take (length (q_payload q)) (drop (12 + length (q_csrcs q) + length (enc_extension (q_extension q))) (enc_rtp q)) = q_payload q"
proof -
  have "enc_rtp q = (enc_rtp_fixed q @ q_csrcs q @ enc_extension (q_extension q)) @ q_payload q @ q_padding q"
    by (simp add: enc_rtp_def)
  moreover have "12 + length (q_csrcs q) + length (enc_extension (q_extension q)) =
      length (enc_rtp_fixed q @ q_csrcs q @ enc_extension (q_extension q))" by simp
  ultimately show ?thesis by (metis append_eq_conv_conj)
qed


text \<open>A packet with one contributing source, a one-byte-header extension, four bytes of payload and padding.\<close>

definition example_rtp :: rtp_parts where
  "example_rtp = \<lparr>q_padding_bit = True, q_marker = True, q_payload_type = 96, q_sequence_number = 0x1234,
     q_timestamp = 90000, q_ssrc = 12345678, q_csrcs = [0, 0, 0, 1], q_extension = Some (0xBEDE, [0x10, 1, 0, 0]),
     q_payload = [0x65, 1, 2, 3], q_padding = [0, 0, 3]\<rparr>"

definition empty_rtp :: rtp_packet where
  "empty_rtp = \<lparr>r_marker = False, r_payload_type = 0, r_padding_size = 0, r_sequence_number = 0, r_timestamp = 0,
     r_ssrc = 0, r_payload_offset = 0, r_payload_size = 0, r_buffer = []\<rparr>"

lemma example_rtp_ok: "rtp_parts_ok example_rtp"
  by (simp add: rtp_parts_ok_def example_rtp_def) (simp add: numeral_eq_Suc)


text \<open>Parsing the encoding of an RTP packet gives back its parts: header fields, the payload range, which
  holds exactly the payload, and the padding size. Bytes behind the packet do not matter.\<close>

theorem rtp_parse_roundtrip:
  assumes "rtp_parts_ok q"
  shows "\<exists>p'. RtpPacket_Parse (enc_rtp q @ rest) (length (enc_rtp q)) p = Inr (None, p') \<and>
    r_marker p' = q_marker q \<and> r_payload_type p' = q_payload_type q \<and> r_sequence_number p' = q_sequence_number q \<and>
    r_timestamp p' = q_timestamp q \<and> r_ssrc p' = q_ssrc q \<and> unat (r_padding_size p') = length (q_padding q) \<and>
    take (r_payload_size p') (drop (r_payload_offset p') (r_buffer p')) = q_payload q"
proof -
  have "unat (word_of_nat (length (q_padding q)) :: byte) = length (q_padding q)"
    using assms by (auto simp: rtp_parts_ok_def unat_of_nat split: if_splits)
  moreover have "RtpPacket_Parse (enc_rtp q @ rest) (length (enc_rtp q)) p = Inr (None, (rtp_of_parts q p)\<lparr>r_buffer := enc_rtp q\<rparr>)"
    using assms by (intro RtpPacket_Parse_eq) simp_all
  ultimately show ?thesis using rtp_payload_slice [of q] by (simp add: rtp_of_parts_def)
qed

theorem rtp_parse_roundtrip_witness:
  "\<exists>p'. RtpPacket_Parse (enc_rtp example_rtp) (length (enc_rtp example_rtp)) empty_rtp = Inr (None, p') \<and>
     r_sequence_number p' = 0x1234 \<and> take (r_payload_size p') (drop (r_payload_offset p') (r_buffer p')) = [0x65, 1, 2, 3]"
  using rtp_parse_roundtrip [OF example_rtp_ok, of "[]" empty_rtp] by (auto simp: example_rtp_def)

end
