(* ===== verification/H264.thy ===== *)
theory H264
  imports RtpPacket
begin

text \<open>
  \<open>webrtc::VideoRtpDepacketizerH264\<close> (rtp/video_rtp_depacketizer_h264.cc) and the frame header types it
  fills in. Reads go through the pointer \<open>payload()\<close> of the packet, so they are bounds-checked against the
  packet's buffer; differences of \<open>size_t\<close> values wrap around. The theory shows memory safety on every packet the
  parser can produce, the exact set of accepted payloads, and the meaning of the offsets and headers computed.
\<close>

section \<open>Data\<close>

datatype VideoFrameType = kEmptyFrame | kVideoFrameKey | kVideoFrameDelta

record RtpVideoHeader =
  is_first_packet_in_frame :: bool
  is_last_packet_in_frame :: bool
  frame_type :: VideoFrameType

text \<open>The member \<open>packet\<close> has no initializer; \<open>None\<close> is the indeterminate pointer.\<close>

record ParsedRtpPayload =
  parsed_packet_ptr :: "rtp_packet option"
  video_header :: RtpVideoHeader
  parsed_playload_offset :: nat
  playload_size :: nat
  has_playload_header :: bool
  playload_header :: bytes

definition new_ParsedRtpPayload :: ParsedRtpPayload where
  "new_ParsedRtpPayload =
     \<lparr>parsed_packet_ptr = None,
      video_header = \<lparr>is_first_packet_in_frame = False, is_last_packet_in_frame = False, frame_type = kEmptyFrame\<rparr>,
      parsed_playload_offset = 0, playload_size = 0, has_playload_header = False, playload_header = []\<rparr>"

definition kSlice :: byte where "kSlice = 1"
definition kIdr :: byte where "kIdr = 5"
definition kSei :: byte where "kSei = 6"
definition kSps :: byte where "kSps = 7"
definition kPps :: byte where "kPps = 8"
definition kAud :: byte where "kAud = 9"
definition kEndOfSequence :: byte where "kEndOfSequence = 10"
definition kEndOfStream :: byte where "kEndOfStream = 11"
definition kFiller :: byte where "kFiller = 12"
definition kPrefix :: byte where "kPrefix = 14"
definition kStapA :: byte where "kStapA = 24"
definition kFuA :: byte where "kFuA = 28"

definition kNaluTypeSize :: nat where "kNaluTypeSize = 1"
definition kNalHeaderSize :: nat where "kNalHeaderSize = 1"
definition kFuAHeaderSize :: nat where "kFuAHeaderSize = 2"
definition kLengthFieldSize :: nat where "kLengthFieldSize = 2"
definition kStapAHeaderSize :: nat where "kStapAHeaderSize = kNalHeaderSize + kLengthFieldSize"

definition kFBit :: byte where "kFBit = 0x80"
definition kNriMask :: byte where "kNriMask = 0x60"
definition kTypeMask :: byte where "kTypeMask = 0x1F"
definition kSBit :: byte where "kSBit = 0x80"

lemmas nalu_types = kSlice_def kIdr_def kSei_def kSps_def kPps_def kAud_def kEndOfSequence_def kEndOfStream_def
  kFiller_def kPrefix_def kStapA_def kFuA_def

lemmas nalu_sizes = kNaluTypeSize_def kNalHeaderSize_def kFuAHeaderSize_def kLengthFieldSize_def kStapAHeaderSize_def

text \<open>Subtraction of \<open>size_t\<close> values.\<close>

definition size_sub :: "nat \<Rightarrow> nat \<Rightarrow> nat" where
  "size_sub a b = (if b \<le> a then a - b else a + 2 ^ 64 - b)"

section \<open>Depacketizing\<close>

text \<open>The loop over the aggregation units; \<open>nalu_ptr\<close> is an index into \<open>data\<close>. The offsets found so far are
  returned in both cases, as the vector holds them.\<close>

function ParseStapAStartOffsets ::
  "bytes \<Rightarrow> nat \<Rightarrow> nat \<Rightarrow> nat \<Rightarrow> nat list \<Rightarrow> (bool \<times> nat list) res" where
  "ParseStapAStartOffsets data nalu_ptr length_remaining offset offsets =
     (if \<not> length_remaining > 0 then Ok (True, offsets)
      else if length_remaining < 2 then Ok (False, offsets)
      else
        rbind (ReadBigEndian2 data nalu_ptr) (\<lambda>nalu_size.
        if unat nalu_size > length_remaining - 2 then Ok (False, offsets)
        else ParseStapAStartOffsets data (nalu_ptr + 2 + unat nalu_size) (length_remaining - 2 - unat nalu_size)
          (offset + (kLengthFieldSize + unat nalu_size)) (offsets @ [offset + kStapAHeaderSize])))"
  by pat_completeness auto
termination
  by (relation "measure (\<lambda>(data, nalu_ptr, length_remaining, offset, offsets). length_remaining)") auto

declare ParseStapAStartOffsets.simps [simp del]

text \<open>The loop over the units; \<open>False\<close> stands for the early return of \<open>nullopt\<close>.\<close>

fun scan_nalus :: "rtp_packet \<Rightarrow> nat list \<Rightarrow> bool res" where
  "scan_nalus p (start_offset # next # rest) =
     (let end_offset = size_sub next kLengthFieldSize in
      if size_sub end_offset start_offset < kNaluTypeSize then Ok False
      else
        rbind (rd_payload p start_offset) (\<lambda>b.
        let type = b AND kTypeMask in
        if type = kStapA \<or> type = kFuA then Ok False else scan_nalus p (next # rest)))"
| "scan_nalus p _ = Ok True"

definition ProcessStapAOrSingleNalu :: "rtp_packet \<Rightarrow> ParsedRtpPayload option res" where
  "ProcessStapAOrSingleNalu p =
     (let nalu_start = r_payload_offset p + kNalHeaderSize;
          nalu_length = size_sub (r_payload_size p) kNalHeaderSize
      in
      rbind (rd_payload p 0) (\<lambda>b0.
      rbind
        (if b0 AND kTypeMask = kStapA then
           (if r_payload_size p \<le> kStapAHeaderSize then Ok None
            else
              rbind (ParseStapAStartOffsets (r_buffer p) nalu_start nalu_length 0 []) (\<lambda>(ok, offsets).
              if \<not> ok then Ok None else rbind (rd_payload p kStapAHeaderSize) (\<lambda>_. Ok (Some offsets))))
         else Ok (Some [0]))
        (\<lambda>r. case r of
           None \<Rightarrow> Ok None
         | Some offsets \<Rightarrow>
             let parsed_payload = new_ParsedRtpPayload
                   \<lparr>video_header := (video_header new_ParsedRtpPayload)\<lparr>frame_type := kVideoFrameDelta\<rparr>\<rparr>
             in
             rbind (scan_nalus p (offsets @ [r_payload_size p + kLengthFieldSize])) (\<lambda>ok.
             if ok then Ok (Some parsed_payload) else Ok None))))"

definition ParseFuaNalu :: "rtp_packet \<Rightarrow> ParsedRtpPayload option res" where
  "ParseFuaNalu p =
     (if r_payload_size p < kFuAHeaderSize then Ok None
      else
        rbind (rd_payload p 0) (\<lambda>b0.
        rbind (rd_payload p 1) (\<lambda>b1.
        let fnri = b0 AND (kFBit OR kNriMask);
            original_nal_type = b1 AND kTypeMask;
            first_fragment = (b1 AND kSBit > 0);
            parsed_payload = new_ParsedRtpPayload\<lparr>parsed_packet_ptr := Some p,
              has_playload_header := first_fragment,
              playload_header := (if first_fragment then [fnri OR original_nal_type] else []),
              parsed_playload_offset := kFuAHeaderSize,
              playload_size := r_payload_size p - kFuAHeaderSize,
              video_header := \<lparr>is_first_packet_in_frame = first_fragment, is_last_packet_in_frame = False,
                frame_type = (if original_nal_type = kIdr then kVideoFrameKey else kVideoFrameDelta)\<rparr>\<rparr>
        in Ok (Some parsed_payload))))"

definition H264_Parse :: "rtp_packet \<Rightarrow> ParsedRtpPayload option res" where
  "H264_Parse p =
     (if r_payload_size p = 0 then Ok None
      else
        rbind (rd_payload p 0) (\<lambda>b0.
        if b0 AND kTypeMask = kFuA then ParseFuaNalu p else ProcessStapAOrSingleNalu p))"

text \<open>The channel of the publishing example: parse, then depacketize, ignoring both results.\<close>

definition OnRTP :: "bytes \<Rightarrow> nat \<Rightarrow> rtp_packet \<Rightarrow> unit res" where
  "OnRTP data len rtp_packet =
     rbind (RtpPacket_Parse data len rtp_packet) (\<lambda>(_, rtp_packet). rbind (H264_Parse rtp_packet) (\<lambda>_. Ok ()))"

section \<open>Aggregation units\<close>

text \<open>The reference: units with 16-bit sizes in front, and the offset of each in the payload.\<close>

definition enc_unit :: "bytes \<Rightarrow> bytes" where
  "enc_unit u = be_bytes 2 (word_of_nat (length u) :: uint16) @ u"

definition enc_units :: "bytes list \<Rightarrow> bytes" where
  "enc_units us = concat (map enc_unit us)"

definition units_ok :: "bytes list \<Rightarrow> bool" where
  "units_ok us \<longleftrightarrow> (\<forall>u \<in> set us. length u < 65536)"

fun unit_offsets :: "nat \<Rightarrow> bytes list \<Rightarrow> nat list" where
  "unit_offsets offset [] = []"
| "unit_offsets offset (u # us) = (offset + 3) # unit_offsets (offset + 2 + length u) us"

lemma length_enc_unit [simp]: "length (enc_unit u) = 2 + length u"
  by (simp add: enc_unit_def)

lemma enc_units_simps [simp]: "enc_units [] = []" "enc_units (u # us) = enc_unit u @ enc_units us"
  by (simp_all add: enc_units_def)

lemma ParseStapA_enc:
  "units_ok us \<Longrightarrow> ParseStapAStartOffsets (pre @ enc_units us @ post) (length pre) (length (enc_units us)) offset offsets
     = Inr (True, offsets @ unit_offsets offset us)"
proof (induction us arbitrary: pre offset offsets)
  case Nil
  then show ?case by (simp add: ParseStapAStartOffsets.simps)
next
  case (Cons u us)
  let ?n = "word_of_nat (length u) :: uint16"
  have n: "unat ?n = length u" using Cons.prems by (simp add: units_ok_def unat_of_nat_u16_small)
  have r: "ReadBigEndian2 (pre @ enc_units (u # us) @ post) (length pre) = Inr ?n"
    using be2.get_append [where v = ?n and i = "length pre" and pre = pre and post = "u @ enc_units us @ post"]
    by (simp add: enc_unit_def)
  have "pre @ enc_units (u # us) @ post = (pre @ enc_unit u) @ enc_units us @ post" by simp
  moreover have "length pre + 2 + length u = length (pre @ enc_unit u)" by simp
  moreover have "units_ok us" using Cons.prems by (simp add: units_ok_def)
  ultimately show ?case
    using Cons.IH [of "pre @ enc_unit u" "offset + (2 + length u)" "offsets @ [offset + 3]"] r n
    by (subst ParseStapAStartOffsets.simps) (simp add: nalu_sizes add.assoc numeral_3_eq_3)
qed

lemma ParseStapA_sound:
  "nalu_ptr + len \<le> length data \<Longrightarrow>
   \<exists>ok offsets'. ParseStapAStartOffsets data nalu_ptr len offset offsets = Inr (ok, offsets') \<and>
     (ok \<longrightarrow> (\<exists>us. units_ok us \<and> take len (drop nalu_ptr data) = enc_units us))"
proof (induction data nalu_ptr len offset offsets rule: ParseStapAStartOffsets.induct)
  case (1 data nalu_ptr len offset offsets)
  show ?case
  proof (cases "len < 2")
    case True
    then have "ParseStapAStartOffsets data nalu_ptr len offset offsets = Inr (len = 0, offsets)"
      by (subst ParseStapAStartOffsets.simps) auto
    moreover have "units_ok []" "take 0 (drop nalu_ptr data) = enc_units []" by (simp_all add: units_ok_def)
    ultimately show ?thesis by metis
  next
    case False
    define n :: uint16 where "n = of_be (take 2 (drop nalu_ptr data))"
    have r: "ReadBigEndian2 data nalu_ptr = Inr n" "be_bytes 2 n = take 2 (drop nalu_ptr data)"
      using False "1.prems" be2.get_in_bounds [of nalu_ptr data] by (simp_all add: n_def be2.enc_dec)
    show ?thesis
    proof (cases "unat n > len - 2")
      case True
      then show ?thesis using False r by (subst ParseStapAStartOffsets.simps) auto
    next
      case fits: False
      let ?ptr = "nalu_ptr + 2 + unat n" and ?len = "len - 2 - unat n"
      have b: "?ptr + ?len \<le> length data" "\<not> \<not> 0 < len" using False fits "1.prems" by linarith+
      obtain ok offsets' where ih: "ParseStapAStartOffsets data ?ptr ?len (offset + (kLengthFieldSize + unat n))
          (offsets @ [offset + kStapAHeaderSize]) = Inr (ok, offsets')"
        "ok \<longrightarrow> (\<exists>us. units_ok us \<and> take ?len (drop ?ptr data) = enc_units us)"
        using "1.IH" [OF b(2) False r(1) fits b(1)] by blast
      have e: "2 + (unat n + ?len) = len" using False fits by linarith
      have "take len (drop nalu_ptr data) = enc_units (take (unat n) (drop (nalu_ptr + 2) data) # us)"
        if "take ?len (drop ?ptr data) = enc_units us" for us
        using take_three [of 2 "unat n" ?len nalu_ptr data] False fits "1.prems" that r(2) unfolding e by (simp add: enc_unit_def)
      moreover have "units_ok (take (unat n) (drop (nalu_ptr + 2) data) # us)" if "units_ok us" for us
        using that unat_u16_less [of n] by (simp add: units_ok_def)
      moreover have "ParseStapAStartOffsets data nalu_ptr len offset offsets = Inr (ok, offsets')"
        using False fits r(1) ih(1) by (subst ParseStapAStartOffsets.simps) simp
      ultimately show ?thesis using ih(2) by blast
    qed
  qed
qed

lemma ParseStapA_false:
  assumes "nalu_ptr + len \<le> length data" "\<not> (\<exists>us. units_ok us \<and> take len (drop nalu_ptr data) = enc_units us)"
  shows "\<exists>offsets'. ParseStapAStartOffsets data nalu_ptr len offset offsets = Inr (False, offsets')"
  using ParseStapA_sound [OF assms(1), of offset offsets] assms(2) by (metis (full_types))

lemma ParseStapA_true:
  assumes "nalu_ptr + len \<le> length data" "units_ok us" "take len (drop nalu_ptr data) = enc_units us"
  shows "ParseStapAStartOffsets data nalu_ptr len offset offsets = Inr (True, offsets @ unit_offsets offset us)"
proof -
  have "data = take nalu_ptr data @ enc_units us @ drop (nalu_ptr + len) data"
    using assms(3) by (metis add.commute append_take_drop_id drop_drop)
  moreover have "length (take nalu_ptr data) = nalu_ptr" using assms(1) by simp
  moreover have "length (enc_units us) = len" using assms(1,3) by (metis add_leD2 diff_add_inverse le_diff_conv2 length_drop
      length_take min_absorb2 add_leD1 add.commute)
  ultimately show ?thesis using ParseStapA_enc [OF assms(2), of "take nalu_ptr data" "drop (nalu_ptr + len) data"] by metis
qed

section \<open>Scanning the units\<close>

definition unit_ok :: "bytes \<Rightarrow> bool" where
  "unit_ok u \<longleftrightarrow> u \<noteq> [] \<and> hd u AND kTypeMask \<noteq> kStapA \<and> hd u AND kTypeMask \<noteq> kFuA"

lemma rd_append: "rd (pre @ b # post) (length pre) = Inr b"
  by (simp add: rd_def)

lemma scan_units:
  "r_buffer p = pre @ enc_units us @ post \<Longrightarrow> length pre = r_payload_offset p + 1 + offset \<Longrightarrow>
   scan_nalus p (unit_offsets offset us @ [offset + length (enc_units us) + 3]) = Inr (list_all unit_ok us)"
proof (induction us arbitrary: pre offset)
  case (Cons u us)
  let ?o = "offset + 2 + length u"
  have tail: "unit_offsets ?o us @ [?o + length (enc_units us) + 3] = (?o + 3) # tl (unit_offsets ?o us @ [?o + length (enc_units us) + 3])"
    by (cases us) simp_all
  have rest: "offset + length (enc_units (u # us)) + 3 = ?o + length (enc_units us) + 3" by simp
  have ih: "scan_nalus p (unit_offsets ?o us @ [?o + length (enc_units us) + 3]) = Inr (list_all unit_ok us)"
    using Cons.IH [of "pre @ enc_unit u" ?o] Cons.prems by simp
  have sub: "size_sub (size_sub (?o + 3) kLengthFieldSize) (offset + 3) = length u" by (simp add: size_sub_def nalu_sizes)
  have rd: "rd_payload p (offset + 3) = Inr (hd u)" if "u \<noteq> []"
  proof -
    let ?pre = "pre @ be_bytes 2 (word_of_nat (length u) :: uint16)"
    have "r_payload_offset p + (offset + 3) = length ?pre" using Cons.prems(2) by simp
    moreover have "r_buffer p = ?pre @ hd u # (tl u @ enc_units us @ post)" using Cons.prems(1) that by (simp add: enc_unit_def)
    ultimately show ?thesis unfolding rd_payload_def by (simp only: rd_append)
  qed
  have "scan_nalus p ((offset + 3) # (?o + 3) # xs) = (if u = [] then Ok False
      else if hd u AND kTypeMask = kStapA \<or> hd u AND kTypeMask = kFuA then Ok False else scan_nalus p ((?o + 3) # xs))" for xs
    using rd sub by (cases "u = []") (simp_all add: kNaluTypeSize_def Let_def)
  then have "scan_nalus p (unit_offsets offset (u # us) @ [offset + length (enc_units (u # us)) + 3]) =
      (if u = [] then Ok False else if hd u AND kTypeMask = kStapA \<or> hd u AND kTypeMask = kFuA then Ok False
       else scan_nalus p (unit_offsets ?o us @ [?o + length (enc_units us) + 3]))"
    unfolding rest unit_offsets.simps append_Cons by (subst (1 2) tail) simp
  then show ?case unfolding ih by (auto simp: unit_ok_def [of u])
qed simp

section \<open>What is accepted\<close>

definition rtp_payload :: "rtp_packet \<Rightarrow> bytes" where
  "rtp_payload p = take (r_payload_size p) (drop (r_payload_offset p) (r_buffer p))"

text \<open>An aggregation packet: a header byte and at least one unit, every unit with a type of its own that is
  neither an aggregation nor a fragmentation type.\<close>

definition is_stap_a :: "bytes \<Rightarrow> bool" where
  "is_stap_a pl \<longleftrightarrow> (\<exists>us. us \<noteq> [] \<and> units_ok us \<and> tl pl = enc_units us \<and> list_all unit_ok us)"

definition delta_payload :: ParsedRtpPayload where
  "delta_payload = new_ParsedRtpPayload
     \<lparr>video_header := \<lparr>is_first_packet_in_frame = False, is_last_packet_in_frame = False, frame_type = kVideoFrameDelta\<rparr>\<rparr>"

lemma enc_units_inj:
  "units_ok us \<Longrightarrow> units_ok vs \<Longrightarrow> enc_units us = enc_units vs \<Longrightarrow> us = vs"
proof (induction us arbitrary: vs)
  case Nil
  then show ?case by (cases vs) (auto simp: enc_unit_def be_bytes_literals)
next
  case (Cons u us)
  then obtain v vs' where vs: "vs = v # vs'" by (cases vs) (auto simp: enc_unit_def be_bytes_literals)
  let ?n = "\<lambda>u :: bytes. word_of_nat (length u) :: uint16"
  have eq: "be_bytes 2 (?n u) @ u @ enc_units us = be_bytes 2 (?n v) @ v @ enc_units vs'"
    using Cons.prems(3) by (simp add: vs enc_unit_def)
  then have "be_bytes 2 (?n u) = be_bytes 2 (?n v)" by simp
  then have "?n u = ?n v" by (metis be2.dec_enc)
  moreover have "unat (?n u) = length u" "unat (?n v) = length v"
    using Cons.prems vs by (simp_all add: units_ok_def unat_of_nat_u16_small)
  ultimately have "length u = length v" by metis
  with eq Cons.prems Cons.IH [of vs'] show ?case by (simp add: vs units_ok_def)
qed

text \<open>What is known of a packet with a payload, for the three proofs about aggregation packets.\<close>

lemma payload_reads:
  assumes "0 < r_payload_size p" "r_payload_offset p + r_payload_size p \<le> length (r_buffer p)"
  shows "rd_payload p 0 = Inr (hd (rtp_payload p))" "size_sub (r_payload_size p) kNalHeaderSize = r_payload_size p - 1"
    "tl (rtp_payload p) = take (r_payload_size p - 1) (drop (r_payload_offset p + 1) (r_buffer p))"
    "r_payload_offset p + 1 + (r_payload_size p - 1) \<le> length (r_buffer p)"
  using assms
  by (simp_all add: rd_payload_def rd_def rtp_payload_def hd_conv_nth size_sub_def nalu_sizes tl_take tl_drop drop_Suc)

lemma delta_payload_eq:
  "new_ParsedRtpPayload\<lparr>video_header := (video_header new_ParsedRtpPayload)\<lparr>frame_type := kVideoFrameDelta\<rparr>\<rparr> = delta_payload"
  by (simp add: delta_payload_def new_ParsedRtpPayload_def)

lemma single_nalu_eq:
  assumes p: "0 < r_payload_size p" "r_payload_offset p + r_payload_size p \<le> length (r_buffer p)"
    and t: "hd (rtp_payload p) AND kTypeMask \<noteq> kFuA" "hd (rtp_payload p) AND kTypeMask \<noteq> kStapA"
  shows "ProcessStapAOrSingleNalu p = Inr (Some delta_payload)"
proof -
  note hd = payload_reads(1) [OF p]
  have "scan_nalus p ([0] @ [r_payload_size p + kLengthFieldSize]) = Inr True"
    using t hd p(1) by (simp add: size_sub_def nalu_sizes Let_def)
  with t(2) show ?thesis
    unfolding ProcessStapAOrSingleNalu_def Let_def hd rbind_simps delta_payload_eq by (simp del: rbind_eq_Inr)
qed

lemma stap_units_eq:
  assumes p: "0 < r_payload_size p" "r_payload_offset p + r_payload_size p \<le> length (r_buffer p)"
    and t: "hd (rtp_payload p) AND kTypeMask = kStapA" and us: "units_ok us" "tl (rtp_payload p) = enc_units us"
  shows "ProcessStapAOrSingleNalu p = Inr (if us \<noteq> [] \<and> list_all unit_ok us then Some delta_payload else None)"
proof -
  let ?off = "r_payload_offset p" and ?sz = "r_payload_size p"
  note pl = payload_reads [OF p]
  note u = us(2) [unfolded pl(3)]
  have l: "length (enc_units us) = ?sz - 1" using arg_cong [OF u, of length] pl(4) by simp
  show ?thesis
  proof (cases "?sz \<le> 3")
    case small: True
    have "3 \<le> length (enc_units us)" if "us \<noteq> []" "list_all unit_ok us" using that by (cases us; cases "hd us") (auto simp: unit_ok_def)
    then have "\<not> (us \<noteq> [] \<and> list_all unit_ok us)" using small l p(1) by fastforce
    then show ?thesis using t small
      unfolding ProcessStapAOrSingleNalu_def Let_def pl(1,2) rbind_simps by (simp add: nalu_sizes del: rbind_eq_Inr)
  next
    case big: False
    then have ne: "us \<noteq> []" using l by auto
    have parse: "ParseStapAStartOffsets (r_buffer p) (?off + 1) (?sz - 1) 0 [] = Inr (True, unit_offsets 0 us)"
      using ParseStapA_true [OF pl(4) us(1) u] by simp
    have r3: "rd_payload p 3 = Inr (r_buffer p ! (?off + 3))" using big p(2) by (simp add: rd_payload_def rd_def)
    have "r_buffer p = take (?off + 1) (r_buffer p) @ enc_units us @ drop (?off + 1 + (?sz - 1)) (r_buffer p)"
      using u by (metis add.commute append_take_drop_id drop_drop)
    then have "scan_nalus p (unit_offsets 0 us @ [0 + length (enc_units us) + 3]) = Inr (list_all unit_ok us)"
      by (rule scan_units) (use pl(4) in simp)
    then have scan: "scan_nalus p (unit_offsets 0 us @ [?sz + 2]) = Inr (list_all unit_ok us)" using l p(1) by simp
    show ?thesis using t big ne scan r3 parse
      unfolding ProcessStapAOrSingleNalu_def Let_def pl(1,2) rbind_simps delta_payload_eq by (simp add: nalu_sizes del: rbind_eq_Inr One_nat_def)
  qed
qed

lemma ProcessStapAOrSingleNalu_eq:
  assumes p: "0 < r_payload_size p" "r_payload_offset p + r_payload_size p \<le> length (r_buffer p)"
    and t: "hd (rtp_payload p) AND kTypeMask \<noteq> kFuA"
  shows "ProcessStapAOrSingleNalu p = Inr
    (if hd (rtp_payload p) AND kTypeMask = kStapA \<and> \<not> is_stap_a (rtp_payload p) then None else Some delta_payload)"
proof (cases "hd (rtp_payload p) AND kTypeMask = kStapA")
  case False
  then show ?thesis using single_nalu_eq [OF p t] by simp
next
  case True
  note pl = payload_reads [OF p]
  show ?thesis
  proof (cases "\<exists>us. units_ok us \<and> tl (rtp_payload p) = enc_units us")
    case False
    then have "\<not> is_stap_a (rtp_payload p)" by (auto simp: is_stap_a_def)
    moreover obtain offsets where
      "ParseStapAStartOffsets (r_buffer p) (r_payload_offset p + 1) (r_payload_size p - 1) 0 [] = Inr (False, offsets)"
      using ParseStapA_false [OF pl(4) False [unfolded pl(3)]] by blast
    ultimately show ?thesis using True
      unfolding ProcessStapAOrSingleNalu_def Let_def pl(1,2) rbind_simps by (simp add: nalu_sizes del: rbind_eq_Inr One_nat_def)
  next
    case units: True
    then obtain us where us: "units_ok us" "tl (rtp_payload p) = enc_units us" by blast
    then have "is_stap_a (rtp_payload p) \<longleftrightarrow> us \<noteq> [] \<and> list_all unit_ok us"
      unfolding is_stap_a_def using enc_units_inj by metis
    then show ?thesis using stap_units_eq [OF p True us] True by simp
  qed
qed

section \<open>Fragments\<close>

text \<open>The result for a fragment: the header of the fragmented unit on the first fragment, the rest behind the two
  header bytes.\<close>

definition fua_payload :: "rtp_packet \<Rightarrow> ParsedRtpPayload" where
  "fua_payload p =
     (let pl = rtp_payload p; first = bit (pl ! 1) 7 in
      \<lparr>parsed_packet_ptr = Some p,
       video_header = \<lparr>is_first_packet_in_frame = first, is_last_packet_in_frame = False,
         frame_type = (if pl ! 1 AND 0x1F = 5 then kVideoFrameKey else kVideoFrameDelta)\<rparr>,
       parsed_playload_offset = 2, playload_size = length pl - 2, has_playload_header = first,
       playload_header = (if first then [(pl ! 0 AND 0xE0) OR (pl ! 1 AND 0x1F)] else [])\<rparr>)"

lemma rd_payload_eq:
  "i < r_payload_size p \<Longrightarrow> r_payload_offset p + r_payload_size p \<le> length (r_buffer p) \<Longrightarrow>
   rd_payload p i = Inr (rtp_payload p ! i)"
  by (simp add: rd_payload_def rd_def rtp_payload_def)

lemma length_rtp_payload:
  "r_payload_offset p + r_payload_size p \<le> length (r_buffer p) \<Longrightarrow> length (rtp_payload p) = r_payload_size p"
  by (simp add: rtp_payload_def)

lemma ParseFuaNalu_eq:
  assumes "r_payload_offset p + r_payload_size p \<le> length (r_buffer p)"
  shows "ParseFuaNalu p = Inr (if r_payload_size p < 2 then None else Some (fua_payload p))"
proof (cases "r_payload_size p < 2")
  case False
  then have r: "rd_payload p 0 = Inr (rtp_payload p ! 0)" "rd_payload p 1 = Inr (rtp_payload p ! 1)"
    using rd_payload_eq [OF _ assms] by simp_all
  have m: "b AND kSBit > 0 \<longleftrightarrow> bit b 7" for b :: byte
    using byte_mask_bit(1) [of b] by (simp add: kSBit_def word_neq_0_conv)
  have n: "kFBit OR kNriMask = 0xE0" by (simp add: kFBit_def kNriMask_def)
  show ?thesis using False length_rtp_payload [OF assms]
    by (simp add: ParseFuaNalu_def r m n fua_payload_def new_ParsedRtpPayload_def nalu_sizes kTypeMask_def kIdr_def Let_def
        del: rbind_eq_Inr One_nat_def)
qed (simp add: ParseFuaNalu_def nalu_sizes)

section \<open>Properties\<close>

definition h264_spec :: "rtp_packet \<Rightarrow> ParsedRtpPayload option" where
  "h264_spec p =
     (let pl = rtp_payload p; type = hd pl AND 0x1F in
      if pl = [] then None
      else if type = 28 then (if length pl < 2 then None else Some (fua_payload p))
      else if type = 24 \<and> \<not> is_stap_a pl then None
      else Some delta_payload)"

lemma H264_Parse_eq:
  assumes "payload_in_buffer p"
  shows "H264_Parse p = Inr (h264_spec p)"
proof (cases "r_payload_size p = 0")
  case True
  then show ?thesis by (simp add: H264_Parse_def h264_spec_def rtp_payload_def)
next
  case False
  with assms have b: "r_payload_offset p + r_payload_size p \<le> length (r_buffer p)" by (simp add: payload_in_buffer_def)
  then have l: "length (rtp_payload p) = r_payload_size p" "rtp_payload p \<noteq> []"
    using length_rtp_payload [OF b] False by auto
  then have r: "rd_payload p 0 = Inr (hd (rtp_payload p))" using rd_payload_eq [OF _ b] False by (simp add: hd_conv_nth)
  show ?thesis
  proof (cases "hd (rtp_payload p) AND kTypeMask = kFuA")
    case True
    then show ?thesis using False l ParseFuaNalu_eq [OF b] by (simp add: H264_Parse_def r h264_spec_def nalu_types kTypeMask_def)
  next
    case other: False
    then show ?thesis using False l ProcessStapAOrSingleNalu_eq [OF _ b other]
      by (simp add: H264_Parse_def r h264_spec_def nalu_types kTypeMask_def Let_def)
  qed
qed

text \<open>C26: Depacketizing any packet whose payload lies in its buffer never reads outside the buffer and gives exactly
  the specified result: nothing for an empty payload, a fragment of one byte, or an aggregation packet that is not a
  sequence of non-empty, sized units free of nested aggregation and fragmentation; the fragment's header, offset,
  size and frame type for FU-A; and a bare delta frame for every other payload, key frames included.\<close>

theorem h264_parse_spec:
  assumes "payload_in_buffer p"
  shows "H264_Parse p = Inr (h264_spec p)"
  by (rule H264_Parse_eq [OF assms])

definition example_fragment :: rtp_packet where
  "example_fragment = empty_rtp\<lparr>r_payload_offset := 1, r_payload_size := 4, r_buffer := [0, 0x7C, 0x85, 1, 2]\<rparr>"

theorem h264_parse_spec_witness:
  "H264_Parse example_fragment = Inr (Some \<lparr>parsed_packet_ptr = Some example_fragment,
     video_header = \<lparr>is_first_packet_in_frame = True, is_last_packet_in_frame = False, frame_type = kVideoFrameKey\<rparr>,
     parsed_playload_offset = 2, playload_size = 2, has_playload_header = True, playload_header = [0x65]\<rparr>)"
  using h264_parse_spec [of example_fragment]
  by (simp add: h264_spec_def fua_payload_def rtp_payload_def example_fragment_def payload_in_buffer_def Let_def)

text \<open>The publishing channel processes every datagram, of any content and length, without a fault: parsing and
  depacketizing read only the datagram.\<close>

theorem on_rtp_safe:
  assumes "len \<le> length data"
  shows "OnRTP data len p = Inr ()"
proof -
  obtain r p' where "RtpPacket_Parse data len p = Inr (r, p')" "payload_in_buffer p'"
  proof (cases rule: RtpPacket_Parse_cases [OF assms, of p, case_names accepted rejected])
    case (accepted q)
    then show thesis using that by (simp add: payload_in_buffer_def rtp_of_parts_def length_enc_rtp)
  next
    case (rejected p')
    then show thesis using that [of "Some False" "Clear p'"] by (simp add: payload_in_buffer_def Clear_def)
  qed
  then show ?thesis by (simp add: OnRTP_def H264_Parse_eq del: rbind_eq_Inr)
qed

theorem on_rtp_safe_witness: "OnRTP (enc_rtp example_rtp) (length (enc_rtp example_rtp)) empty_rtp = Inr ()"
  using on_rtp_safe [of "length (enc_rtp example_rtp)" "enc_rtp example_rtp" empty_rtp] by simp

section \<open>Reassembly\<close>

text \<open>RFC 6184: the fragments of a NAL unit. \<open>first\<close> marks the first one.\<close>

definition fu_header :: "byte \<Rightarrow> bool \<Rightarrow> bool \<Rightarrow> byte" where
  "fu_header h first final = (if first then 0x80 else 0) OR (if final then 0x40 else 0) OR (h AND 0x1F)"

fun fragments :: "byte \<Rightarrow> bool \<Rightarrow> bytes list \<Rightarrow> bytes list" where
  "fragments h first [] = []"
| "fragments h first (f # fs) =
     ([(h AND 0xE0) OR 28, fu_header h first (fs = [])] @ f) # fragments h False fs"

text \<open>The bytes a consumer takes from a result: the header, then the payload from the offset.\<close>

definition nal_bytes :: "ParsedRtpPayload option \<Rightarrow> bytes" where
  "nal_bytes r = (case r of None \<Rightarrow> [] | Some x \<Rightarrow>
     playload_header x @ (case parsed_packet_ptr x of None \<Rightarrow> []
       | Some p \<Rightarrow> take (playload_size x) (drop (parsed_playload_offset x) (rtp_payload p))))"

lemma fu_header_bits:
  "bit (fu_header h first final) 7 = first" "fu_header h first final AND 0x1F = h AND 0x1F"
proof -
  show "bit (fu_header h first final) 7 = first" by (auto simp: fu_header_def bit_simps)
  show "fu_header h first final AND 0x1F = h AND 0x1F" by (intro byte_eqI) (auto simp: fu_header_def bit_simps)
qed

lemma fu_indicator: "((h AND 0xE0) OR 28) AND 0x1F = (28 :: byte)" "((h AND 0xE0) OR 28) AND 0xE0 = (h AND 0xE0 :: byte)"
  "(h AND 0xE0) OR (h AND 0x1F) = (h :: byte)"
  by (intro byte_eqI; auto simp: bit_simps)+

lemma fragment_spec:
  assumes "rtp_payload p = [(h AND 0xE0) OR 28, fu_header h first final] @ f"
  shows "\<exists>x. h264_spec p = Some x \<and> nal_bytes (Some x) = (if first then h # f else f) \<and>
    is_first_packet_in_frame (video_header x) = first \<and>
    (frame_type (video_header x) = kVideoFrameKey \<longleftrightarrow> h AND 0x1F = 5)"
proof -
  have "h264_spec p = Some (fua_payload p)" using fu_indicator(1) by (simp add: h264_spec_def assms)
  moreover have "nal_bytes (Some (fua_payload p)) = (if first then h # f else f)"
    by (simp add: nal_bytes_def fua_payload_def Let_def assms fu_header_bits fu_indicator)
  ultimately show ?thesis by (simp add: fua_payload_def Let_def assms fu_header_bits)
qed

text \<open>C27: A NAL unit sent as FU-A fragments is restored: depacketizing packets that carry the fragments in order and
  joining header and payload ranges gives the header byte and the body back; the frame type is that of the unit, and
  only the first fragment is marked as first.\<close>

theorem h264_fragments_reassemble:
  assumes "map rtp_payload ps = fragments h True fs" and "list_all payload_in_buffer ps" and "fs \<noteq> []"
  shows "\<exists>rs. map H264_Parse ps = map Inr rs \<and> concat (map nal_bytes rs) = h # concat fs \<and>
    list_all (\<lambda>r. \<exists>x. r = Some x \<and> (frame_type (video_header x) = kVideoFrameKey \<longleftrightarrow> h AND 0x1F = 5)) rs \<and>
    map (\<lambda>r. is_first_packet_in_frame (video_header (the r))) rs = True # replicate (length fs - 1) False"
proof -
  have rest: "map H264_Parse ps = map Inr (map h264_spec ps) \<and> concat (map nal_bytes (map h264_spec ps)) = concat fs \<and>
      list_all (\<lambda>r. \<exists>x. r = Some x \<and> (frame_type (video_header x) = kVideoFrameKey \<longleftrightarrow> h AND 0x1F = 5)) (map h264_spec ps) \<and>
      map (\<lambda>r. is_first_packet_in_frame (video_header (the r))) (map h264_spec ps) = replicate (length fs) False"
    if "map rtp_payload ps = fragments h False fs" "list_all payload_in_buffer ps" for ps fs
    using that
  proof (induction fs arbitrary: ps)
    case (Cons f fs)
    then obtain p ps' where ps: "ps = p # ps'" by (cases ps) auto
    then have "rtp_payload p = [(h AND 0xE0) OR 28, fu_header h False (fs = [])] @ f" using Cons.prems(1) by simp
    from fragment_spec [OF this] Cons.IH [of ps'] Cons.prems ps show ?case by (auto simp: H264_Parse_eq)
  qed simp
  obtain f fs' where fs: "fs = f # fs'" using assms(3) by (cases fs) auto
  then obtain p ps' where ps: "ps = p # ps'" using assms(1) by (cases ps) auto
  then have "rtp_payload p = [(h AND 0xE0) OR 28, fu_header h True (fs' = [])] @ f" using assms(1) fs by simp
  from fragment_spec [OF this] rest [of ps' fs'] assms(1,2) show ?thesis
    by (intro exI [of _ "map h264_spec ps"]) (auto simp: ps fs H264_Parse_eq)
qed

definition fragment_packet :: "bytes \<Rightarrow> rtp_packet" where
  "fragment_packet pl = empty_rtp\<lparr>r_payload_size := length pl, r_buffer := pl\<rparr>"

theorem h264_fragments_reassemble_witness:
  "\<exists>rs. map H264_Parse (map fragment_packet (fragments 0x65 True [[1, 2], [3]])) = map Inr rs \<and>
     concat (map nal_bytes rs) = 0x65 # concat [[1, 2], [3]]"
proof -
  let ?fs = "[[1, 2], [3]] :: bytes list"
  have "rtp_payload (fragment_packet pl) = pl" "payload_in_buffer (fragment_packet pl)" for pl
    by (simp_all add: rtp_payload_def fragment_packet_def empty_rtp_def payload_in_buffer_def)
  then have "map rtp_payload (map fragment_packet (fragments 0x65 True ?fs)) = fragments 0x65 True ?fs"
    "list_all payload_in_buffer (map fragment_packet (fragments 0x65 True ?fs))" by simp_all
  from h264_fragments_reassemble [OF this] show ?thesis by blast
qed

end
