(* ===== verification/SignedIO.thy ===== *)
theory SignedIO
  imports ByteIO
begin

text \<open>
  The \<open>ByteReader\<close> and \<open>ByteWriter\<close> templates of rtp/byte_io.h for signed types. A signed
  type \<open>T\<close> of \<open>LENGTH('a)\<close> bits has the integers of its range as values; the unsigned type \<open>U\<close> that \<open>UnsignedOf\<close> gives for it
  is the word type of the same width, whose bits a read of \<open>T\<close> has before it is reinterpreted. The bytes of the type are \<open>sizeof(T)\<close>.
\<close>

section \<open>Definitions\<close>

definition sizeof :: "'a::len word itself \<Rightarrow> nat" where
  "sizeof _ = LENGTH('a) div 8"

definition ReinterpretAsSigned :: "'a::len word \<Rightarrow> int" where
  "ReinterpretAsSigned unsigned_val =
     (let kUnsignedHighestBitMask = push_bit (LENGTH('a) - 1) 1 :: 'a word;
          kSignedHighestBitMask = - (2 ^ (LENGTH('a) - 1)) :: int
      in if unsigned_val AND kUnsignedHighestBitMask \<noteq> 0
         then uint (unsigned_val AND NOT kUnsignedHighestBitMask) OR kSignedHighestBitMask
         else uint unsigned_val)"

text \<open>The mask of the used bits is a shift of the \<open>int\<close> 1, which has 32 bits.\<close>

definition SignExtend :: "nat \<Rightarrow> 'a::len word \<Rightarrow> 'a word res" where
  "SignExtend B val =
     (let kMsb = ucast (drop_bit ((B - 1) * 8) val) :: byte in
      if kMsb AND 0x80 \<noteq> 0 then
        (let n = (B mod sizeof TYPE('a word)) * 8 in
         if n \<ge> 32 then Fault UndefinedShift
         else let kUsedBitsMask = word_of_int (push_bit n 1 - 1) in Ok (NOT kUsedBitsMask OR val))
      else Ok val)"

definition read_signed :: "nat \<Rightarrow> 'a::len word \<Rightarrow> int res" where
  "read_signed B unsigned_val =
     rbind (if B < sizeof TYPE('a word) then SignExtend B unsigned_val else Ok unsigned_val) (\<lambda>unsigned_val.
     Ok (ReinterpretAsSigned unsigned_val))"

definition ReadBigEndian_signed :: "'a::len word itself \<Rightarrow> nat \<Rightarrow> bytes \<Rightarrow> nat \<Rightarrow> int res" where
  "ReadBigEndian_signed T B data p =
     rbind (InternalReadBigEndian B 0 data p 0) (\<lambda>unsigned_val :: 'a word. read_signed B unsigned_val)"

definition ReadLittleEndian_signed :: "'a::len word itself \<Rightarrow> nat \<Rightarrow> bytes \<Rightarrow> nat \<Rightarrow> int res" where
  "ReadLittleEndian_signed T B data p =
     rbind (InternalReadLittleEndian B 0 data p 0) (\<lambda>unsigned_val :: 'a word. read_signed B unsigned_val)"

definition ReinterpretAsUnsigned :: "int \<Rightarrow> 'a::len word" where
  "ReinterpretAsUnsigned val = word_of_int val"

definition WriteBigEndian_signed :: "'a::len word itself \<Rightarrow> nat \<Rightarrow> bytes \<Rightarrow> nat \<Rightarrow> int \<Rightarrow> bytes res" where
  "WriteBigEndian_signed T B data p val = WriteBigEndian B 0 data p (ReinterpretAsUnsigned val :: 'a word)"

definition WriteLittleEndian_signed :: "'a::len word itself \<Rightarrow> nat \<Rightarrow> bytes \<Rightarrow> nat \<Rightarrow> int \<Rightarrow> bytes res" where
  "WriteLittleEndian_signed T B data p val = WriteLittleEndian B 0 data p (ReinterpretAsUnsigned val :: 'a word)"

section \<open>Two's complement\<close>

lemma highest_bit: "w AND push_bit n 1 \<noteq> 0 \<longleftrightarrow> bit (w :: 'a::len word) n"
  by (simp add: bit_iff_and_push_bit_not_eq_0)

lemma bit_minus_power: "bit (- (2 ^ n) :: int) k \<longleftrightarrow> n \<le> k"
  by (simp add: bit_minus_exp_iff)

lemma ReinterpretAsSigned_eq: "ReinterpretAsSigned w = sint (w :: 'a::len word)"
proof (cases "bit w (LENGTH('a) - 1)")
  case True
  have "bit (uint (w AND NOT (push_bit (LENGTH('a) - 1) 1)) OR - (2 ^ (LENGTH('a) - 1)) :: int) k \<longleftrightarrow> bit (sint w) k" for k
    using True bit_imp_le_length [of w k]
    by (cases "k = LENGTH('a) - 1") (auto simp: bit_exp_iff bit_or_iff bit_minus_power bit_unsigned_iff bit_and_iff bit_not_iff bit_push_bit_iff bit_1_iff bit_sint_iff)
  then have "uint (w AND NOT (push_bit (LENGTH('a) - 1) 1)) OR - (2 ^ (LENGTH('a) - 1)) = sint w" by (rule bit_eqI)
  then show ?thesis using True unfolding ReinterpretAsSigned_def Let_def highest_bit by simp
next
  case False
  have "bit (uint w) k \<longleftrightarrow> bit (sint w) k" for k
    using False bit_imp_le_length [of w k] by (cases "k = LENGTH('a) - 1") (auto simp: bit_sint_iff bit_unsigned_iff)
  then have "uint w = sint w" by (rule bit_eqI)
  then show ?thesis using False unfolding ReinterpretAsSigned_def Let_def highest_bit by simp
qed

lemma msb_of_bytes: "(ucast (drop_bit ((B - 1) * 8) w) :: byte) AND 0x80 \<noteq> 0 \<longleftrightarrow> bit (w :: 'a::len word) ((B - 1) * 8 + 7)"
  using highest_bit [of "ucast (drop_bit ((B - 1) * 8) w) :: byte" 7]
  by (simp add: bit_simps)

text \<open>Sign extension of the lowest \<open>8 * B\<close> bits.\<close>

lemma SignExtend_eq:
  assumes "0 < B" "B < sizeof TYPE('a::len word)" "take_bit (8 * B) w = (w :: 'a word)"
  shows "SignExtend B w = (if bit w (8 * B - 1) \<and> 4 \<le> B then Inl UndefinedShift else Inr (signed_take_bit (8 * B - 1) w))"
proof -
  have n: "(B - 1) * 8 + 7 = 8 * B - 1" "B mod sizeof TYPE('a word) * 8 = 8 * B" using assms(1,2) by auto
  have "8 * B < LENGTH('a)" using assms(2) by (simp add: sizeof_def)
  have high: "bit w k \<Longrightarrow> k < 8 * B" for k using assms(3) by (metis bit_take_bit_iff)
  have "NOT (word_of_int (push_bit (8 * B) 1 - 1)) OR w = signed_take_bit (8 * B - 1) w" if "bit w (8 * B - 1)"
  proof (rule bit_word_eqI)
    fix k assume "k < LENGTH('a)"
    moreover have "(word_of_int (push_bit (8 * B) 1 - 1) :: 'a word) = mask (8 * B)"
      by (simp add: push_bit_eq_mult mask_eq_exp_minus_1)
    ultimately show "bit (NOT (word_of_int (push_bit (8 * B) 1 - 1)) OR w) k = bit (signed_take_bit (8 * B - 1) w) k"
      using that high [of k] assms(1)
      by (cases "k = 8 * B - 1") (auto simp: bit_or_iff bit_not_iff bit_mask_iff bit_signed_take_bit_iff min_def not_less)
  qed
  moreover have "signed_take_bit (8 * B - 1) w = w" if "\<not> bit w (8 * B - 1)"
  proof (rule bit_word_eqI)
    fix k assume "k < LENGTH('a)"
    then show "bit (signed_take_bit (8 * B - 1) w) k = bit w k"
      using that high [of k] assms(1) by (cases "k = 8 * B - 1") (auto simp: bit_signed_take_bit_iff min_def)
  qed
  ultimately show ?thesis unfolding SignExtend_def Let_def msb_of_bytes n by auto
qed

text \<open>A read of \<open>B\<close> bytes gives the signed value of their \<open>8 * B\<close> bits, unless the mask needs a shift that \<open>int\<close> does not have.\<close>

definition shift_defined :: "'a::len word itself \<Rightarrow> nat \<Rightarrow> bool" where
  "shift_defined T B \<longleftrightarrow> B = sizeof TYPE('a word) \<or> B < 4"

lemma sint_signed_take_bit: "n < LENGTH('a) \<Longrightarrow> sint (signed_take_bit n (w :: 'a::len word)) = signed_take_bit n (uint w)"
  by (rule bit_eqI) (auto simp: bit_sint_iff bit_signed_take_bit_iff bit_unsigned_iff min_def dest: bit_imp_le_length)

lemma read_signed_eq:
  assumes "0 < B" "B \<le> sizeof TYPE('a::len word)" "LENGTH('a) mod 8 = 0" "take_bit (8 * B) w = (w :: 'a word)"
  shows "read_signed B w =
    (if bit w (8 * B - 1) \<and> \<not> shift_defined TYPE('a word) B then Inl UndefinedShift else Inr (signed_take_bit (8 * B - 1) (uint w)))"
proof (cases "B < sizeof TYPE('a word)")
  case True
  then have "8 * B - 1 < LENGTH('a)" by (simp add: sizeof_def)
  with True SignExtend_eq [OF assms(1) True assms(4)] show ?thesis
    by (auto simp: read_signed_def ReinterpretAsSigned_eq shift_defined_def sint_signed_take_bit simp del: rbind_eq_Inr)
next
  case False
  then have B: "B = sizeof TYPE('a word)" "8 * B = LENGTH('a)" using assms(2,3) by (auto simp: sizeof_def)
  then have "sint w = signed_take_bit (8 * B - 1) (uint w)" by (simp add: sint_uint)
  with B show ?thesis by (simp add: read_signed_def ReinterpretAsSigned_eq shift_defined_def)
qed

lemma uint_take_bit_word: "uint (take_bit n (word_of_int v :: 'a::len word)) = take_bit (min n LENGTH('a)) v"
  by (simp add: unsigned_take_bit_eq uint_word_of_int_eq take_bit_take_bit)

text \<open>The value of a run of bytes is what was written there.\<close>

lemma read_back:
  assumes "0 < B" "8 * B \<le> LENGTH('a::len)" "- (2 ^ (8 * B - 1)) \<le> v" "v < 2 ^ (8 * B - 1)"
  shows "signed_take_bit (8 * B - 1) (uint (take_bit (8 * B) (word_of_int v :: 'a word))) = v"
proof -
  have "signed_take_bit (8 * B - 1) (take_bit (8 * B) v) = signed_take_bit (8 * B - 1) v"
  proof -
    have "\<not> 8 * B \<le> 8 * B - 1" using assms(1) by simp
    then show ?thesis by (simp only: signed_take_bit_take_bit if_False)
  qed
  also have "\<dots> = v" using assms(3,4) by (simp add: signed_take_bit_int_eq_self)
  finally show ?thesis using assms(2) by (simp add: uint_take_bit_word min_absorb1)
qed

lemma take_bit_of_bytes:
  "8 * length bs \<le> LENGTH('a::len) \<Longrightarrow> take_bit (8 * length bs) (of_be bs :: 'a word) = of_be bs"
  "8 * length bs \<le> LENGTH('a::len) \<Longrightarrow> take_bit (8 * length bs) (of_le bs :: 'a word) = of_le bs"
  by (metis of_be_be_bytes be_bytes_of_be, metis of_le_le_bytes le_bytes_of_le)

section \<open>The contract\<close>

definition signed_range :: "nat \<Rightarrow> int \<Rightarrow> bool" where
  "signed_range B v \<longleftrightarrow> - (2 ^ (8 * B - 1)) \<le> v \<and> v < 2 ^ (8 * B - 1)"

lemma signed_take_bit_range: "signed_range B (signed_take_bit (8 * B - 1) k)"
  by (simp add: signed_range_def signed_take_bit_int_less_exp signed_take_bit_int_greater_eq_minus_exp)

text \<open>The types the templates are used for: whole bytes, and at least as many as are read.\<close>

definition reads :: "'a::len word itself \<Rightarrow> nat \<Rightarrow> bool" where
  "reads T B \<longleftrightarrow> 0 < B \<and> B \<le> sizeof TYPE('a word) \<and> LENGTH('a) mod 8 = 0"

lemma reads_length: "reads TYPE('a::len word) B \<Longrightarrow> 0 < B \<and> 8 * B \<le> LENGTH('a)"
  by (auto simp: reads_def sizeof_def)

text \<open>A read is the read of the bytes followed by the conversion.\<close>

lemma Read_signed_eq:
  assumes "reads TYPE('a::len word) B"
  shows "ReadBigEndian_signed TYPE('a word) B data p = rbind (rd_range data p B) (\<lambda>bs. read_signed B (of_be bs :: 'a word))"
    "ReadLittleEndian_signed TYPE('a word) B data p = rbind (rd_range data p B) (\<lambda>bs. read_signed B (of_le bs :: 'a word))"
  using assms by (simp_all add: ReadBigEndian_signed_def ReadLittleEndian_signed_def InternalRead_eq reads_def rbind_assoc)

lemma read_signed_bytes:
  assumes "reads TYPE('a::len word) B" "length bs = B" and w: "w = of_be bs \<or> w = (of_le bs :: 'a word)"
  shows "read_signed B w =
    (if bit w (8 * B - 1) \<and> \<not> shift_defined TYPE('a word) B then Inl UndefinedShift else Inr (signed_take_bit (8 * B - 1) (uint w)))"
  using assms(1) w take_bit_of_bytes [of bs, where 'a = 'a] reads_length [OF assms(1)] assms(2)
  by (intro read_signed_eq) (auto simp: reads_def)

lemma word_of_signed_take_bit:
  assumes "0 < B" "8 * B \<le> LENGTH('a::len)"
  shows "take_bit (8 * B) (word_of_int (signed_take_bit (8 * B - 1) (uint (w :: 'a word))) :: 'a word) = take_bit (8 * B) w"
proof (rule bit_word_eqI)
  fix k assume "k < LENGTH('a)"
  then show "bit (take_bit (8 * B) (word_of_int (signed_take_bit (8 * B - 1) (uint w)) :: 'a word)) k = bit (take_bit (8 * B) w) k"
    by (cases "k = 8 * B - 1") (auto simp: bit_take_bit_iff bit_word_of_int_iff bit_signed_take_bit_iff bit_unsigned_iff min_def)
qed

lemma be_bytes_take_bit: "be_bytes n (take_bit (8 * n) v) = be_bytes n v" "le_bytes n (take_bit (8 * n) v) = le_bytes n v"
  for v :: "'a::len word"
proof -
  show le: "le_bytes n (take_bit (8 * n) v) = le_bytes n v"
  proof (rule nth_equalityI)
    fix i assume "i < length (le_bytes n (take_bit (8 * n) v))"
    then have "i < n" by simp
    then show "le_bytes n (take_bit (8 * n) v) ! i = le_bytes n v ! i"
      by (intro bit_word_eqI) (auto simp: le_bytes_def bit_simps)
  qed simp
  then show "be_bytes n (take_bit (8 * n) v) = be_bytes n v" by (simp add: be_bytes_def)
qed

lemma signed_codec:
  assumes r: "reads TYPE('a::len word) B" and d: "shift_defined TYPE('a word) B"
  shows "byte_codec B (ReadBigEndian_signed TYPE('a word) B) (WriteBigEndian_signed TYPE('a word) B)
      (\<lambda>v. be_bytes B (word_of_int v :: 'a word)) (\<lambda>bs. signed_take_bit (8 * B - 1) (uint (of_be bs :: 'a word))) (signed_range B)"
    "byte_codec B (ReadLittleEndian_signed TYPE('a word) B) (WriteLittleEndian_signed TYPE('a word) B)
      (\<lambda>v. le_bytes B (word_of_int v :: 'a word)) (\<lambda>bs. signed_take_bit (8 * B - 1) (uint (of_le bs :: 'a word))) (signed_range B)"
proof -
  note B = reads_length [OF r]
  have g: "ReadBigEndian_signed TYPE('a word) B data p = rbind (rd_range data p B) (\<lambda>bs. Ok (signed_take_bit (8 * B - 1) (uint (of_be bs :: 'a word))))"
    "ReadLittleEndian_signed TYPE('a word) B data p = rbind (rd_range data p B) (\<lambda>bs. Ok (signed_take_bit (8 * B - 1) (uint (of_le bs :: 'a word))))" for data p
    using read_signed_bytes [OF r _ disjI1 [OF refl]] read_signed_bytes [OF r _ disjI2 [OF refl]] d unfolding Read_signed_eq [OF r]
    by (auto intro!: rbind_cong simp: rd_range_eq_Inr)
  have e: "be_bytes (length bs) (word_of_int (signed_take_bit (8 * length bs - 1) (uint (of_be bs :: 'a word))) :: 'a word) = bs"
    "le_bytes (length bs) (word_of_int (signed_take_bit (8 * length bs - 1) (uint (of_le bs :: 'a word))) :: 'a word) = bs"
    if "length bs = B" for bs
    using word_of_signed_take_bit [of B "of_be bs :: 'a word"] word_of_signed_take_bit [of B "of_le bs :: 'a word"] B that
      be_bytes_of_be [of bs, where 'a = 'a] le_bytes_of_le [of bs, where 'a = 'a] by (metis be_bytes_take_bit)+
  have r: "signed_take_bit (8 * B - 1) (uint (take_bit (8 * B) (word_of_int v :: 'a word))) = v" if "signed_range B v" for v
    by (rule read_back) (use B that in \<open>simp_all add: signed_range_def\<close>)
  show "byte_codec B (ReadBigEndian_signed TYPE('a word) B) (WriteBigEndian_signed TYPE('a word) B)
      (\<lambda>v. be_bytes B (word_of_int v :: 'a word)) (\<lambda>bs. signed_take_bit (8 * B - 1) (uint (of_be bs :: 'a word))) (signed_range B)"
    using r e B by unfold_locales (auto simp: g of_be_be_bytes WriteBigEndian_signed_def Write_eq ReinterpretAsUnsigned_def)
  show "byte_codec B (ReadLittleEndian_signed TYPE('a word) B) (WriteLittleEndian_signed TYPE('a word) B)
      (\<lambda>v. le_bytes B (word_of_int v :: 'a word)) (\<lambda>bs. signed_take_bit (8 * B - 1) (uint (of_le bs :: 'a word))) (signed_range B)"
    using r e B by unfold_locales (auto simp: g of_le_le_bytes WriteLittleEndian_signed_def Write_eq ReinterpretAsUnsigned_def)
qed

text \<open>The signed types of the program's integers, and 24 bits in a type of 32.\<close>

interpretation i8: byte_codec 1 "ReadBigEndian_signed TYPE(8 word) 1" "WriteBigEndian_signed TYPE(8 word) 1"
  "\<lambda>v. be_bytes 1 (word_of_int v :: 8 word)" "\<lambda>bs. signed_take_bit (8 * 1 - 1) (uint (of_be bs :: 8 word))" "signed_range 1"
  by (rule signed_codec) (simp_all add: reads_def shift_defined_def sizeof_def)

interpretation i16: byte_codec 2 "ReadBigEndian_signed TYPE(16 word) 2" "WriteBigEndian_signed TYPE(16 word) 2"
  "\<lambda>v. be_bytes 2 (word_of_int v :: 16 word)" "\<lambda>bs. signed_take_bit (8 * 2 - 1) (uint (of_be bs :: 16 word))" "signed_range 2"
  by (rule signed_codec) (simp_all add: reads_def shift_defined_def sizeof_def)

interpretation i24: byte_codec 3 "ReadBigEndian_signed TYPE(32 word) 3" "WriteBigEndian_signed TYPE(32 word) 3"
  "\<lambda>v. be_bytes 3 (word_of_int v :: 32 word)" "\<lambda>bs. signed_take_bit (8 * 3 - 1) (uint (of_be bs :: 32 word))" "signed_range 3"
  by (rule signed_codec) (simp_all add: reads_def shift_defined_def sizeof_def)

interpretation i32: byte_codec 4 "ReadBigEndian_signed TYPE(32 word) 4" "WriteBigEndian_signed TYPE(32 word) 4"
  "\<lambda>v. be_bytes 4 (word_of_int v :: 32 word)" "\<lambda>bs. signed_take_bit (8 * 4 - 1) (uint (of_be bs :: 32 word))" "signed_range 4"
  by (rule signed_codec) (simp_all add: reads_def shift_defined_def sizeof_def)

interpretation i64: byte_codec 8 "ReadBigEndian_signed TYPE(64 word) 8" "WriteBigEndian_signed TYPE(64 word) 8"
  "\<lambda>v. be_bytes 8 (word_of_int v :: 64 word)" "\<lambda>bs. signed_take_bit (8 * 8 - 1) (uint (of_be bs :: 64 word))" "signed_range 8"
  by (rule signed_codec) (simp_all add: reads_def shift_defined_def sizeof_def)

section \<open>Reads of any type\<close>

lemma top_bit:
  assumes "0 < length bs" "8 * length bs \<le> LENGTH('a::len)"
  shows "bit (of_be bs :: 'a word) (8 * length bs - 1) \<longleftrightarrow> bit (hd bs) 7" "bit (of_le bs :: 'a word) (8 * length bs - 1) \<longleftrightarrow> bit (last bs) 7"
proof -
  have d: "(8 * length bs - 1) div 8 = length bs - 1" "(8 * length bs - 1) mod 8 = 7" "8 * length bs - 1 < LENGTH('a)"
    using assms by (cases "length bs"; simp)+
  then show "bit (of_le bs :: 'a word) (8 * length bs - 1) \<longleftrightarrow> bit (last bs) 7"
    using assms by (simp add: bit_of_le last_conv_nth)
  show "bit (of_be bs :: 'a word) (8 * length bs - 1) \<longleftrightarrow> bit (hd bs) 7"
    using d assms by (simp add: of_be_def bit_of_le rev_nth hd_conv_nth)
qed

lemma signed_read_cases:
  assumes r: "reads TYPE('a::len word) B"
    and eq: "get = rbind (rd_range data p B) (\<lambda>bs. read_signed B (dec bs :: 'a word))"
    and dec: "\<And>bs. dec bs = of_be bs \<or> dec bs = (of_le bs :: 'a word)"
  shows "if length data < p + B then get = Inl OutOfBounds
    else if \<not> shift_defined TYPE('a word) B \<and> bit (dec (take B (drop p data))) (8 * B - 1) then get = Inl UndefinedShift
    else (\<exists>v. get = Inr v \<and> signed_range B v)"
proof (cases "length data < p + B")
  case False
  then have "length (take B (drop p data)) = B" by simp
  from read_signed_bytes [OF r this dec] False signed_take_bit_range show ?thesis by (simp add: eq rd_range_def)
qed (simp add: eq rd_range_def)

section \<open>Properties\<close>

text \<open>C39: Signed reads are well typed. A read of \<open>B\<close> bytes as a signed type gives a value in the range of \<open>8 * B\<close> bits, whatever the bytes are, and faults if
  it leaves the data. The one other outcome is the undefined shift in the sign extension: for 4 to 7 bytes of a 64-bit type, exactly when the value is negative (the top bit of the most significant byte is set), where the mask is computed by shifting an \<open>int\<close> by 32 bits or more.\<close>

theorem signed_reads:
  assumes "reads TYPE('a::len word) B"
  shows "(if length data < p + B then ReadBigEndian_signed TYPE('a word) B data p = Inl OutOfBounds
     else if \<not> shift_defined TYPE('a word) B \<and> bit (data ! p) 7 then ReadBigEndian_signed TYPE('a word) B data p = Inl UndefinedShift
     else (\<exists>v. ReadBigEndian_signed TYPE('a word) B data p = Inr v \<and> signed_range B v)) \<and>
    (if length data < p + B then ReadLittleEndian_signed TYPE('a word) B data p = Inl OutOfBounds
     else if \<not> shift_defined TYPE('a word) B \<and> bit (data ! (p + B - 1)) 7 then ReadLittleEndian_signed TYPE('a word) B data p = Inl UndefinedShift
     else (\<exists>v. ReadLittleEndian_signed TYPE('a word) B data p = Inr v \<and> signed_range B v))"
proof (cases "length data < p + B")
  case False
  note B = reads_length [OF assms]
  let ?bs = "take B (drop p data)"
  have l: "length ?bs = B" "hd ?bs = data ! p" "last ?bs = data ! (p + B - 1)"
    using False B by (simp_all add: hd_drop_conv_nth last_conv_nth)
  then have t: "bit (of_be ?bs :: 'a word) (8 * B - 1) \<longleftrightarrow> bit (data ! p) 7" "bit (of_le ?bs :: 'a word) (8 * B - 1) \<longleftrightarrow> bit (data ! (p + B - 1)) 7"
    using top_bit [of ?bs, where 'a = 'a] B by simp_all
  show ?thesis
    using signed_read_cases [OF assms Read_signed_eq(1) [OF assms], of data p] signed_read_cases [OF assms Read_signed_eq(2) [OF assms], of data p]
    unfolding t by simp
qed (use assms in \<open>simp add: Read_signed_eq rd_range_def\<close>)

theorem signed_reads_witness:
  "ReadBigEndian_signed TYPE(64 word) 5 [0x80, 0, 0, 0, 1] 0 = Inl UndefinedShift \<and>
   (\<exists>v. ReadBigEndian_signed TYPE(32 word) 3 [0x81, 0x0A, 0x0B] 0 = Inr v \<and> signed_range 3 v)"
  using signed_reads [where 'a = 64, of 5 "[0x80, 0, 0, 0, 1]" 0] signed_reads [where 'a = 32, of 3 "[0x81, 0x0A, 0x0B]" 0]
  by (simp add: reads_def sizeof_def shift_defined_def)

text \<open>Signed values that are written are read back, in either byte order, at every width for which the sign extension is defined. The write changes
  no byte outside its own.\<close>

theorem signed_roundtrip:
  assumes "reads TYPE('a::len word) B" and "shift_defined TYPE('a word) B" and "signed_range B v" and "p + B \<le> length data"
  shows "(\<exists>d. WriteBigEndian_signed TYPE('a word) B data p v = Inr d \<and> ReadBigEndian_signed TYPE('a word) B d p = Inr v \<and>
      length d = length data \<and> take p d = take p data \<and> drop (p + B) d = drop (p + B) data) \<and>
    (\<exists>d. WriteLittleEndian_signed TYPE('a word) B data p v = Inr d \<and> ReadLittleEndian_signed TYPE('a word) B d p = Inr v \<and>
      length d = length data \<and> take p d = take p data \<and> drop (p + B) d = drop (p + B) data)"
  using byte_codec.set_in_bounds [OF signed_codec(1) [OF assms(1,2)] assms(4), of v] byte_codec.set_in_bounds [OF signed_codec(2) [OF assms(1,2)] assms(4), of v]
    byte_codec.get_after_set [OF signed_codec(1) [OF assms(1,2)] assms(3), of data p] byte_codec.get_after_set [OF signed_codec(2) [OF assms(1,2)] assms(3), of data p]
    assms(4)
  by simp

theorem signed_roundtrip_witness:
  "\<exists>d. WriteBigEndian_signed TYPE(32 word) 3 [0, 0, 0, 0] 1 (-5) = Inr d \<and> ReadBigEndian_signed TYPE(32 word) 3 d 1 = Inr (-5)"
  using signed_roundtrip [where 'a = 32, of 3 "-5" 1 "[0, 0, 0, 0]"]
  by (auto simp: reads_def sizeof_def shift_defined_def signed_range_def)

end
