(* ===== verification/CryptoUtils.thy ===== *)
theory CryptoUtils
  imports ByteIO
begin

text \<open>
  \<open>Utils::Crypto\<close> (common/utils.h and common/crypto.cc): the table-driven CRC-32, the linear
  congruential generator behind the random credentials, and the HMAC-SHA1 wrapper.
\<close>

section \<open>CRC-32\<close>

definition crc32Table :: "uint32 list" where
  "crc32Table =
    [0x00000000, 0x77073096, 0xee0e612c, 0x990951ba, 0x076dc419, 0x706af48f, 0xe963a535, 0x9e6495a3,
     0x0edb8832, 0x79dcb8a4, 0xe0d5e91e, 0x97d2d988, 0x09b64c2b, 0x7eb17cbd, 0xe7b82d07, 0x90bf1d91,
     0x1db71064, 0x6ab020f2, 0xf3b97148, 0x84be41de, 0x1adad47d, 0x6ddde4eb, 0xf4d4b551, 0x83d385c7,
     0x136c9856, 0x646ba8c0, 0xfd62f97a, 0x8a65c9ec, 0x14015c4f, 0x63066cd9, 0xfa0f3d63, 0x8d080df5,
     0x3b6e20c8, 0x4c69105e, 0xd56041e4, 0xa2677172, 0x3c03e4d1, 0x4b04d447, 0xd20d85fd, 0xa50ab56b,
     0x35b5a8fa, 0x42b2986c, 0xdbbbc9d6, 0xacbcf940, 0x32d86ce3, 0x45df5c75, 0xdcd60dcf, 0xabd13d59,
     0x26d930ac, 0x51de003a, 0xc8d75180, 0xbfd06116, 0x21b4f4b5, 0x56b3c423, 0xcfba9599, 0xb8bda50f,
     0x2802b89e, 0x5f058808, 0xc60cd9b2, 0xb10be924, 0x2f6f7c87, 0x58684c11, 0xc1611dab, 0xb6662d3d,
     0x76dc4190, 0x01db7106, 0x98d220bc, 0xefd5102a, 0x71b18589, 0x06b6b51f, 0x9fbfe4a5, 0xe8b8d433,
     0x7807c9a2, 0x0f00f934, 0x9609a88e, 0xe10e9818, 0x7f6a0dbb, 0x086d3d2d, 0x91646c97, 0xe6635c01,
     0x6b6b51f4, 0x1c6c6162, 0x856530d8, 0xf262004e, 0x6c0695ed, 0x1b01a57b, 0x8208f4c1, 0xf50fc457,
     0x65b0d9c6, 0x12b7e950, 0x8bbeb8ea, 0xfcb9887c, 0x62dd1ddf, 0x15da2d49, 0x8cd37cf3, 0xfbd44c65,
     0x4db26158, 0x3ab551ce, 0xa3bc0074, 0xd4bb30e2, 0x4adfa541, 0x3dd895d7, 0xa4d1c46d, 0xd3d6f4fb,
     0x4369e96a, 0x346ed9fc, 0xad678846, 0xda60b8d0, 0x44042d73, 0x33031de5, 0xaa0a4c5f, 0xdd0d7cc9,
     0x5005713c, 0x270241aa, 0xbe0b1010, 0xc90c2086, 0x5768b525, 0x206f85b3, 0xb966d409, 0xce61e49f,
     0x5edef90e, 0x29d9c998, 0xb0d09822, 0xc7d7a8b4, 0x59b33d17, 0x2eb40d81, 0xb7bd5c3b, 0xc0ba6cad,
     0xedb88320, 0x9abfb3b6, 0x03b6e20c, 0x74b1d29a, 0xead54739, 0x9dd277af, 0x04db2615, 0x73dc1683,
     0xe3630b12, 0x94643b84, 0x0d6d6a3e, 0x7a6a5aa8, 0xe40ecf0b, 0x9309ff9d, 0x0a00ae27, 0x7d079eb1,
     0xf00f9344, 0x8708a3d2, 0x1e01f268, 0x6906c2fe, 0xf762575d, 0x806567cb, 0x196c3671, 0x6e6b06e7,
     0xfed41b76, 0x89d32be0, 0x10da7a5a, 0x67dd4acc, 0xf9b9df6f, 0x8ebeeff9, 0x17b7be43, 0x60b08ed5,
     0xd6d6a3e8, 0xa1d1937e, 0x38d8c2c4, 0x4fdff252, 0xd1bb67f1, 0xa6bc5767, 0x3fb506dd, 0x48b2364b,
     0xd80d2bda, 0xaf0a1b4c, 0x36034af6, 0x41047a60, 0xdf60efc3, 0xa867df55, 0x316e8eef, 0x4669be79,
     0xcb61b38c, 0xbc66831a, 0x256fd2a0, 0x5268e236, 0xcc0c7795, 0xbb0b4703, 0x220216b9, 0x5505262f,
     0xc5ba3bbe, 0xb2bd0b28, 0x2bb45a92, 0x5cb36a04, 0xc2d7ffa7, 0xb5d0cf31, 0x2cd99e8b, 0x5bdeae1d,
     0x9b64c2b0, 0xec63f226, 0x756aa39c, 0x026d930a, 0x9c0906a9, 0xeb0e363f, 0x72076785, 0x05005713,
     0x95bf4a82, 0xe2b87a14, 0x7bb12bae, 0x0cb61b38, 0x92d28e9b, 0xe5d5be0d, 0x7cdcefb7, 0x0bdbdf21,
     0x86d3d2d4, 0xf1d4e242, 0x68ddb3f8, 0x1fda836e, 0x81be16cd, 0xf6b9265b, 0x6fb077e1, 0x18b74777,
     0x88085ae6, 0xff0f6a70, 0x66063bca, 0x11010b5c, 0x8f659eff, 0xf862ae69, 0x616bffd3, 0x166ccf45,
     0xa00ae278, 0xd70dd2ee, 0x4e048354, 0x3903b3c2, 0xa7672661, 0xd06016f7, 0x4969474d, 0x3e6e77db,
     0xaed16a4a, 0xd9d65adc, 0x40df0b66, 0x37d83bf0, 0xa9bcae53, 0xdebb9ec5, 0x47b2cf7f, 0x30b5ffe9,
     0xbdbdf21c, 0xcabac28a, 0x53b39330, 0x24b4a3a6, 0xbad03605, 0xcdd70693, 0x54de5729, 0x23d967bf,
     0xb3667a2e, 0xc4614ab8, 0x5d681b02, 0x2a6f2b94, 0xb40bbe37, 0xc30c8ea1, 0x5a05df1b, 0x2d02ef8d]"

fun crc32_loop :: "bytes \<Rightarrow> nat \<Rightarrow> nat \<Rightarrow> uint32 \<Rightarrow> uint32 res" where
  "crc32_loop data p 0 crc = Ok crc"
| "crc32_loop data p (Suc sz) crc =
     rbind (rd data p) (\<lambda>b.
       crc32_loop data (p + 1) sz
         (crc32Table ! unat ((crc XOR ucast b) AND 0xFF) XOR drop_bit 8 crc))"

definition GetCRC32 :: "bytes \<Rightarrow> nat \<Rightarrow> uint32 res" where
  "GetCRC32 data sz = rbind (crc32_loop data 0 sz 0xFFFFFFFF) (\<lambda>crc. Ok (crc XOR 0xFFFFFFFF))"

text \<open>The reference: the bit-serial reflected CRC with polynomial 0xEDB88320.\<close>

definition crc_step :: "uint32 \<Rightarrow> uint32" where
  "crc_step r = (if r AND 1 = 0 then drop_bit 1 r else drop_bit 1 r XOR 0xEDB88320)"

definition crc_step8 :: "uint32 \<Rightarrow> uint32" where
  "crc_step8 r = crc_step (crc_step (crc_step (crc_step (crc_step (crc_step (crc_step (crc_step r)))))))"

definition crc32_spec :: "bytes \<Rightarrow> uint32" where
  "crc32_spec bs = foldl (\<lambda>crc b. crc_step8 (crc XOR ucast b)) 0xFFFFFFFF bs XOR 0xFFFFFFFF"

lemma crc_step_alt: "crc_step r = drop_bit 1 r XOR (if bit r 0 then 0xEDB88320 else 0)"
  by (auto simp: crc_step_def bit_0 and_one_eq even_iff_mod_2_eq_zero)

lemma crc_step_xor: "crc_step (a XOR b) = crc_step a XOR crc_step b"
  by (cases "bit a 0"; cases "bit b 0")
    (simp_all add: crc_step_alt bit_xor_iff ac_simps)

lemma crc_step8_xor: "crc_step8 (a XOR b) = crc_step8 a XOR crc_step8 b"
  by (simp add: crc_step8_def crc_step_xor)

lemma crc_step_drop: "\<not> bit z k \<Longrightarrow> crc_step (drop_bit k z) = drop_bit (Suc k) z"
  by (simp add: crc_step_alt bit_drop_bit_eq)

lemma crc_step8_shift:
  assumes "\<And>i. i < 8 \<Longrightarrow> \<not> bit z i"
  shows "crc_step8 z = drop_bit 8 z"
proof -
  have step: "k < 8 \<Longrightarrow> crc_step (drop_bit k z) = drop_bit (Suc k) z" for k
    by (simp add: crc_step_drop assms)
  show ?thesis
    using step [of 0] step [of 1] step [of 2] step [of 3] step [of 4] step [of 5] step [of 6] step [of 7]
    by (simp add: crc_step8_def flip: numeral_2_eq_2)
qed

lemma crc_step8_split: "crc_step8 x = crc_step8 (x AND 0xFF) XOR drop_bit 8 x"
proof -
  let ?hi = "x AND NOT (mask 8)"
  have m: "0xFF = (mask 8 :: uint32)" by (simp add: mask_eq_exp_minus_1)
  have "x = (x AND mask 8) XOR ?hi"
    by (rule bit_word_eqI) (auto simp: bit_simps)
  then have "crc_step8 x = crc_step8 (x AND mask 8) XOR crc_step8 ?hi"
    by (metis crc_step8_xor)
  moreover have "crc_step8 ?hi = drop_bit 8 ?hi"
    by (rule crc_step8_shift) (simp add: bit_simps)
  moreover have "drop_bit 8 ?hi = drop_bit 8 x"
    by (rule bit_word_eqI) (auto simp: bit_simps dest: bit_imp_le_length)
  ultimately show ?thesis by (simp only: m)
qed

text \<open>
  The table is the bit-serial step applied to every byte value. By linearity its second half, for
  each power of two, is the first half combined with one basis value, so it is computed by doubling.
\<close>

primrec crc_table_upto :: "nat \<Rightarrow> uint32 list" where
  "crc_table_upto 0 = [0]"
| "crc_table_upto (Suc k) =
     crc_table_upto k @ map (\<lambda>x. x XOR crc_step8 (2 ^ k)) (crc_table_upto k)"

lemma word_of_nat_add_power:
  assumes "i < 2 ^ k"
  shows "(word_of_nat i + 2 ^ k :: 'a::len word) = word_of_nat i XOR 2 ^ k"
proof -
  have "bit i n \<Longrightarrow> n \<noteq> k" for n
    using assms by (metis bit_take_bit_iff less_irrefl take_bit_nat_eq_self_iff)
  then have "i AND 2 ^ k = 0"
    by (auto simp: bit_eq_iff bit_simps)
  then have "i + 2 ^ k = i XOR 2 ^ k" by (rule disjunctive_add_eq_xor)
  then have "(word_of_nat i + 2 ^ k :: 'a word) = word_of_nat (i XOR 2 ^ k)"
    by (metis of_nat_add of_nat_numeral of_nat_power)
  also have "\<dots> = word_of_nat i XOR 2 ^ k"
    by (simp add: of_nat_xor_eq)
  finally show ?thesis .
qed

lemma crc_step8_0: "crc_step8 0 = 0"
  by (simp add: crc_step8_def crc_step_def)

lemma crc_table_upto_eq: "crc_table_upto k = map (\<lambda>i. crc_step8 (word_of_nat i)) [0..<2 ^ k]"
proof (induction k)
  case 0
  then show ?case by (simp add: crc_step8_0)
next
  case (Suc k)
  have "[0..<2 ^ Suc k] = [0..<2 ^ k] @ map (\<lambda>i. i + 2 ^ k) [0..<2 ^ k]"
    using upt_add_eq_append [of 0 "2 ^ k" "2 ^ k"] by (simp only: map_add_upt) (simp add: mult_2)
  then show ?case
    by (auto simp: Suc crc_step8_xor word_of_nat_add_power)
qed

lemma crc_basis:
  "crc_step8 1 = 0x77073096" "crc_step8 2 = 0xee0e612c" "crc_step8 4 = 0x076dc419"
  "crc_step8 8 = 0x0edb8832" "crc_step8 16 = 0x1db71064" "crc_step8 32 = 0x3b6e20c8"
  "crc_step8 64 = 0x76dc4190" "crc_step8 128 = 0xedb88320"
  by (simp_all add: crc_step8_def crc_step_def)

lemma crc32Table_eq: "crc32Table = map (\<lambda>i. crc_step8 (word_of_nat i)) [0..<256]"
proof -
  have "crc_table_upto 8 = crc32Table"
    by (simp add: crc32Table_def crc_basis numeral_eq_Suc)
  then show ?thesis using crc_table_upto_eq [of 8] by simp
qed

lemma crc32Table_nth: "x < 256 \<Longrightarrow> crc32Table ! unat (x :: uint32) = crc_step8 x"
  by (simp add: crc32Table_eq word_less_nat_alt)

lemma crc_table_lookup:
  "crc32Table ! unat (x AND 0xFF) XOR drop_bit 8 x = crc_step8 x"
proof -
  have "x AND 0xFF \<le> 0xFF" by (rule word_and_le1)
  then have "x AND 0xFF < 256" by (rule order_le_less_trans) simp
  then show ?thesis by (simp add: crc32Table_nth crc_step8_split [of x])
qed

text \<open>The shifted-out byte of the register is combined with the data byte before the lookup only;
  the register shift itself does not see the data byte because it has only eight bits.\<close>

lemma crc_loop_step:
  "crc32Table ! unat ((crc XOR ucast (b :: byte)) AND 0xFF) XOR drop_bit 8 crc = crc_step8 (crc XOR ucast b)"
proof -
  have "drop_bit 8 (crc XOR ucast b) = drop_bit 8 crc"
    by (rule bit_word_eqI) (simp add: bit_simps)
  with crc_table_lookup [of "crc XOR ucast b"] show ?thesis by simp
qed

lemma crc32_loop_eq:
  "p + sz \<le> length data \<Longrightarrow>
   crc32_loop data p sz crc =
     Inr (foldl (\<lambda>crc b. crc_step8 (crc XOR ucast b)) crc (take sz (drop p data)))"
proof (induction sz arbitrary: p crc)
  case 0
  then show ?case by simp
next
  case (Suc sz)
  have "take (Suc sz) (drop p data) = data ! p # take sz (drop (Suc p) data)"
    using Suc.prems by (simp add: take_Suc_Cons Cons_nth_drop_Suc [symmetric])
  with Suc show ?case by (simp add: crc_loop_step)
qed

lemma GetCRC32_eq: "sz \<le> length data \<Longrightarrow> GetCRC32 data sz = Inr (crc32_spec (take sz data))"
  by (simp add: GetCRC32_def crc32_spec_def crc32_loop_eq)

section \<open>Random numbers and strings\<close>

text \<open>
  The generator keeps one 32-bit seed; a call returns the value and the new seed.
\<close>

definition GetRandomUInt :: "uint32 \<Rightarrow> uint32 \<Rightarrow> uint32 \<Rightarrow> uint32 \<times> uint32" where
  "GetRandomUInt seed mn mx =
     (let seed = 214013 * seed + 2531011;
          mx = (if mx = 4294967295 then mx - 1 else mx);
          mn = (if mn > mx then mx else mn)
      in ((drop_bit 4 seed AND 0x7FFF7FFF) mod (mx - mn + 1) + mn, seed))"

definition random_chars :: bytes where
  "random_chars = str ''0123456789abcdefghijklmnopqrstuvwxyz''"

fun random_fill :: "nat \<Rightarrow> uint32 \<Rightarrow> bytes \<times> uint32" where
  "random_fill 0 seed = ([], seed)"
| "random_fill (Suc n) seed =
     (let (idx, seed) = GetRandomUInt seed 0 (word_of_nat (length random_chars - 1));
          (rest, seed) = random_fill n seed
      in (random_chars ! unat idx # rest, seed))"

definition GetRandomString :: "nat \<Rightarrow> uint32 \<Rightarrow> bytes \<times> uint32" where
  "GetRandomString len seed = random_fill (if len > 64 then 64 else len) seed"

lemma GetRandomUInt_divisor:
  assumes "mx \<noteq> 4294967295" and "mn \<le> (mx :: uint32)"
  shows "unat (mx - mn + 1) = unat mx - unat mn + 1"
proof -
  have "unat mx \<noteq> 4294967295" using assms(1) by (simp add: word_unat_eq_iff)
  then have "unat mx < 4294967295" using unsigned_less [of mx, where ?'a = nat] by simp
  moreover have "unat (mx - mn) = unat mx - unat mn" using assms(2) by (rule unat_sub)
  ultimately show ?thesis by (simp add: unat_word_ariths)
qed

lemma GetRandomUInt_range:
  assumes "mx \<noteq> 4294967295" and "mn \<le> mx"
  shows "mn \<le> fst (GetRandomUInt seed mn mx) \<and> fst (GetRandomUInt seed mn mx) \<le> mx"
proof -
  let ?r = "drop_bit 4 (214013 * seed + 2531011) AND (0x7FFF7FFF :: uint32)"
  let ?d = "mx - mn + 1"
  have d: "unat ?d = unat mx - unat mn + 1" by (rule GetRandomUInt_divisor [OF assms])
  then have "unat (?r mod ?d) \<le> unat mx - unat mn"
    by (simp add: unat_mod_distrib)
  moreover have "unat mn \<le> unat mx" using assms(2) by (simp add: word_le_nat_alt)
  moreover have "unat mx < 4294967296" using unsigned_less [of mx, where ?'a = nat] by simp
  ultimately have "unat (?r mod ?d + mn) = unat (?r mod ?d) + unat mn"
    by (simp add: unat_word_ariths)
  with \<open>unat (?r mod ?d) \<le> unat mx - unat mn\<close> \<open>unat mn \<le> unat mx\<close> assms show ?thesis
    by (simp add: GetRandomUInt_def Let_def word_le_nat_alt not_less)
qed

lemma length_random_chars [simp]: "length random_chars = 36"
  by (simp add: random_chars_def str_def)

lemma random_index: "unat (fst (GetRandomUInt seed 0 35)) < 36"
  using GetRandomUInt_range [of 35 0 seed] by (simp add: word_le_nat_alt)

lemma random_fill_ok:
  "length (fst (random_fill n seed)) = n \<and> set (fst (random_fill n seed)) \<subseteq> set random_chars"
proof (induction n arbitrary: seed)
  case (Suc n)
  have "random_chars ! unat (fst (GetRandomUInt seed 0 35)) \<in> set random_chars"
    by (rule nth_mem) (simp add: random_index)
  with Suc show ?case by (simp add: split_beta Let_def)
qed simp

section \<open>HMAC-SHA1\<close>

text \<open>
  OpenSSL's HMAC routines are a parameter: the return codes of \<open>HMAC_Init_ex\<close>,
  \<open>HMAC_Update\<close> and \<open>HMAC_Final\<close> and the digest, as functions of the key and the data
  (\<open>HMAC_Init_ex\<close> with a key and a digest starts the shared context afresh).
\<close>

record hmac_lib =
  HMAC_Init_ex :: "bytes \<Rightarrow> int"
  HMAC_Update :: "bytes \<Rightarrow> bytes \<Rightarrow> int"
  HMAC_Final :: "bytes \<Rightarrow> bytes \<Rightarrow> int \<times> bytes"

definition GetHmacShA1 :: "hmac_lib \<Rightarrow> bytes \<Rightarrow> bytes \<Rightarrow> nat \<Rightarrow> bytes res" where
  "GetHmacShA1 lib key data len =
     rbind (ms_assert (HMAC_Init_ex lib key = 1) ''OpenSSL HMAC_Init_ex() failed'') (\<lambda>_.
     rbind (rd_range data 0 len) (\<lambda>msg.
     rbind (ms_assert (HMAC_Update lib key msg = 1) ''OpenSSL HMAC_Update() failed'') (\<lambda>_.
     let (ret, digest) = HMAC_Final lib key msg in
     rbind (ms_assert (ret = 1) ''OpenSSL HMAC_Final() failed'') (\<lambda>_.
     rbind (ms_assert (length digest = 20) ''OpenSSL HMAC_Final() resultLen is not 20'') (\<lambda>_.
     Ok digest)))))"

text \<open>Documented behaviour of the library: the calls succeed and SHA-1 digests have 20 bytes.\<close>

definition hmac_ok :: "hmac_lib \<Rightarrow> bool" where
  "hmac_ok lib \<longleftrightarrow>
     (\<forall>k d. HMAC_Init_ex lib k = 1 \<and> HMAC_Update lib k d = 1 \<and>
            fst (HMAC_Final lib k d) = 1 \<and> length (snd (HMAC_Final lib k d)) = 20)"

abbreviation hmac_digest :: "hmac_lib \<Rightarrow> bytes \<Rightarrow> bytes \<Rightarrow> bytes" where
  "hmac_digest lib key msg \<equiv> snd (HMAC_Final lib key msg)"

lemma GetHmacShA1_eq:
  "hmac_ok lib \<Longrightarrow> len \<le> length data \<Longrightarrow>
   GetHmacShA1 lib key data len = Inr (hmac_digest lib key (take len data))"
  by (simp add: GetHmacShA1_def hmac_ok_def split_beta)

lemma length_hmac_digest: "hmac_ok lib \<Longrightarrow> length (hmac_digest lib key msg) = 20"
  by (simp add: hmac_ok_def)

text \<open>An instance of the library interface, for concrete runs: the digest is a prefix of the key and
  the message.\<close>

definition example_hmac :: hmac_lib where
  "example_hmac =
     \<lparr>HMAC_Init_ex = (\<lambda>_. 1), HMAC_Update = (\<lambda>_ _. 1),
      HMAC_Final = (\<lambda>key msg. (1, take 20 (key @ msg @ replicate 20 0)))\<rparr>"

lemma example_hmac_ok: "hmac_ok example_hmac"
  by (auto simp: example_hmac_def hmac_ok_def min_def)

section \<open>Properties\<close>

text \<open>C34: the table-driven CRC-32 of Utils::Crypto computes the reflected CRC-32 of polynomial
  0xEDB88320 bit by bit, for every buffer and size inside it.\<close>

theorem crc32_correct:
  assumes "sz \<le> length data"
  shows "GetCRC32 data sz = Inr (crc32_spec (take sz data))"
  using assms by (rule GetCRC32_eq)

theorem crc32_correct_witness:
  "GetCRC32 (str ''123456789'') 9 = Inr (crc32_spec (str ''123456789''))"
  using crc32_correct [of 9 "str ''123456789''"] by (simp add: str_def)

text \<open>GetRandomString returns min(len, 64) characters, all of them digits or lower case
  letters, whatever the seed.\<close>

theorem random_string_alphabet:
  "length (fst (GetRandomString len seed)) = min len 64 \<and>
   set (fst (GetRandomString len seed)) \<subseteq> set (str ''0123456789abcdefghijklmnopqrstuvwxyz'')"
  using random_fill_ok [of "if len > 64 then 64 else len" seed]
  by (simp add: GetRandomString_def random_chars_def min_def)

end
