(* ===== verification/StunPacket.thy ===== *)
theory StunPacket
  imports CryptoUtils
begin

text \<open>
  \<open>RTC::StunPacket\<close> (rtc/stun_packet.h and rtc/stun_packet.cc): the message record, parsing,
  authentication, response construction and serialization.

  A packet keeps pointers into the buffer it was parsed from. Here the buffer is the field
  \<open>p_data\<close> (\<open>None\<close> is the null pointer), the pointer to the MESSAGE-INTEGRITY value is an
  offset into it, and the twelve bytes of the transaction id are kept by value; the only writes
  through the packet (the length field, bytes 2 and 3) do not overlap them. \<open>size_t\<close> values that
  cannot wrap are naturals; 16-bit values wrap.
\<close>

section \<open>Data\<close>

datatype Class = REQUEST | INDICATION | SUCCESS_RESPONSE | ERROR_RESPONSE

fun Class_code :: "Class \<Rightarrow> uint16" where
  "Class_code REQUEST = 0"
| "Class_code INDICATION = 1"
| "Class_code SUCCESS_RESPONSE = 2"
| "Class_code ERROR_RESPONSE = 3"

text \<open>The cast from the two class bits of the message type.\<close>

definition Class_cast :: "uint16 \<Rightarrow> Class" where
  "Class_cast c =
     (if c = 0 then REQUEST else if c = 1 then INDICATION
      else if c = 2 then SUCCESS_RESPONSE else ERROR_RESPONSE)"

text \<open>The enumeration \<open>Method\<close> has one named value but holds any 16-bit number.\<close>

type_synonym Method = uint16

definition BINDING :: Method where "BINDING = 1"

datatype Attribute =
    MAPPED_ADDRESS | USERNAME | MESSAGE_INTEGRITY | ERROR_CODE | UNKNOWN_ATTRIBUTES | REALM | NONCE
  | XOR_MAPPED_ADDRESS | PRIORITY | USE_CANDIDATE | SOFTWARE | ALTERNATE_SERVER | FINGERPRINT
  | ICE_CONTROLLED | ICE_CONTROLLING

fun Attribute_code :: "Attribute \<Rightarrow> uint16" where
  "Attribute_code MAPPED_ADDRESS = 0x0001"
| "Attribute_code USERNAME = 0x0006"
| "Attribute_code MESSAGE_INTEGRITY = 0x0008"
| "Attribute_code ERROR_CODE = 0x0009"
| "Attribute_code UNKNOWN_ATTRIBUTES = 0x000A"
| "Attribute_code REALM = 0x0014"
| "Attribute_code NONCE = 0x0015"
| "Attribute_code XOR_MAPPED_ADDRESS = 0x0020"
| "Attribute_code PRIORITY = 0x0024"
| "Attribute_code USE_CANDIDATE = 0x0025"
| "Attribute_code SOFTWARE = 0x8022"
| "Attribute_code ALTERNATE_SERVER = 0x8023"
| "Attribute_code FINGERPRINT = 0x8028"
| "Attribute_code ICE_CONTROLLED = 0x8029"
| "Attribute_code ICE_CONTROLLING = 0x802A"

datatype Authentication = AUTH_OK | UNAUTHORIZED | BAD_REQUEST

text \<open>Socket addresses: family with port and address in host order (they are stored in network
  order), or a family the code does not know.\<close>

datatype sockaddr =
    AF_INET uint16 uint32
  | AF_INET6 uint16 "128 word"
  | AF_OTHER nat

record stun_packet =
  p_klass :: Class
  p_method :: Method
  p_transactionId :: bytes
  p_data :: "bytes option"
  p_size :: nat
  p_username :: bytes
  p_priority :: uint32
  p_iceControlling :: uint64
  p_iceControlled :: uint64
  p_hasUseCandidate :: bool
  p_messageIntegrity :: "nat option"
  p_hasFingerprint :: bool
  p_xorMappedAddress :: "sockaddr option"
  p_errorCode :: uint16
  p_password :: bytes

definition new_StunPacket :: "Class \<Rightarrow> Method \<Rightarrow> bytes \<Rightarrow> bytes option \<Rightarrow> nat \<Rightarrow> stun_packet" where
  "new_StunPacket klass method transactionId data sz =
     \<lparr>p_klass = klass, p_method = method, p_transactionId = transactionId, p_data = data,
      p_size = sz, p_username = [], p_priority = 0, p_iceControlling = 0, p_iceControlled = 0,
      p_hasUseCandidate = False, p_messageIntegrity = None, p_hasFingerprint = False,
      p_xorMappedAddress = None, p_errorCode = 0, p_password = []\<rparr>"

definition magicCookie :: bytes where
  "magicCookie = [0x21, 0x12, 0xA4, 0x42]"

definition HasMessageIntegrity :: "stun_packet \<Rightarrow> bool" where
  "HasMessageIntegrity pkt \<longleftrightarrow> p_messageIntegrity pkt \<noteq> None"

section \<open>Recognition\<close>

definition IsStun :: "bytes \<Rightarrow> nat \<Rightarrow> bool res" where
  "IsStun data len =
     (if \<not> len \<ge> 20 then Ok False else
      rbind (rd data 0) (\<lambda>b0. if \<not> b0 < 3 then Ok False else
      rbind (rd data 4) (\<lambda>b4. if b4 \<noteq> magicCookie ! 0 then Ok False else
      rbind (rd data 5) (\<lambda>b5. if b5 \<noteq> magicCookie ! 1 then Ok False else
      rbind (rd data 6) (\<lambda>b6. if b6 \<noteq> magicCookie ! 2 then Ok False else
      rbind (rd data 7) (\<lambda>b7. Ok (b7 = magicCookie ! 3)))))))"

section \<open>Parsing\<close>

text \<open>The local variables of the attribute loop.\<close>

record parse_state =
  ps_pos :: nat
  ps_hasMessageIntegrity :: bool
  ps_hasFingerprint :: bool
  ps_fingerprintAttrPos :: nat
  ps_fingerprint :: uint32
  ps_packet :: stun_packet

text \<open>
  The \<open>switch\<close> on the attribute type. \<open>None\<close> is the early \<open>return nullptr\<close>.
\<close>

definition parse_attr_value ::
  "bytes \<Rightarrow> uint16 \<Rightarrow> uint16 \<Rightarrow> parse_state \<Rightarrow> parse_state option res" where
  "parse_attr_value data attrType attrLength st =
     (let pkt = ps_packet st; pos = ps_pos st; attrValuePos = pos + 4 in
      if attrType = Attribute_code USERNAME then
        rbind (rd_range data attrValuePos (unat attrLength)) (\<lambda>u.
          Ok (Some (st\<lparr>ps_packet := pkt\<lparr>p_username := u\<rparr>\<rparr>)))
      else if attrType = Attribute_code PRIORITY then
        (if attrLength \<noteq> 4 then Ok None else
         rbind (Get4Bytes data attrValuePos) (\<lambda>v.
           Ok (Some (st\<lparr>ps_packet := pkt\<lparr>p_priority := v\<rparr>\<rparr>))))
      else if attrType = Attribute_code ICE_CONTROLLING then
        (if attrLength \<noteq> 8 then Ok None else
         rbind (Get8Bytes data attrValuePos) (\<lambda>v.
           Ok (Some (st\<lparr>ps_packet := pkt\<lparr>p_iceControlling := v\<rparr>\<rparr>))))
      else if attrType = Attribute_code ICE_CONTROLLED then
        (if attrLength \<noteq> 8 then Ok None else
         rbind (Get8Bytes data attrValuePos) (\<lambda>v.
           Ok (Some (st\<lparr>ps_packet := pkt\<lparr>p_iceControlled := v\<rparr>\<rparr>))))
      else if attrType = Attribute_code USE_CANDIDATE then
        (if attrLength \<noteq> 0 then Ok None else
         Ok (Some (st\<lparr>ps_packet := pkt\<lparr>p_hasUseCandidate := True\<rparr>\<rparr>)))
      else if attrType = Attribute_code MESSAGE_INTEGRITY then
        (if attrLength \<noteq> 20 then Ok None else
         Ok (Some (st\<lparr>ps_hasMessageIntegrity := True,
           ps_packet := pkt\<lparr>p_messageIntegrity := Some attrValuePos\<rparr>\<rparr>)))
      else if attrType = Attribute_code FINGERPRINT then
        (if attrLength \<noteq> 4 then Ok None else
         rbind (Get4Bytes data attrValuePos) (\<lambda>v.
           Ok (Some (st\<lparr>ps_hasFingerprint := True, ps_fingerprintAttrPos := pos,
             ps_fingerprint := v, ps_packet := pkt\<lparr>p_hasFingerprint := True\<rparr>\<rparr>))))
      else if attrType = Attribute_code ERROR_CODE then
        (if attrLength < 4 then Ok None else
         rbind (Get1Byte data (attrValuePos + 2)) (\<lambda>errorClass.
         rbind (Get1Byte data (attrValuePos + 3)) (\<lambda>errorNumber.
           Ok (Some (st\<lparr>ps_packet :=
             pkt\<lparr>p_errorCode := ucast errorClass * 100 + ucast errorNumber\<rparr>\<rparr>)))))
      else Ok (Some st))"

text \<open>One iteration of the loop body.\<close>

definition parse_attribute :: "bytes \<Rightarrow> nat \<Rightarrow> parse_state \<Rightarrow> parse_state option res" where
  "parse_attribute data len st =
     rbind (Get2Bytes data (ps_pos st)) (\<lambda>attrType.
     rbind (Get2Bytes data (ps_pos st + 2)) (\<lambda>attrLength.
     if ps_pos st + 4 + unat attrLength > len then Ok None
     else if ps_hasFingerprint st then Ok None
     else if ps_hasMessageIntegrity st \<and> attrType \<noteq> Attribute_code FINGERPRINT then Ok None
     else
       rbind (parse_attr_value data attrType attrLength st) (\<lambda>r.
         case r of
           None \<Rightarrow> Ok None
         | Some st' \<Rightarrow>
             Ok (Some (st'\<lparr>ps_pos :=
               unat (PadTo4Bytes (word_of_nat (ps_pos st + 4 + unat attrLength)))\<rparr>)))))"

text \<open>
  The loop. The position is truncated to 16 bits in every iteration, so it may move backwards: the
  loop need not end, and \<open>None\<close> stands for a loop that does not.
\<close>

partial_function (option) parse_loop ::
  "bytes \<Rightarrow> nat \<Rightarrow> parse_state \<Rightarrow> parse_state option res option" where
  "parse_loop data len st =
     (if ps_pos st + 4 \<le> len then
        (case parse_attribute data len st of
           Inl f \<Rightarrow> Some (Inl f)
         | Inr r \<Rightarrow> (case r of
             None \<Rightarrow> Some (Inr None)
           | Some st' \<Rightarrow> parse_loop data len st'))
      else Some (Inr (Some st)))"

definition parse_finish :: "bytes \<Rightarrow> nat \<Rightarrow> parse_state \<Rightarrow> stun_packet option res" where
  "parse_finish data len st =
     (if ps_pos st \<noteq> len then Ok None
      else if ps_hasFingerprint st then
        rbind (GetCRC32 data (ps_fingerprintAttrPos st)) (\<lambda>crc.
          if ps_fingerprint st \<noteq> crc XOR 0x5354554e then Ok None else Ok (Some (ps_packet st)))
      else Ok (Some (ps_packet st)))"

definition msg_method :: "uint16 \<Rightarrow> Method" where
  "msg_method msgType =
     (msgType AND 0x000f) OR drop_bit 1 (msgType AND 0x00e0) OR drop_bit 2 (msgType AND 0x3E00)"

definition msg_class :: "byte \<Rightarrow> byte \<Rightarrow> uint16" where
  "msg_class b0 b1 = ucast (push_bit 1 (b0 AND 0x01) OR drop_bit 4 (b1 AND 0x10))"

definition Parse :: "bytes \<Rightarrow> nat \<Rightarrow> stun_packet option res" where
  "Parse data len =
     rbind (IsStun data len) (\<lambda>stun. if \<not> stun then Ok None else
     rbind (Get2Bytes data 0) (\<lambda>msgType.
     rbind (Get2Bytes data 2) (\<lambda>msgLength.
     if unat msgLength \<noteq> len - 20 \<or> msgLength AND 0x03 \<noteq> 0 then Ok None else
     rbind (rd data 0) (\<lambda>b0. rbind (rd data 1) (\<lambda>b1.
     rbind (rd_range data 8 12) (\<lambda>transactionId.
     let packet = new_StunPacket (Class_cast (msg_class b0 b1)) (msg_method msgType)
                    transactionId (Some data) len;
         st = \<lparr>ps_pos = 20, ps_hasMessageIntegrity = False, ps_hasFingerprint = False,
               ps_fingerprintAttrPos = 0, ps_fingerprint = 0, ps_packet = packet\<rparr>
     in case parse_loop data len st of
          None \<Rightarrow> Fault Diverges
        | Some r \<Rightarrow> rbind r (\<lambda>s.
            case s of None \<Rightarrow> Ok None | Some st' \<Rightarrow> parse_finish data len st')))))))"

section \<open>Authentication\<close>

definition check_username :: "stun_packet \<Rightarrow> bytes \<Rightarrow> bool" where
  "check_username pkt localUsername \<longleftrightarrow>
     (let n = length localUsername in
      \<not> (length (p_username pkt) \<le> n \<or>
         p_username pkt ! n \<noteq> of_char (CHR '':'') \<or>
         take n (p_username pkt) \<noteq> localUsername))"

definition check_integrity :: "hmac_lib \<Rightarrow> stun_packet \<Rightarrow> bytes \<Rightarrow> (Authentication \<times> stun_packet) res" where
  "check_integrity lib pkt localPassword =
     (case (p_messageIntegrity pkt, p_data pkt) of
        (Some mi, Some data) \<Rightarrow>
          rbind (if p_hasFingerprint pkt
                 then Set2Bytes data 2 (word_of_nat (p_size pkt) - 20 - 8) else Ok data) (\<lambda>data.
          rbind (GetHmacShA1 lib localPassword data (mi - 4)) (\<lambda>computedMessageIntegrity.
          rbind (rd_range data mi 20) (\<lambda>received.
          let result = (if received = computedMessageIntegrity then AUTH_OK else UNAUTHORIZED) in
          rbind (if p_hasFingerprint pkt
                 then Set2Bytes data 2 (word_of_nat (p_size pkt) - 20) else Ok data) (\<lambda>data.
          Ok (result, pkt\<lparr>p_data := Some data\<rparr>)))))
      | _ \<Rightarrow> Fault NullDeref)"

definition CheckAuthentication ::
  "hmac_lib \<Rightarrow> stun_packet \<Rightarrow> bytes \<Rightarrow> bytes \<Rightarrow> (Authentication \<times> stun_packet) res" where
  "CheckAuthentication lib pkt localUsername localPassword =
     (if p_klass pkt = SUCCESS_RESPONSE \<or> p_klass pkt = ERROR_RESPONSE then Ok (BAD_REQUEST, pkt)
      else if \<not> HasMessageIntegrity pkt \<or> p_username pkt = [] then Ok (BAD_REQUEST, pkt)
      else if \<not> check_username pkt localUsername then Ok (UNAUTHORIZED, pkt)
      else check_integrity lib pkt localPassword)"

section \<open>Responses\<close>

definition CreateSuccessResponse :: "stun_packet \<Rightarrow> stun_packet res" where
  "CreateSuccessResponse pkt =
     rbind (ms_assert (p_klass pkt = REQUEST)
       ''attempt to create a success response for a non Request STUN packet'') (\<lambda>_.
     Ok (new_StunPacket SUCCESS_RESPONSE (p_method pkt) (p_transactionId pkt) None 0))"

definition CreateErrorResponse :: "stun_packet \<Rightarrow> uint16 \<Rightarrow> stun_packet res" where
  "CreateErrorResponse pkt errorCode =
     rbind (ms_assert (p_klass pkt = REQUEST)
       ''attempt to create an error response for a non Request STUN packet'') (\<lambda>_.
     Ok ((new_StunPacket ERROR_RESPONSE (p_method pkt) (p_transactionId pkt) None 0)
           \<lparr>p_errorCode := errorCode\<rparr>))"

definition Authenticate :: "stun_packet \<Rightarrow> bytes \<Rightarrow> stun_packet" where
  "Authenticate pkt password =
     (if p_klass pkt = ERROR_RESPONSE then pkt else pkt\<lparr>p_password := password\<rparr>)"

definition SetXorMappedAddress :: "stun_packet \<Rightarrow> sockaddr \<Rightarrow> stun_packet" where
  "SetXorMappedAddress pkt addr = pkt\<lparr>p_xorMappedAddress := Some addr\<rparr>"

section \<open>Serialization\<close>

text \<open>
  Every block that adds an attribute takes the buffer and the write position and returns both.
  A byte the code does not write (the padding after the username) keeps its old value.
\<close>

type_synonym cursor = "bytes \<times> nat"

fun xor_range :: "bytes \<Rightarrow> nat \<Rightarrow> bytes \<Rightarrow> bytes res" where
  "xor_range buffer i [] = Ok buffer"
| "xor_range buffer i (k # ks) =
     rbind (rd buffer i) (\<lambda>x. rbind (wr buffer i (x XOR k)) (\<lambda>buffer.
       xor_range buffer (i + 1) ks))"

definition usernamePaddedLen :: "stun_packet \<Rightarrow> uint16" where
  "usernamePaddedLen pkt =
     (if p_username pkt \<noteq> [] then PadTo4Bytes (word_of_nat (length (p_username pkt))) else 0)"

text \<open>\<open>addXorMappedAddress\<close>: cleared again when the family is unknown.\<close>

definition addXorMappedAddress :: "stun_packet \<Rightarrow> sockaddr option" where
  "addXorMappedAddress pkt =
     (if p_method pkt = BINDING \<and> p_klass pkt = SUCCESS_RESPONSE then
        (case p_xorMappedAddress pkt of
           Some (AF_INET port addr) \<Rightarrow> Some (AF_INET port addr)
         | Some (AF_INET6 port addr) \<Rightarrow> Some (AF_INET6 port addr)
         | _ \<Rightarrow> None)
      else None)"

definition addErrorCode :: "stun_packet \<Rightarrow> bool" where
  "addErrorCode pkt \<longleftrightarrow> p_errorCode pkt \<noteq> 0 \<and> p_klass pkt = ERROR_RESPONSE"

definition addMessageIntegrity :: "stun_packet \<Rightarrow> bool" where
  "addMessageIntegrity pkt \<longleftrightarrow> p_klass pkt \<noteq> ERROR_RESPONSE \<and> p_password pkt \<noteq> []"

definition xor_address_len :: "sockaddr \<Rightarrow> nat" where
  "xor_address_len addr = (case addr of AF_INET _ _ \<Rightarrow> 8 | AF_INET6 _ _ \<Rightarrow> 20 | AF_OTHER _ \<Rightarrow> 0)"

definition serialized_size :: "stun_packet \<Rightarrow> nat" where
  "serialized_size pkt =
     20
     + (if p_username pkt \<noteq> [] then 4 + unat (usernamePaddedLen pkt) else 0)
     + (if p_priority pkt \<noteq> 0 then 4 + 4 else 0)
     + (if p_iceControlling pkt \<noteq> 0 then 4 + 8 else 0)
     + (if p_iceControlled pkt \<noteq> 0 then 4 + 8 else 0)
     + (if p_hasUseCandidate pkt then 4 else 0)
     + (case addXorMappedAddress pkt of None \<Rightarrow> 0 | Some addr \<Rightarrow> 4 + xor_address_len addr)
     + (if addErrorCode pkt then 4 + 4 else 0)
     + (if addMessageIntegrity pkt then 4 + 20 else 0)
     + (4 + 4)"

definition type_field :: "Class \<Rightarrow> Method \<Rightarrow> uint16" where
  "type_field klass method =
     push_bit 2 (method AND 0x0f80) OR push_bit 1 (method AND 0x0070) OR (method AND 0x000f) OR
     push_bit 7 (Class_code klass AND 0x02) OR push_bit 4 (Class_code klass AND 0x01)"

definition write_header :: "stun_packet \<Rightarrow> bytes \<Rightarrow> cursor res" where
  "write_header pkt buffer =
     rbind (Set2Bytes buffer 0 (type_field (p_klass pkt) (p_method pkt))) (\<lambda>buffer.
     rbind (Set2Bytes buffer 2 (word_of_nat (p_size pkt) - 20)) (\<lambda>buffer.
     rbind (wr_range buffer 4 magicCookie) (\<lambda>buffer.
     rbind (rd_range (p_transactionId pkt) 0 12) (\<lambda>tid.
     rbind (wr_range buffer 8 tid) (\<lambda>buffer.
     Ok (buffer, 20))))))"

definition write_attr_header :: "bytes \<Rightarrow> nat \<Rightarrow> Attribute \<Rightarrow> uint16 \<Rightarrow> bytes res" where
  "write_attr_header buffer pos attr attrLength =
     rbind (Set2Bytes buffer pos (Attribute_code attr)) (\<lambda>buffer.
       Set2Bytes buffer (pos + 2) attrLength)"

definition add_username :: "stun_packet \<Rightarrow> cursor \<Rightarrow> cursor res" where
  "add_username pkt = (\<lambda>(buffer, pos).
     if usernamePaddedLen pkt \<noteq> 0 then
       rbind (write_attr_header buffer pos USERNAME (word_of_nat (length (p_username pkt)))) (\<lambda>buffer.
       rbind (wr_range buffer (pos + 4) (p_username pkt)) (\<lambda>buffer.
       Ok (buffer, pos + 4 + unat (usernamePaddedLen pkt))))
     else Ok (buffer, pos))"

definition add_priority :: "stun_packet \<Rightarrow> cursor \<Rightarrow> cursor res" where
  "add_priority pkt = (\<lambda>(buffer, pos).
     if p_priority pkt \<noteq> 0 then
       rbind (write_attr_header buffer pos PRIORITY 4) (\<lambda>buffer.
       rbind (Set4Bytes buffer (pos + 4) (p_priority pkt)) (\<lambda>buffer.
       Ok (buffer, pos + 4 + 4)))
     else Ok (buffer, pos))"

definition add_iceControlling :: "stun_packet \<Rightarrow> cursor \<Rightarrow> cursor res" where
  "add_iceControlling pkt = (\<lambda>(buffer, pos).
     if p_iceControlling pkt \<noteq> 0 then
       rbind (write_attr_header buffer pos ICE_CONTROLLING 8) (\<lambda>buffer.
       rbind (Set8Bytes buffer (pos + 4) (p_iceControlling pkt)) (\<lambda>buffer.
       Ok (buffer, pos + 4 + 8)))
     else Ok (buffer, pos))"

definition add_iceControlled :: "stun_packet \<Rightarrow> cursor \<Rightarrow> cursor res" where
  "add_iceControlled pkt = (\<lambda>(buffer, pos).
     if p_iceControlled pkt \<noteq> 0 then
       rbind (write_attr_header buffer pos ICE_CONTROLLED 8) (\<lambda>buffer.
       rbind (Set8Bytes buffer (pos + 4) (p_iceControlled pkt)) (\<lambda>buffer.
       Ok (buffer, pos + 4 + 8)))
     else Ok (buffer, pos))"

definition add_useCandidate :: "stun_packet \<Rightarrow> cursor \<Rightarrow> cursor res" where
  "add_useCandidate pkt = (\<lambda>(buffer, pos).
     if p_hasUseCandidate pkt then
       rbind (write_attr_header buffer pos USE_CANDIDATE 0) (\<lambda>buffer. Ok (buffer, pos + 4))
     else Ok (buffer, pos))"

definition add_xorMappedAddress :: "stun_packet \<Rightarrow> cursor \<Rightarrow> cursor res" where
  "add_xorMappedAddress pkt = (\<lambda>(buffer, pos).
     case addXorMappedAddress pkt of
       Some (AF_INET port addr) \<Rightarrow>
         rbind (write_attr_header buffer pos XOR_MAPPED_ADDRESS 8) (\<lambda>buffer.
         rbind (wr buffer (pos + 4) 0) (\<lambda>buffer.
         rbind (wr buffer (pos + 5) 0x01) (\<lambda>buffer.
         rbind (wr_range buffer (pos + 6) (be_bytes 2 port)) (\<lambda>buffer.
         rbind (xor_range buffer (pos + 6) (take 2 magicCookie)) (\<lambda>buffer.
         rbind (wr_range buffer (pos + 8) (be_bytes 4 addr)) (\<lambda>buffer.
         rbind (xor_range buffer (pos + 8) magicCookie) (\<lambda>buffer.
         Ok (buffer, pos + 4 + 8))))))))
     | Some (AF_INET6 port addr) \<Rightarrow>
         rbind (write_attr_header buffer pos XOR_MAPPED_ADDRESS 20) (\<lambda>buffer.
         rbind (wr buffer (pos + 4) 0) (\<lambda>buffer.
         rbind (wr buffer (pos + 5) 0x02) (\<lambda>buffer.
         rbind (wr_range buffer (pos + 6) (be_bytes 2 port)) (\<lambda>buffer.
         rbind (xor_range buffer (pos + 6) (take 2 magicCookie)) (\<lambda>buffer.
         rbind (wr_range buffer (pos + 8) (be_bytes 16 addr)) (\<lambda>buffer.
         rbind (rd_range (p_transactionId pkt) 0 12) (\<lambda>tid.
         rbind (xor_range buffer (pos + 8) (magicCookie @ tid)) (\<lambda>buffer.
         Ok (buffer, pos + 4 + 20)))))))))
     | _ \<Rightarrow> Ok (buffer, pos))"

definition add_errorCode :: "stun_packet \<Rightarrow> cursor \<Rightarrow> cursor res" where
  "add_errorCode pkt = (\<lambda>(buffer, pos).
     if addErrorCode pkt then
       rbind (write_attr_header buffer pos ERROR_CODE 4) (\<lambda>buffer.
       let codeClass = (ucast (p_errorCode pkt div 100) :: byte);
           codeNumber = (ucast (p_errorCode pkt) - codeClass * 100 :: byte) in
       rbind (Set2Bytes buffer (pos + 4) 0) (\<lambda>buffer.
       rbind (Set1Byte buffer (pos + 6) codeClass) (\<lambda>buffer.
       rbind (Set1Byte buffer (pos + 7) codeNumber) (\<lambda>buffer.
       Ok (buffer, pos + 4 + 4)))))
     else Ok (buffer, pos))"

definition add_messageIntegrity :: "hmac_lib \<Rightarrow> stun_packet \<Rightarrow> cursor \<Rightarrow> cursor res" where
  "add_messageIntegrity lib pkt = (\<lambda>(buffer, pos).
     if addMessageIntegrity pkt then
       rbind (Set2Bytes buffer 2 (word_of_nat (p_size pkt) - 20 - 8)) (\<lambda>buffer.
       rbind (GetHmacShA1 lib (p_password pkt) buffer pos) (\<lambda>computedMessageIntegrity.
       rbind (write_attr_header buffer pos MESSAGE_INTEGRITY 20) (\<lambda>buffer.
       rbind (rd_range computedMessageIntegrity 0 20) (\<lambda>mac.
       rbind (wr_range buffer (pos + 4) mac) (\<lambda>buffer.
       rbind (Set2Bytes buffer 2 (word_of_nat (p_size pkt) - 20)) (\<lambda>buffer.
       Ok (buffer, pos + 4 + 20)))))))
     else Ok (buffer, pos))"

definition add_fingerprint :: "cursor \<Rightarrow> cursor res" where
  "add_fingerprint = (\<lambda>(buffer, pos).
     rbind (GetCRC32 buffer pos) (\<lambda>crc.
     rbind (write_attr_header buffer pos FINGERPRINT 4) (\<lambda>buffer.
     rbind (Set4Bytes buffer (pos + 4) (crc XOR 0x5354554e)) (\<lambda>buffer.
     Ok (buffer, pos + 4 + 4)))))"

text \<open>
  The whole serializer: the updated packet, whose data pointer is the buffer.
\<close>

definition Serialize :: "hmac_lib \<Rightarrow> stun_packet \<Rightarrow> bytes \<Rightarrow> stun_packet res" where
  "Serialize lib pkt0 buffer =
     (let pkt = pkt0\<lparr>p_size := serialized_size pkt0\<rparr> in
      rbind (write_header pkt buffer) (\<lambda>c.
      rbind (add_username pkt c) (\<lambda>c.
      rbind (add_priority pkt c) (\<lambda>c.
      rbind (add_iceControlling pkt c) (\<lambda>c.
      rbind (add_iceControlled pkt c) (\<lambda>c.
      rbind (add_useCandidate pkt c) (\<lambda>c.
      rbind (add_xorMappedAddress pkt c) (\<lambda>c.
      rbind (add_errorCode pkt c) (\<lambda>c.
      let mi = (if addMessageIntegrity pkt then Some (snd c + 4) else None) in
      rbind (add_messageIntegrity lib pkt c) (\<lambda>c.
      rbind (add_fingerprint c) (\<lambda>c.
      rbind (ms_assert (snd c = p_size pkt) ''pos != this->size'') (\<lambda>_.
      Ok (pkt\<lparr>p_data := Some (fst c), p_messageIntegrity := mi,
             p_hasFingerprint := True\<rparr>)))))))))))))"

end
