(* ===== verification/StunParse.thy ===== *)
theory StunParse
  imports StunPacket
begin

text \<open>
  Properties of \<open>StunPacket::Parse\<close>: it reads only inside the buffer and returns for every packet
  shorter than 64 KiB, what the accepted packets look like, and the loop that never ends for larger
  ones. Then \<open>CheckAuthentication\<close>: on parsed packets it never faults, leaves the buffer as it
  was, and accepts exactly the packets whose HMAC matches.
\<close>

section \<open>One attribute\<close>

lemma get2_in_bounds: "i + 2 \<le> length data \<Longrightarrow> \<exists>v. Get2Bytes data i = Inr v"
  by (simp add: u16.get_in_bounds)

lemma IsStun_eq:
  assumes "len \<le> length data"
  shows "IsStun data len = Inr (20 \<le> len \<and> data ! 0 < 3 \<and> take 4 (drop 4 data) = magicCookie)"
proof (cases "20 \<le> len")
  case True
  with assms have b: "0 < length data" "4 < length data" "5 < length data" "6 < length data" "7 < length data"
    by auto
  have "take 4 (drop 4 data) = [data ! 4, data ! 5, data ! 6, data ! 7]"
    using True assms by (simp add: take_drop_nth upt_literals)
  then show ?thesis using True b by (simp add: IsStun_def magicCookie_def del: One_nat_def)
next
  case False
  then show ?thesis by (simp add: IsStun_def)
qed

lemma parse_attr_value_total:
  assumes "ps_pos st + 4 + unat attrLength \<le> length data"
  shows "\<exists>r. parse_attr_value data attrType attrLength st = Inr r"
proof -
  have "\<not> attrLength < 4 \<Longrightarrow> 4 \<le> unat attrLength"
    by (simp add: word_less_nat_alt)
  then show ?thesis using assms
    by (auto simp: parse_attr_value_def Let_def u32.get_in_bounds u64.get_in_bounds u8.get_in_bounds)
qed

lemma parse_attribute_total:
  assumes "ps_pos st + 4 \<le> len" and "len \<le> length data"
  shows "\<exists>r. parse_attribute data len st = Inr r"
proof -
  from assms obtain t where t: "Get2Bytes data (ps_pos st) = Inr t"
    using get2_in_bounds [of "ps_pos st" data] by auto
  from assms obtain l where l: "Get2Bytes data (ps_pos st + 2) = Inr l"
    using get2_in_bounds [of "ps_pos st + 2" data] by auto
  show ?thesis
  proof (cases "ps_pos st + 4 + unat l > len")
    case True
    with t l show ?thesis by (simp add: parse_attribute_def)
  next
    case False
    with assms obtain r where "parse_attr_value data t l st = Inr r"
      using parse_attr_value_total [of st l data t] by auto
    with t l show ?thesis by (auto simp: parse_attribute_def split: option.split)
  qed
qed

text \<open>The next position, for buffers in which the 16-bit truncation has no effect.\<close>

definition next_pos :: "nat \<Rightarrow> uint16 \<Rightarrow> nat" where
  "next_pos pos attrLength = 4 * ((pos + 4 + unat attrLength + 3) div 4)"

lemma pad_next_pos:
  assumes "pos + 4 + unat attrLength \<le> len" "len \<le> 65532"
  shows "unat (PadTo4Bytes (word_of_nat (pos + 4 + unat attrLength))) = next_pos pos attrLength"
proof -
  have "unat (word_of_nat (pos + 4 + unat attrLength) :: uint16) = pos + 4 + unat attrLength"
    using assms by (intro unat_of_nat_u16_small) simp
  moreover have "4 * ((pos + 4 + unat attrLength + 3) div 4) < 65536" using assms by presburger
  ultimately show ?thesis by (simp add: unat_PadTo4Bytes next_pos_def)
qed

lemma next_pos_greater: "pos + 4 \<le> next_pos pos attrLength"
  unfolding next_pos_def by presburger

lemma next_pos_aligned: "next_pos pos attrLength mod 4 = 0"
  by (simp add: next_pos_def)

lemma next_pos_exact:
  "pos mod 4 = 0 \<Longrightarrow> unat attrLength mod 4 = 0 \<Longrightarrow> next_pos pos attrLength = pos + 4 + unat attrLength"
  unfolding next_pos_def by presburger

lemma parse_attribute_cases:
  assumes "parse_attribute data len st = Inr (Some st')" and "len \<le> 65532"
  obtains attrType attrLength st1 where
    "Get2Bytes data (ps_pos st) = Inr attrType"
    "Get2Bytes data (ps_pos st + 2) = Inr attrLength"
    "ps_pos st + 4 + unat attrLength \<le> len"
    "\<not> ps_hasFingerprint st"
    "ps_hasMessageIntegrity st \<Longrightarrow> attrType = Attribute_code FINGERPRINT"
    "parse_attr_value data attrType attrLength st = Inr (Some st1)"
    "st' = st1\<lparr>ps_pos := next_pos (ps_pos st) attrLength\<rparr>"
proof -
  from assms(1) obtain attrType attrLength st1 where
    c: "Get2Bytes data (ps_pos st) = Inr attrType"
    "Get2Bytes data (ps_pos st + 2) = Inr attrLength"
    "ps_pos st + 4 + unat attrLength \<le> len"
    "\<not> ps_hasFingerprint st"
    "ps_hasMessageIntegrity st \<Longrightarrow> attrType = Attribute_code FINGERPRINT"
    "parse_attr_value data attrType attrLength st = Inr (Some st1)"
    and "st' = st1\<lparr>ps_pos := unat (PadTo4Bytes (word_of_nat (ps_pos st + 4 + unat attrLength)))\<rparr>"
    by (auto simp: parse_attribute_def split: if_splits option.splits)
  then have "st' = st1\<lparr>ps_pos := next_pos (ps_pos st) attrLength\<rparr>"
    by (simp only: pad_next_pos [OF c(3) assms(2)])
  with c that show ?thesis by blast
qed

section \<open>The loop\<close>

lemma parse_attribute_progress:
  assumes "parse_attribute data len st = Inr (Some st')" "len \<le> 65532"
  shows "ps_pos st + 4 \<le> ps_pos st'"
  using assms by (rule parse_attribute_cases) (simp add: next_pos_greater)

lemma parse_loop_total:
  assumes "len \<le> 65532" and "len \<le> length data"
  shows "\<exists>r. parse_loop data len st = Some (Inr r)"
proof (induction "len - ps_pos st" arbitrary: st rule: less_induct)
  case less
  show ?case
  proof (cases "ps_pos st + 4 \<le> len")
    case True
    then obtain r where r: "parse_attribute data len st = Inr r"
      using parse_attribute_total [OF True assms(2)] by blast
    show ?thesis
    proof (cases r)
      case None
      with r True show ?thesis by (simp add: parse_loop.simps [of data len st])
    next
      case (Some st')
      with r have "ps_pos st + 4 \<le> ps_pos st'"
        using parse_attribute_progress assms(1) by blast
      with True have "len - ps_pos st' < len - ps_pos st" by arith
      with less obtain r' where "parse_loop data len st' = Some (Inr r')" by blast
      with r Some True show ?thesis by (simp add: parse_loop.simps [of data len st])
    qed
  next
    case False
    then show ?thesis by (simp add: parse_loop.simps [of data len st])
  qed
qed

text \<open>The invariant rule of the loop.\<close>

lemma parse_loop_invariant:
  assumes ret: "parse_loop data len st = Some (Inr (Some st'))"
    and init: "I st"
    and step: "\<And>s s'. I s \<Longrightarrow> ps_pos s + 4 \<le> len \<Longrightarrow> parse_attribute data len s = Inr (Some s') \<Longrightarrow> I s'"
  shows "I st' \<and> len < ps_pos st' + 4"
proof -
  have "data = data \<and> len = len \<longrightarrow>
      (\<forall>s'. (Inr (Some st') :: parse_state option res) = Inr (Some s') \<longrightarrow> I st \<longrightarrow> I s' \<and> len < ps_pos s' + 4)"
  proof (rule parse_loop.raw_induct
      [where P = "\<lambda>d l s r. d = data \<and> l = len \<longrightarrow>
         (\<forall>s'. r = Inr (Some s') \<longrightarrow> I s \<longrightarrow> I s' \<and> len < ps_pos s' + 4)", OF _ ret], intro impI allI)
    fix f d l s r s'
    assume IH: "\<And>d l s r. f d l s = Some r \<Longrightarrow> d = data \<and> l = len \<longrightarrow>
          (\<forall>s'. r = Inr (Some s') \<longrightarrow> I s \<longrightarrow> I s' \<and> len < ps_pos s' + 4)"
      and "(if ps_pos s + 4 \<le> l
          then case parse_attribute d l s of Inl f \<Rightarrow> Some (Inl f)
            | Inr None \<Rightarrow> Some (Inr None) | Inr (Some st') \<Rightarrow> f d l st'
          else Some (Inr (Some s))) = Some r"
      and "d = data \<and> l = len" "r = Inr (Some s')" "I s"
    then show "I s' \<and> len < ps_pos s' + 4"
      by (fastforce dest: step split: if_splits sum.splits option.splits)
  qed
  with init show ?thesis by simp
qed

section \<open>Parse returns\<close>

definition init_state :: "bytes \<Rightarrow> nat \<Rightarrow> parse_state" where
  "init_state data len =
     \<lparr>ps_pos = 20, ps_hasMessageIntegrity = False, ps_hasFingerprint = False,
      ps_fingerprintAttrPos = 0, ps_fingerprint = 0,
      ps_packet = new_StunPacket (Class_cast (msg_class (data ! 0) (data ! 1)))
        (msg_method (of_be (take 2 data))) (take 12 (drop 8 data)) (Some data) len\<rparr>"

definition header_ok :: "bytes \<Rightarrow> nat \<Rightarrow> bool" where
  "header_ok data len \<longleftrightarrow>
     20 \<le> len \<and> data ! 0 < 3 \<and> take 4 (drop 4 data) = magicCookie \<and>
     unat (of_be (take 2 (drop 2 data)) :: uint16) = len - 20 \<and> len mod 4 = 0"

lemma Parse_eq:
  assumes "len \<le> length data"
  shows "Parse data len =
    (if \<not> header_ok data len then Ok None
     else case parse_loop data len (init_state data len) of
        None \<Rightarrow> Fault Diverges
      | Some r \<Rightarrow> rbind r (\<lambda>s. case s of None \<Rightarrow> Ok None | Some st' \<Rightarrow> parse_finish data len st'))"
proof (cases "20 \<le> len")
  case True
  have "20 \<le> len \<Longrightarrow> unat x = len - 20 \<Longrightarrow> (x AND 3 = 0) = (len mod 4 = 0)" for x :: uint16
    by (simp add: and_3_eq_0_iff) presburger
  moreover have "rd data 0 = Inr (data ! 0)" "rd data 1 = Inr (data ! 1)"
    using True assms by (auto simp: rd_def)
  ultimately show ?thesis using True assms
    by (auto simp: Parse_def IsStun_eq header_ok_def init_state_def u16.get_in_bounds)
next
  case False
  with assms show ?thesis by (simp add: Parse_def IsStun_eq header_ok_def)
qed

lemma header_ok_short: "header_ok data len \<Longrightarrow> len < 65536 \<Longrightarrow> len \<le> 65532"
proof -
  assume "header_ok data len" "len < 65536"
  then have "len mod 4 = 0" "len < 65536" by (simp_all add: header_ok_def)
  then show ?thesis by presburger
qed

section \<open>What Parse accepts\<close>

text \<open>The invariant of the attribute loop.\<close>

definition parse_inv :: "bytes \<Rightarrow> nat \<Rightarrow> parse_state \<Rightarrow> bool" where
  "parse_inv data len s \<longleftrightarrow>
     20 \<le> ps_pos s \<and> ps_pos s mod 4 = 0 \<and>
     p_data (ps_packet s) = Some data \<and> p_size (ps_packet s) = len \<and>
     p_klass (ps_packet s) = Class_cast (msg_class (data ! 0) (data ! 1)) \<and>
     p_method (ps_packet s) = msg_method (of_be (take 2 data)) \<and>
     p_transactionId (ps_packet s) = take 12 (drop 8 data) \<and>
     ps_hasMessageIntegrity s = HasMessageIntegrity (ps_packet s) \<and>
     ps_hasFingerprint s = p_hasFingerprint (ps_packet s) \<and>
     (\<forall>mi. p_messageIntegrity (ps_packet s) = Some mi \<longrightarrow>
        24 \<le> mi \<and> ps_pos s = mi + 20 + (if ps_hasFingerprint s then 8 else 0)) \<and>
     (ps_hasFingerprint s \<longrightarrow>
        20 \<le> ps_fingerprintAttrPos s \<and> ps_pos s = ps_fingerprintAttrPos s + 8 \<and>
        ps_pos s \<le> len \<and>
        Get2Bytes data (ps_fingerprintAttrPos s) = Inr (Attribute_code FINGERPRINT) \<and>
        Get4Bytes data (ps_fingerprintAttrPos s + 4) = Inr (ps_fingerprint s))"

text \<open>What one attribute changes: the fields the invariant speaks about.\<close>

lemma parse_attr_value_frame:
  assumes "parse_attr_value data t l st = Inr (Some st1)"
  shows "p_data (ps_packet st1) = p_data (ps_packet st)"
    and "p_size (ps_packet st1) = p_size (ps_packet st)"
    and "p_klass (ps_packet st1) = p_klass (ps_packet st)"
    and "p_method (ps_packet st1) = p_method (ps_packet st)"
    and "p_transactionId (ps_packet st1) = p_transactionId (ps_packet st)"
  using assms by (simp_all add: parse_attr_value_def Let_def split: if_splits) auto

lemma parse_attr_value_integrity:
  assumes "parse_attr_value data t l st = Inr (Some st1)"
  shows "t = Attribute_code MESSAGE_INTEGRITY \<Longrightarrow>
      unat l = 20 \<and> ps_hasMessageIntegrity st1 \<and> p_messageIntegrity (ps_packet st1) = Some (ps_pos st + 4)"
    and "t \<noteq> Attribute_code MESSAGE_INTEGRITY \<Longrightarrow>
      ps_hasMessageIntegrity st1 = ps_hasMessageIntegrity st \<and>
      p_messageIntegrity (ps_packet st1) = p_messageIntegrity (ps_packet st)"
  using assms by (auto simp: parse_attr_value_def Let_def split: if_splits)

lemma parse_attr_value_fingerprint:
  assumes "parse_attr_value data t l st = Inr (Some st1)"
  shows "t = Attribute_code FINGERPRINT \<Longrightarrow>
      unat l = 4 \<and> ps_hasFingerprint st1 \<and> p_hasFingerprint (ps_packet st1) \<and>
      ps_fingerprintAttrPos st1 = ps_pos st \<and> Get4Bytes data (ps_pos st + 4) = Inr (ps_fingerprint st1)"
    and "t \<noteq> Attribute_code FINGERPRINT \<Longrightarrow>
      ps_hasFingerprint st1 = ps_hasFingerprint st \<and>
      p_hasFingerprint (ps_packet st1) = p_hasFingerprint (ps_packet st)"
  using assms by (auto simp: parse_attr_value_def Let_def split: if_splits)

lemmas parse_attr_value_facts =
  parse_attr_value_frame parse_attr_value_integrity parse_attr_value_fingerprint

lemma parse_inv_step:
  assumes inv: "parse_inv data len s" and small: "len \<le> 65532"
    and step: "parse_attribute data len s = Inr (Some s')"
  shows "parse_inv data len s'"
  using step small
proof (rule parse_attribute_cases)
  fix t l st1
  assume t: "Get2Bytes data (ps_pos s) = Inr t"
    and b: "ps_pos s + 4 + unat l \<le> len"
    and nf: "\<not> ps_hasFingerprint s"
    and mi: "ps_hasMessageIntegrity s \<Longrightarrow> t = Attribute_code FINGERPRINT"
    and v: "parse_attr_value data t l s = Inr (Some st1)"
    and s': "s' = st1\<lparr>ps_pos := next_pos (ps_pos s) l\<rparr>"
  note facts = parse_attr_value_facts [OF v]
  have pos: "20 \<le> ps_pos s" "ps_pos s mod 4 = 0" using inv by (simp_all add: parse_inv_def)
  have np: "20 \<le> next_pos (ps_pos s) l" "next_pos (ps_pos s) l mod 4 = 0"
    using pos next_pos_greater [of "ps_pos s" l] by (simp_all add: next_pos_aligned)
  have ex: "unat l mod 4 = 0 \<Longrightarrow> next_pos (ps_pos s) l = ps_pos s + 4 + unat l"
    using pos by (simp add: next_pos_exact)
  consider "t = Attribute_code MESSAGE_INTEGRITY" | "t = Attribute_code FINGERPRINT"
    | "t \<noteq> Attribute_code MESSAGE_INTEGRITY" "t \<noteq> Attribute_code FINGERPRINT" by blast
  then show ?thesis
  proof cases
    case 1
    then have "t \<noteq> Attribute_code FINGERPRINT" by simp
    with 1 facts inv nf np ex pos show ?thesis
      by (simp add: parse_inv_def s' HasMessageIntegrity_def del: Attribute_code.simps)
  next
    case 2
    then have "t \<noteq> Attribute_code MESSAGE_INTEGRITY" by simp
    with 2 facts inv nf np ex pos b t show ?thesis
      by (simp add: parse_inv_def s' HasMessageIntegrity_def del: Attribute_code.simps)
  next
    case 3
    with mi inv have "p_messageIntegrity (ps_packet s) = None"
      by (auto simp: parse_inv_def HasMessageIntegrity_def)
    with 3 facts inv nf np show ?thesis
      by (simp add: parse_inv_def s' HasMessageIntegrity_def del: Attribute_code.simps)
  qed
qed

lemma parse_inv_init: "20 \<le> len \<Longrightarrow> parse_inv data len (init_state data len)"
  by (simp add: parse_inv_def init_state_def new_StunPacket_def HasMessageIntegrity_def)

text \<open>What the parser guarantees about an accepted packet.\<close>

definition parsed_packet :: "bytes \<Rightarrow> nat \<Rightarrow> stun_packet \<Rightarrow> bool" where
  "parsed_packet data len pkt \<longleftrightarrow>
     header_ok data len \<and>
     p_data pkt = Some data \<and> p_size pkt = len \<and>
     p_klass pkt = Class_cast (msg_class (data ! 0) (data ! 1)) \<and>
     p_method pkt = msg_method (of_be (take 2 data)) \<and>
     p_transactionId pkt = take 12 (drop 8 data) \<and>
     (\<forall>mi. p_messageIntegrity pkt = Some mi \<longrightarrow>
        24 \<le> mi \<and> mi + 20 + (if p_hasFingerprint pkt then 8 else 0) = len) \<and>
     (p_hasFingerprint pkt \<longrightarrow>
        28 \<le> len \<and>
        Get2Bytes data (len - 8) = Inr (Attribute_code FINGERPRINT) \<and>
        Get4Bytes data (len - 4) = Inr (crc32_spec (take (len - 8) data) XOR 0x5354554e))"

lemma parse_finish_parsed:
  assumes inv: "parse_inv data len st" and fin: "parse_finish data len st = Inr (Some pkt)"
    and "len \<le> length data" and "header_ok data len"
  shows "parsed_packet data len pkt"
proof -
  from fin have pos: "ps_pos st = len" and pkt: "pkt = ps_packet st"
    by (auto simp: parse_finish_def split: if_splits)
  show ?thesis
  proof (cases "ps_hasFingerprint st")
    case True
    with inv pos have fp: "ps_fingerprintAttrPos st = len - 8" "28 \<le> len"
      by (auto simp: parse_inv_def)
    with fin True assms(3) have "ps_fingerprint st = crc32_spec (take (len - 8) data) XOR 0x5354554e"
      by (auto simp: parse_finish_def GetCRC32_eq split: if_splits)
    moreover have "len - 8 + 4 = len - 4" using fp by simp
    ultimately show ?thesis using inv pos pkt fp True assms(4)
      by (auto simp: parse_inv_def parsed_packet_def)
  next
    case False
    with inv pos pkt assms(4) show ?thesis by (auto simp: parse_inv_def parsed_packet_def)
  qed
qed

lemma Parse_parsed:
  assumes "Parse data len = Inr (Some pkt)" and "len \<le> length data" and "len < 65536"
  shows "parsed_packet data len pkt"
proof -
  from assms(1,2) have h: "header_ok data len" by (auto simp: Parse_eq split: if_splits)
  then have small: "len \<le> 65532" using assms(3) by (rule header_ok_short)
  from assms(1,2) h obtain st where
    st: "parse_loop data len (init_state data len) = Some (Inr (Some st))"
    and fin: "parse_finish data len st = Inr (Some pkt)"
    by (auto simp: Parse_eq split: option.splits)
  have "parse_inv data len st \<and> len < ps_pos st + 4"
    using st parse_inv_init
    by (rule parse_loop_invariant) (use h small parse_inv_step in \<open>auto simp: header_ok_def\<close>)
  then show ?thesis using parse_finish_parsed fin assms(2) h by blast
qed

lemma Parse_total:
  assumes "len \<le> length data" and "len < 65536"
  shows "\<exists>r. Parse data len = Inr r"
proof (cases "header_ok data len")
  case True
  then have small: "len \<le> 65532" using assms(2) by (rule header_ok_short)
  obtain r where r: "parse_loop data len (init_state data len) = Some (Inr r)"
    using parse_loop_total small assms(1) by blast
  show ?thesis
  proof (cases r)
    case None
    with r True assms(1) show ?thesis by (simp add: Parse_eq)
  next
    case (Some st)
    with r have "parse_loop data len (init_state data len) = Some (Inr (Some st))" by simp
    then have "parse_inv data len st \<and> len < ps_pos st + 4"
      using parse_inv_init
      by (rule parse_loop_invariant) (use True small parse_inv_step in \<open>auto simp: header_ok_def\<close>)
    then have "ps_hasFingerprint st \<Longrightarrow> ps_fingerprintAttrPos st \<le> length data"
      using assms(1) by (auto simp: parse_inv_def)
    with r Some True assms(1) show ?thesis
      by (simp add: Parse_eq parse_finish_def GetCRC32_eq)
  qed
qed (use assms(1) in \<open>simp add: Parse_eq\<close>)

section \<open>A packet on which the loop never ends\<close>

lemma parse_loop_stuck:
  assumes "ps_pos st + 4 \<le> len" and "parse_attribute data len st = Inr (Some st)"
  shows "parse_loop data len st = None"
proof (rule ccontr)
  assume "parse_loop data len st \<noteq> None"
  then obtain r where ret: "parse_loop data len st = Some r" by blast
  have "\<not> (data = data \<and> len = len \<and> st = st)"
  proof (rule parse_loop.raw_induct [where P = "\<lambda>d l s r. \<not> (d = data \<and> l = len \<and> s = st)", OF _ ret])
    fix f d l s r
    assume IH: "\<And>d l s r. f d l s = Some r \<Longrightarrow> \<not> (d = data \<and> l = len \<and> s = st)"
      and eq: "(if ps_pos s + 4 \<le> l
          then case parse_attribute d l s of Inl f \<Rightarrow> Some (Inl f)
            | Inr None \<Rightarrow> Some (Inr None) | Inr (Some st') \<Rightarrow> f d l st'
          else Some (Inr (Some s))) = Some r"
    show "\<not> (d = data \<and> l = len \<and> s = st)"
    proof
      assume "d = data \<and> l = len \<and> s = st"
      with eq assms have "f data len st = Some r" by simp
      then show False using IH by blast
    qed
  qed
  then show False by simp
qed

text \<open>
  The packet is a Binding request whose length field is 65532. Its first attribute has length 65512,
  so that the next position is 65536, which the 16-bit truncation turns into 0; read as an attribute,
  the message header itself then has length 65532 and the next position is 0 again.
\<close>

definition wrapping_packet :: "bytes \<Rightarrow> bool" where
  "wrapping_packet data \<longleftrightarrow>
     65552 \<le> length data \<and> take 8 data = [0x00, 0x01, 0xFF, 0xFC] @ magicCookie \<and>
     take 4 (drop 20 data) = [0x00, 0x00, 0xFF, 0xE8]"

lemma of_be_literals [byte_simps]:
  "of_be [a, b] = (push_bit 8 (ucast a) OR ucast b :: 'a::len word)"
  "of_be [a, b, c, d] =
     (push_bit 24 (ucast a) OR push_bit 16 (ucast b) OR push_bit 8 (ucast c) OR ucast d :: 'a word)"
  by (simp_all add: of_be_Cons) (simp_all add: of_be_def)

lemma parse_attr_value_unknown:
  "parse_attr_value data 0 l st = Inr (Some st)"
  "parse_attr_value data (Attribute_code MAPPED_ADDRESS) l st = Inr (Some st)"
  by (simp_all add: parse_attr_value_def)

lemma parse_attribute_unknown:
  assumes "Get2Bytes data (ps_pos st) = Inr t" "Get2Bytes data (ps_pos st + 2) = Inr l"
    and "ps_pos st + 4 + unat l \<le> len" "\<not> ps_hasFingerprint st" "\<not> ps_hasMessageIntegrity st"
    and "t = 0 \<or> t = Attribute_code MAPPED_ADDRESS"
    and "ps_pos st + 4 + unat l = 65536"
  shows "parse_attribute data len st = Inr (Some (st\<lparr>ps_pos := 0\<rparr>))"
proof -
  have "parse_attr_value data t l st = Inr (Some st)"
    using assms(6) parse_attr_value_unknown by metis
  moreover have "unat (PadTo4Bytes (word_of_nat (ps_pos st + 4 + unat l))) = 0"
    by (simp only: assms(7)) (simp add: PadTo4Bytes_def)
  ultimately show ?thesis
    using assms(1-5) by (simp add: parse_attribute_def del: of_nat_add)
qed

lemma Parse_diverges:
  assumes "wrapping_packet data"
  shows "Parse data 65552 = Fault Diverges"
proof -
  have len: "65552 \<le> length data" and t8: "take 8 data = [0x00, 0x01, 0xFF, 0xFC] @ magicCookie"
    and t20: "take 4 (drop 20 data) = [0x00, 0x00, 0xFF, 0xE8]"
    using assms by (simp_all add: wrapping_packet_def)
  have h: "take 2 data = [0x00, 0x01]" "take 2 (drop 2 data) = [0xFF, 0xFC]"
    "take 4 (drop 4 data) = magicCookie" "data ! 0 = 0"
    using arg_cong [OF t8, of "take 2"] arg_cong [OF t8, of "\<lambda>x. take 2 (drop 2 x)"]
      arg_cong [OF t8, of "\<lambda>x. take 4 (drop 4 x)"] arg_cong [OF t8, of "\<lambda>x. x ! 0"]
    by (simp_all add: drop_take min_def magicCookie_def)
  have a: "take 2 (drop 20 data) = [0x00, 0x00]" "take 2 (drop 22 data) = [0xFF, 0xE8]"
    using arg_cong [OF t20, of "take 2"] arg_cong [OF t20, of "\<lambda>x. take 2 (drop 2 x)"]
    by (simp_all add: drop_take min_def)
  have hdr: "header_ok data 65552" by (simp add: header_ok_def h byte_simps)
  let ?st = "init_state data 65552"
  have g: "Get2Bytes data 0 = Inr 1" "Get2Bytes data 2 = Inr 65532"
    "Get2Bytes data 20 = Inr 0" "Get2Bytes data 22 = Inr 65512"
    using len by (simp_all add: u16.get_in_bounds h a byte_simps)
  have "parse_attribute data 65552 ?st = Inr (Some (?st\<lparr>ps_pos := 0\<rparr>))"
    by (rule parse_attribute_unknown [where t = 0 and l = 65512]) (simp_all add: init_state_def g)
  moreover have "parse_attribute data 65552 (?st\<lparr>ps_pos := 0\<rparr>) = Inr (Some (?st\<lparr>ps_pos := 0, ps_pos := 0\<rparr>))"
    by (rule parse_attribute_unknown [where t = 1 and l = 65532])
      (simp_all add: init_state_def g flip: numeral_2_eq_2)
  then have "parse_loop data 65552 (?st\<lparr>ps_pos := 0\<rparr>) = None"
    by (intro parse_loop_stuck) simp_all
  ultimately have "parse_loop data 65552 ?st = None"
    by (simp add: parse_loop.simps [of data 65552 ?st]) (simp add: init_state_def)
  with hdr len show ?thesis by (simp add: Parse_eq)
qed

section \<open>Authentication of a parsed packet\<close>

text \<open>
  The text a MESSAGE-INTEGRITY value covers according to RFC 5389: the message up to the
  MESSAGE-INTEGRITY attribute, with a length field that counts up to the end of that attribute. The
  value starts at offset \<open>mi\<close>, so the attribute starts at \<open>mi - 4\<close> and ends at
  \<open>mi + 20\<close>, and the length field is \<open>mi\<close>.
\<close>

definition integrity_text :: "bytes \<Rightarrow> nat \<Rightarrow> bytes" where
  "integrity_text data mi = take 2 data @ be_bytes 2 (word_of_nat mi :: uint16) @ drop 4 (take (mi - 4) data)"

lemma take_integrity_text:
  assumes "24 \<le> mi" "mi \<le> length data"
  shows "take (mi - 4) (take 2 data @ be_bytes 2 (word_of_nat mi :: uint16) @ drop 4 data) = integrity_text data mi"
proof -
  have "min (length data) 2 = 2" "mi - 4 - 2 - 2 = mi - 8" "mi - 4 - 4 = mi - 8" using assms by simp_all
  then show ?thesis using assms by (simp add: integrity_text_def drop_take)
qed

lemma header_length_field:
  assumes "header_ok data len" "len \<le> length data"
  shows "Get2Bytes data 2 = Inr (word_of_nat len - 20)"
proof -
  let ?v = "of_be (take 2 (drop 2 data)) :: uint16"
  have "unat ?v = len - 20" "20 \<le> len" using assms(1) by (simp_all add: header_ok_def)
  moreover have "word_of_nat (unat ?v) = ?v" by simp
  ultimately have "?v = word_of_nat (len - 20)" by metis
  with \<open>20 \<le> len\<close> have "?v = word_of_nat len - 20" by (simp add: of_nat_diff)
  with assms(2) \<open>20 \<le> len\<close> show ?thesis by (simp add: u16.get_in_bounds)
qed

lemma check_integrity_parsed:
  assumes pkt: "parsed_packet data len pkt" and "len \<le> length data" and "hmac_ok lib"
    and mi: "p_messageIntegrity pkt = Some mi"
  shows "check_integrity lib pkt password =
    Inr (if take 20 (drop mi data) = hmac_digest lib password (integrity_text data mi)
         then AUTH_OK else UNAUTHORIZED, pkt)"
proof -
  have m: "24 \<le> mi" "mi + 20 + (if p_hasFingerprint pkt then 8 else 0) = len"
    using pkt mi by (simp_all add: parsed_packet_def)
  have d: "p_data pkt = Some data" "p_size pkt = len" "header_ok data len"
    using pkt by (simp_all add: parsed_packet_def)
  have same: "pkt\<lparr>p_data := Some data\<rparr> = pkt" using d(1) by simp
  have get: "Get2Bytes data 2 = Inr (word_of_nat len - 20)"
    using d(3) assms(2) by (rule header_length_field)
  show ?thesis
  proof (cases "p_hasFingerprint pkt")
    case True
    let ?d = "take 2 data @ be_bytes 2 (word_of_nat mi :: uint16) @ drop 4 data"
    have w: "(word_of_nat len - 28 :: uint16) = word_of_nat mi"
      using m True by (simp flip: m(2))
    have set1: "Set2Bytes data 2 (word_of_nat len - 28) = Inr ?d"
      using m assms(2) by (simp add: w u16.set_in_bounds)
    then have set2: "Set2Bytes ?d 2 (word_of_nat len - 20) = Inr data"
      using u16.set_set_restore [OF get, of "word_of_nat len - 28"] by simp
    have len_d: "length ?d = length data" using m assms(2) by simp
    have mac: "take 20 (drop mi ?d) = take 20 (drop mi data)"
      using m assms(2) by simp
    have hm: "GetHmacShA1 lib password ?d (mi - 4) = Inr (hmac_digest lib password (integrity_text data mi))"
      using m assms(2,3) len_d take_integrity_text [of mi data]
      by (simp only: GetHmacShA1_eq)
    show ?thesis
      using True m assms(2) len_d mac
      by (simp add: check_integrity_def mi d set1 set2 hm same)
  next
    case False
    have "be_bytes 2 (word_of_nat mi :: uint16) = take 2 (drop 2 data)"
    proof -
      have "of_be (take 2 (drop 2 data)) = (word_of_nat mi :: uint16)"
        using get m False assms(2) by (simp add: u16.get_in_bounds flip: m(2))
      then show ?thesis using m assms(2) u16.enc_dec [of "take 2 (drop 2 data)"] by simp
    qed
    then have "take 2 data @ be_bytes 2 (word_of_nat mi :: uint16) @ drop 4 data = data"
      by (metis add_2_eq_Suc' append_take_drop_id drop_drop numeral_Bit0 one_add_one plus_nat.add_0 add_Suc_right)
    then have "take (mi - 4) data = integrity_text data mi"
      using m assms(2) take_integrity_text [of mi data] by simp
    with False m assms(2,3) show ?thesis
      by (simp add: check_integrity_def mi d GetHmacShA1_eq same)
  qed
qed

lemma CheckAuthentication_parsed:
  assumes "parsed_packet data len pkt" and "len \<le> length data" and "hmac_ok lib"
  shows "CheckAuthentication lib pkt localUsername localPassword =
    Inr (if p_klass pkt = SUCCESS_RESPONSE \<or> p_klass pkt = ERROR_RESPONSE then BAD_REQUEST else
         case p_messageIntegrity pkt of
           None \<Rightarrow> BAD_REQUEST
         | Some mi \<Rightarrow>
             if p_username pkt = [] then BAD_REQUEST
             else if check_username pkt localUsername \<and>
               take 20 (drop mi data) = hmac_digest lib localPassword (integrity_text data mi)
             then AUTH_OK else UNAUTHORIZED, pkt)"
  using check_integrity_parsed [OF assms]
  by (auto simp: CheckAuthentication_def HasMessageIntegrity_def split: option.split)

lemma check_username_iff:
  "check_username pkt localUsername \<longleftrightarrow> (\<exists>rest. p_username pkt = localUsername @ str '':'' @ rest)"
proof
  assume "check_username pkt localUsername"
  then have l: "length localUsername < length (p_username pkt)"
    and n: "p_username pkt ! length localUsername = of_char (CHR '':'')"
    and t: "take (length localUsername) (p_username pkt) = localUsername"
    by (simp_all add: check_username_def Let_def)
  have "p_username pkt = localUsername @ p_username pkt ! length localUsername
      # drop (Suc (length localUsername)) (p_username pkt)"
    using id_take_nth_drop [OF l] by (simp only: t)
  then show "\<exists>rest. p_username pkt = localUsername @ str '':'' @ rest"
    by (auto simp: n str_def)
next
  assume "\<exists>rest. p_username pkt = localUsername @ str '':'' @ rest"
  then show "check_username pkt localUsername"
    by (auto simp: check_username_def str_def)
qed

end
