(* ===== verification/StunSerialize.thy ===== *)
theory StunSerialize
  imports StunParse
begin

text \<open>
  Properties of \<open>StunPacket::Serialize\<close>. A reference encoder builds the message by appending
  attributes; the serializer, which writes through a cursor into a preallocated buffer and patches the
  length field twice, produces exactly that message. Parsing the message gives the packet back, and a
  request serialized with a password passes the authentication check with that password.
\<close>

section \<open>The reference encoding\<close>

definition attr_header :: "Attribute \<Rightarrow> uint16 \<Rightarrow> bytes" where
  "attr_header a l = be_bytes 2 (Attribute_code a) @ be_bytes 2 l"

definition pad_len :: "stun_packet \<Rightarrow> nat" where
  "pad_len pkt = unat (usernamePaddedLen pkt) - length (p_username pkt)"

text \<open>The padding after the username is whatever the buffer held there.\<close>

definition enc_username :: "stun_packet \<Rightarrow> bytes \<Rightarrow> bytes" where
  "enc_username pkt old =
     (if p_username pkt \<noteq> [] then
        attr_header USERNAME (word_of_nat (length (p_username pkt))) @ p_username pkt @
        take (pad_len pkt) (drop (4 + length (p_username pkt)) old)
      else [])"

definition enc_priority :: "stun_packet \<Rightarrow> bytes" where
  "enc_priority pkt = (if p_priority pkt \<noteq> 0 then attr_header PRIORITY 4 @ be_bytes 4 (p_priority pkt) else [])"

definition enc_iceControlling :: "stun_packet \<Rightarrow> bytes" where
  "enc_iceControlling pkt =
     (if p_iceControlling pkt \<noteq> 0 then attr_header ICE_CONTROLLING 8 @ be_bytes 8 (p_iceControlling pkt) else [])"

definition enc_iceControlled :: "stun_packet \<Rightarrow> bytes" where
  "enc_iceControlled pkt =
     (if p_iceControlled pkt \<noteq> 0 then attr_header ICE_CONTROLLED 8 @ be_bytes 8 (p_iceControlled pkt) else [])"

definition enc_useCandidate :: "stun_packet \<Rightarrow> bytes" where
  "enc_useCandidate pkt = (if p_hasUseCandidate pkt then attr_header USE_CANDIDATE 0 else [])"

text \<open>The value of XOR-MAPPED-ADDRESS: family, and port and address masked with the cookie (and, for
  IPv6, the transaction id).\<close>

definition xor_bytes :: "bytes \<Rightarrow> bytes \<Rightarrow> bytes" where
  "xor_bytes xs ys = map2 (XOR) xs ys"

definition enc_address :: "bytes \<Rightarrow> sockaddr \<Rightarrow> bytes" where
  "enc_address tid addr =
     (case addr of
        AF_INET port a \<Rightarrow>
          [0, 0x01] @ xor_bytes (be_bytes 2 port) (take 2 magicCookie) @ xor_bytes (be_bytes 4 a) magicCookie
      | AF_INET6 port a \<Rightarrow>
          [0, 0x02] @ xor_bytes (be_bytes 2 port) (take 2 magicCookie) @
          xor_bytes (be_bytes 16 a) (magicCookie @ tid)
      | AF_OTHER _ \<Rightarrow> [])"

definition enc_xorMappedAddress :: "stun_packet \<Rightarrow> bytes" where
  "enc_xorMappedAddress pkt =
     (case addXorMappedAddress pkt of
        None \<Rightarrow> []
      | Some addr \<Rightarrow>
          attr_header XOR_MAPPED_ADDRESS (word_of_nat (xor_address_len addr)) @
          enc_address (take 12 (p_transactionId pkt)) addr)"

definition error_class :: "uint16 \<Rightarrow> byte" where
  "error_class code = ucast (code div 100)"

definition error_number :: "uint16 \<Rightarrow> byte" where
  "error_number code = ucast code - error_class code * 100"

definition enc_errorCode :: "stun_packet \<Rightarrow> bytes" where
  "enc_errorCode pkt =
     (if addErrorCode pkt then
        attr_header ERROR_CODE 4 @ [0, 0, error_class (p_errorCode pkt), error_number (p_errorCode pkt)]
      else [])"

text \<open>Everything between the header and MESSAGE-INTEGRITY.\<close>

definition enc_attributes :: "stun_packet \<Rightarrow> bytes \<Rightarrow> bytes" where
  "enc_attributes pkt buffer =
     enc_username pkt (drop 20 buffer) @ enc_priority pkt @ enc_iceControlling pkt @ enc_iceControlled pkt @
     enc_useCandidate pkt @ enc_xorMappedAddress pkt @ enc_errorCode pkt"

definition enc_header :: "stun_packet \<Rightarrow> uint16 \<Rightarrow> bytes" where
  "enc_header pkt l =
     be_bytes 2 (type_field (p_klass pkt) (p_method pkt)) @ be_bytes 2 l @ magicCookie @
     take 12 (p_transactionId pkt)"

definition enc_integrity :: "hmac_lib \<Rightarrow> stun_packet \<Rightarrow> bytes \<Rightarrow> bytes" where
  "enc_integrity lib pkt covered =
     (if addMessageIntegrity pkt then
        attr_header MESSAGE_INTEGRITY 20 @ hmac_digest lib (p_password pkt) covered
      else [])"

definition enc_fingerprint :: "bytes \<Rightarrow> bytes" where
  "enc_fingerprint covered = attr_header FINGERPRINT 4 @ be_bytes 4 (crc32_spec covered XOR 0x5354554e)"

text \<open>The message before the fingerprint, and the whole message.\<close>

definition enc_body :: "hmac_lib \<Rightarrow> stun_packet \<Rightarrow> bytes \<Rightarrow> bytes" where
  "enc_body lib pkt buffer =
     (let sz = word_of_nat (serialized_size pkt); attrs = enc_attributes pkt buffer in
      enc_header pkt (sz - 20) @ attrs @ enc_integrity lib pkt (enc_header pkt (sz - 28) @ attrs))"

definition enc_message :: "hmac_lib \<Rightarrow> stun_packet \<Rightarrow> bytes \<Rightarrow> bytes" where
  "enc_message lib pkt buffer =
     enc_body lib pkt buffer @ enc_fingerprint (enc_body lib pkt buffer)"

text \<open>The packets that can be serialized: a twelve-byte transaction id and a username whose padded
  length fits its 16-bit variable.\<close>

definition serializable :: "stun_packet \<Rightarrow> bool" where
  "serializable pkt \<longleftrightarrow> length (p_transactionId pkt) = 12 \<and> length (p_username pkt) \<le> 65532"

section \<open>Lengths\<close>

lemma length_attr_header [simp]: "length (attr_header a l) = 4"
  by (simp add: attr_header_def)

lemma length_xor_bytes [simp]: "length (xor_bytes xs ys) = min (length xs) (length ys)"
  by (simp add: xor_bytes_def)

lemma length_magicCookie [simp]: "length magicCookie = 4"
  by (simp add: magicCookie_def)

lemma unat_usernamePaddedLen:
  assumes "length (p_username pkt) \<le> 65532"
  shows "unat (usernamePaddedLen pkt) = 4 * ((length (p_username pkt) + 3) div 4)"
proof -
  have "4 * ((length (p_username pkt) + 3) div 4) < 65536" using assms by presburger
  then show ?thesis using assms
    by (simp add: usernamePaddedLen_def unat_PadTo4Bytes unat_of_nat_u16_small)
qed

lemma usernamePaddedLen_facts:
  assumes "length (p_username pkt) \<le> 65532"
  shows "length (p_username pkt) + pad_len pkt = unat (usernamePaddedLen pkt)"
    and "pad_len pkt < 4"
    and "usernamePaddedLen pkt = 0 \<longleftrightarrow> p_username pkt = []"
proof -
  have u: "unat (usernamePaddedLen pkt) = 4 * ((length (p_username pkt) + 3) div 4)"
    using assms by (rule unat_usernamePaddedLen)
  show "length (p_username pkt) + pad_len pkt = unat (usernamePaddedLen pkt)" "pad_len pkt < 4"
    using u by (simp_all add: pad_len_def)
  have "usernamePaddedLen pkt = 0 \<longleftrightarrow> unat (usernamePaddedLen pkt) = 0" by (simp add: unat_0_iff)
  also have "\<dots> \<longleftrightarrow> length (p_username pkt) = 0" unfolding u by presburger
  finally show "usernamePaddedLen pkt = 0 \<longleftrightarrow> p_username pkt = []" by simp
qed

lemma length_enc_username:
  assumes "serializable pkt" and "p_username pkt \<noteq> [] \<Longrightarrow> 4 + unat (usernamePaddedLen pkt) \<le> length old"
  shows "length (enc_username pkt old) =
    (if p_username pkt \<noteq> [] then 4 + unat (usernamePaddedLen pkt) else 0)"
  using assms usernamePaddedLen_facts [of pkt]
  by (auto simp: enc_username_def serializable_def min_def)

lemma addXorMappedAddress_known: "addXorMappedAddress pkt \<noteq> Some (AF_OTHER f)"
  by (simp add: addXorMappedAddress_def split: option.split sockaddr.split)

lemma addXorMappedAddress_cases:
  obtains "addXorMappedAddress pkt = None"
  | port a where "addXorMappedAddress pkt = Some (AF_INET port a)"
  | port a where "addXorMappedAddress pkt = Some (AF_INET6 port a)"
proof (cases "addXorMappedAddress pkt")
  case (Some addr)
  then show ?thesis using that addXorMappedAddress_known by (cases addr) auto
qed (use that in blast)

lemma length_enc_xorMappedAddress:
  assumes "serializable pkt"
  shows "length (enc_xorMappedAddress pkt) =
    (case addXorMappedAddress pkt of None \<Rightarrow> 0 | Some addr \<Rightarrow> 4 + xor_address_len addr)"
  using assms
  by (cases rule: addXorMappedAddress_cases [of pkt])
    (simp_all add: enc_xorMappedAddress_def enc_address_def xor_address_len_def serializable_def)

lemma length_enc_optional:
  "length (enc_priority pkt) = (if p_priority pkt \<noteq> 0 then 4 + 4 else 0)"
  "length (enc_iceControlling pkt) = (if p_iceControlling pkt \<noteq> 0 then 4 + 8 else 0)"
  "length (enc_iceControlled pkt) = (if p_iceControlled pkt \<noteq> 0 then 4 + 8 else 0)"
  "length (enc_useCandidate pkt) = (if p_hasUseCandidate pkt then 4 else 0)"
  "length (enc_errorCode pkt) = (if addErrorCode pkt then 4 + 4 else 0)"
  by (simp_all add: enc_priority_def enc_iceControlling_def enc_iceControlled_def enc_useCandidate_def
      enc_errorCode_def)

lemma length_enc_header: "serializable pkt \<Longrightarrow> length (enc_header pkt l) = 20"
  by (simp add: enc_header_def serializable_def)

lemma length_enc_integrity:
  "hmac_ok lib \<Longrightarrow> length (enc_integrity lib pkt t) = (if addMessageIntegrity pkt then 4 + 20 else 0)"
  by (simp add: enc_integrity_def length_hmac_digest)

lemma length_enc_fingerprint [simp]: "length (enc_fingerprint t) = 8"
  by (simp add: enc_fingerprint_def)

lemma serialized_size_attributes:
  assumes "serializable pkt" and "serialized_size pkt \<le> length buffer"
  shows "serialized_size pkt =
    20 + length (enc_attributes pkt buffer) + (if addMessageIntegrity pkt then 4 + 20 else 0) + 8"
proof -
  have "p_username pkt \<noteq> [] \<Longrightarrow> 4 + unat (usernamePaddedLen pkt) \<le> length (drop 20 buffer)"
    using assms(2) by (simp add: serialized_size_def)
  then show ?thesis
    using assms(1) length_enc_username [of pkt "drop 20 buffer"]
    by (simp add: serialized_size_def enc_attributes_def length_enc_optional length_enc_xorMappedAddress)
qed

lemma length_enc_message:
  assumes "serializable pkt" and "serialized_size pkt \<le> length buffer" and "hmac_ok lib"
  shows "length (enc_body lib pkt buffer) = serialized_size pkt - 8"
    and "length (enc_message lib pkt buffer) = serialized_size pkt"
    and "28 \<le> serialized_size pkt"
  using serialized_size_attributes [OF assms(1,2)] assms(1,3)
  by (simp_all add: enc_message_def enc_body_def length_enc_header length_enc_integrity Let_def)

section \<open>The serializer writes the reference encoding\<close>

lemma wr_extend: "rest \<noteq> [] \<Longrightarrow> i = length out \<Longrightarrow> wr (out @ rest) i v = Inr ((out @ [v]) @ drop 1 rest)"
  using wr_range_extend [of "[v]" rest out] by (simp add: wr_range_single Suc_le_eq)

lemma xor_range_append:
  "length old = length ks \<Longrightarrow>
   xor_range (out @ old @ post) (length out) ks = Inr (out @ xor_bytes old ks @ post)"
proof (induction ks arbitrary: out old)
  case Nil
  then show ?case by (simp add: xor_bytes_def)
next
  case (Cons k ks)
  from Cons.prems obtain x old' where old: "old = x # old'" "length old' = length ks"
    by (cases old) auto
  have "xor_range ((out @ [x XOR k]) @ old' @ post) (length (out @ [x XOR k])) ks
      = Inr ((out @ [x XOR k]) @ xor_bytes old' ks @ post)"
    using old(2) by (rule Cons.IH)
  then show ?case by (simp add: old rd_def wr_def xor_bytes_def)
qed

lemma write_attr_header_extend:
  "4 \<le> length rest \<Longrightarrow> i = length out \<Longrightarrow>
   write_attr_header (out @ rest) i a l = Inr ((out @ attr_header a l) @ drop 4 rest)"
  using u16.set_extend [of rest i out "Attribute_code a"]
    u16.set_extend [of "drop 2 rest" "i + 2" "out @ be_bytes 2 (Attribute_code a)" l]
  by (simp add: write_attr_header_def attr_header_def)

text \<open>
  A cursor state is the written prefix followed by the rest of the buffer. The statement that a block
  of the serializer appends \<open>bs\<close> to the prefix:
\<close>

definition appends :: "(cursor \<Rightarrow> cursor res) \<Rightarrow> bytes \<Rightarrow> bytes \<Rightarrow> bytes \<Rightarrow> bool" where
  "appends block out rest bs \<longleftrightarrow>
     block (out @ rest, length out) = Inr ((out @ bs) @ drop (length bs) rest, length (out @ bs))"

lemma add_username_appends:
  assumes "serializable pkt" and room: "p_username pkt \<noteq> [] \<Longrightarrow> 4 + unat (usernamePaddedLen pkt) \<le> length rest"
  shows "appends (add_username pkt) out rest (enc_username pkt rest)"
proof (cases "p_username pkt = []")
  case True
  then show ?thesis
    by (simp add: appends_def add_username_def enc_username_def usernamePaddedLen_def)
next
  case False
  let ?u = "p_username pkt" and ?h = "attr_header USERNAME (word_of_nat (length (p_username pkt)))"
  have f: "length ?u + pad_len pkt = unat (usernamePaddedLen pkt)" "usernamePaddedLen pkt \<noteq> 0"
    using assms(1) usernamePaddedLen_facts [of pkt] False by (simp_all add: serializable_def)
  have r: "4 + (length ?u + pad_len pkt) \<le> length rest" using room False f(1) by simp
  have w: "wr_range (out @ ?h @ drop 4 rest) (length out + 4) ?u
      = Inr (out @ ?h @ ?u @ drop (4 + length ?u) rest)"
    using wr_range_extend [of ?u "drop 4 rest" "out @ ?h"] r by (simp add: add.commute)
  have d: "take (pad_len pkt) (drop (4 + length ?u) rest) @ drop (4 + (length ?u + pad_len pkt)) rest
      = drop (4 + length ?u) rest"
    using append_take_drop_id [of "pad_len pkt" "drop (4 + length ?u) rest"] by (simp add: ac_simps)
  have l: "length (enc_username pkt rest) = 4 + (length ?u + pad_len pkt)"
    using False r by (simp add: enc_username_def)
  have "add_username pkt (out @ rest, length out)
      = Inr (out @ ?h @ ?u @ drop (4 + length ?u) rest, length out + 4 + (length ?u + pad_len pkt))"
    using f r w by (simp add: add_username_def write_attr_header_extend)
  then show ?thesis
    unfolding appends_def l using False d r by (simp add: enc_username_def l)
qed

lemma add_fixed_appends:
  "length (enc_priority pkt) \<le> length rest \<Longrightarrow> appends (add_priority pkt) out rest (enc_priority pkt)"
  "length (enc_iceControlling pkt) \<le> length rest \<Longrightarrow>
    appends (add_iceControlling pkt) out rest (enc_iceControlling pkt)"
  "length (enc_iceControlled pkt) \<le> length rest \<Longrightarrow>
    appends (add_iceControlled pkt) out rest (enc_iceControlled pkt)"
  "length (enc_useCandidate pkt) \<le> length rest \<Longrightarrow>
    appends (add_useCandidate pkt) out rest (enc_useCandidate pkt)"
  using u32.set_extend [of "drop 4 rest" "length out + 4" "out @ attr_header PRIORITY 4" "p_priority pkt"]
    u64.set_extend [of "drop 4 rest" "length out + 4" "out @ attr_header ICE_CONTROLLING 8" "p_iceControlling pkt"]
    u64.set_extend [of "drop 4 rest" "length out + 4" "out @ attr_header ICE_CONTROLLED 8" "p_iceControlled pkt"]
  by (auto simp: appends_def add_priority_def enc_priority_def add_iceControlling_def enc_iceControlling_def
      add_iceControlled_def enc_iceControlled_def add_useCandidate_def enc_useCandidate_def
      write_attr_header_extend)

lemma add_errorCode_appends:
  assumes "length (enc_errorCode pkt) \<le> length rest"
  shows "appends (add_errorCode pkt) out rest (enc_errorCode pkt)"
proof (cases "addErrorCode pkt")
  case True
  let ?h = "attr_header ERROR_CODE 4" and ?c = "error_class (p_errorCode pkt)"
    and ?n = "error_number (p_errorCode pkt)"
  let ?o1 = "out @ ?h" let ?o2 = "?o1 @ [0, 0]" let ?o3 = "?o2 @ [?c]"
  have r: "8 \<le> length rest" using assms True by (simp add: enc_errorCode_def)
  have "be_bytes 2 (0 :: uint16) = [0, 0]" by (simp add: byte_simps)
  then have "Set2Bytes (?o1 @ drop 4 rest) (length out + 4) 0 = Inr (?o2 @ drop 6 rest)"
    using u16.set_extend [of "drop 4 rest" "length out + 4" ?o1 0] r by simp
  moreover have "Set1Byte (?o2 @ drop 6 rest) (length out + 6) ?c = Inr (?o3 @ drop 7 rest)"
    using u8.set_extend [of "drop 6 rest" "length out + 6" ?o2 ?c] r by (simp add: byte_simps del: One_nat_def)
  moreover have "Set1Byte (?o3 @ drop 7 rest) (length out + 7) ?n = Inr ((?o3 @ [?n]) @ drop 8 rest)"
    using u8.set_extend [of "drop 7 rest" "length out + 7" ?o3 ?n] r by (simp add: byte_simps del: One_nat_def)
  moreover have "write_attr_header (out @ rest) (length out) ERROR_CODE 4 = Inr (?o1 @ drop 4 rest)"
    using r by (simp add: write_attr_header_extend)
  ultimately show ?thesis using True
    by (simp add: appends_def add_errorCode_def enc_errorCode_def error_number_def error_class_def Let_def)
qed (simp add: appends_def add_errorCode_def enc_errorCode_def)

text \<open>Writing a value and masking it in place, as the address attribute does.\<close>

lemma wr_xor_extend:
  assumes "length bs \<le> length rest" "length ks = length bs" "i = length out"
  shows "rbind (wr_range (out @ rest) i bs) (\<lambda>b. rbind (xor_range b i ks) k)
    = k ((out @ xor_bytes bs ks) @ drop (length bs) rest)"
  using xor_range_append [of bs ks out "drop (length bs) rest"] assms
  by (simp add: wr_range_extend)

lemma address_prefix_extend:
  assumes "8 \<le> length rest" "i = length out"
  shows "rbind (write_attr_header (out @ rest) i XOR_MAPPED_ADDRESS l) (\<lambda>buffer.
      rbind (wr buffer (i + 4) 0) (\<lambda>buffer. rbind (wr buffer (i + 5) f) (\<lambda>buffer.
      rbind (wr_range buffer (i + 6) (be_bytes 2 port)) (\<lambda>buffer.
      rbind (xor_range buffer (i + 6) (take 2 magicCookie)) k))))
    = k ((out @ attr_header XOR_MAPPED_ADDRESS l @ [0, f] @
          xor_bytes (be_bytes 2 port) (take 2 magicCookie)) @ drop 8 rest)"
proof -
  let ?o1 = "out @ attr_header XOR_MAPPED_ADDRESS l"
  let ?o2 = "?o1 @ [0]" let ?o3 = "?o2 @ [f]"
  have "wr (?o1 @ drop 4 rest) (i + 4) 0 = Inr (?o2 @ drop 5 rest)"
    using wr_extend [of "drop 4 rest" "i + 4" ?o1 0] assms by simp
  moreover have "wr (?o2 @ drop 5 rest) (i + 5) f = Inr (?o3 @ drop 6 rest)"
    using wr_extend [of "drop 5 rest" "i + 5" ?o2 f] assms by simp
  moreover have "rbind (wr_range (?o3 @ drop 6 rest) (i + 6) (be_bytes 2 port)) (\<lambda>b.
      rbind (xor_range b (i + 6) (take 2 magicCookie)) k)
      = k ((?o3 @ xor_bytes (be_bytes 2 port) (take 2 magicCookie)) @ drop 8 rest)"
    using wr_xor_extend [of "be_bytes 2 port" "drop 6 rest" "take 2 magicCookie" "i + 6" ?o3 k] assms by simp
  ultimately show ?thesis using assms by (simp add: write_attr_header_extend)
qed

lemma add_xorMappedAddress_appends:
  assumes "serializable pkt" "length (enc_xorMappedAddress pkt) \<le> length rest"
  shows "appends (add_xorMappedAddress pkt) out rest (enc_xorMappedAddress pkt)"
proof (cases rule: addXorMappedAddress_cases [of pkt])
  case 1
  then show ?thesis by (simp add: appends_def add_xorMappedAddress_def enc_xorMappedAddress_def)
next
  case (2 port a)
  let ?p = "out @ attr_header XOR_MAPPED_ADDRESS 8 @ [0, 0x01] @ xor_bytes (be_bytes 2 port) (take 2 magicCookie)"
  have r: "12 \<le> length rest"
    using assms 2 by (simp add: length_enc_xorMappedAddress xor_address_len_def)
  have "rbind (wr_range (?p @ drop 8 rest) (length out + 8) (be_bytes 4 a)) (\<lambda>b.
      rbind (xor_range b (length out + 8) magicCookie) (\<lambda>b. Ok (b, length out + 4 + 8)))
    = Ok ((?p @ xor_bytes (be_bytes 4 a) magicCookie) @ drop 12 rest, length out + 4 + 8)"
    by (subst wr_xor_extend [where out = ?p]) (use r in simp_all)
  with 2 r show ?thesis
    by (simp add: appends_def add_xorMappedAddress_def address_prefix_extend enc_xorMappedAddress_def
        enc_address_def xor_address_len_def del: rbind_eq_Inr)
next
  case (3 port a)
  let ?p = "out @ attr_header XOR_MAPPED_ADDRESS 20 @ [0, 0x02] @ xor_bytes (be_bytes 2 port) (take 2 magicCookie)"
  have r: "24 \<le> length rest" "length (p_transactionId pkt) = 12"
    using assms 3 by (simp_all add: length_enc_xorMappedAddress xor_address_len_def serializable_def)
  have "rbind (wr_range (?p @ drop 8 rest) (length out + 8) (be_bytes 16 a)) (\<lambda>b.
      rbind (xor_range b (length out + 8) (magicCookie @ p_transactionId pkt)) (\<lambda>b. Ok (b, length out + 4 + 20)))
    = Ok ((?p @ xor_bytes (be_bytes 16 a) (magicCookie @ p_transactionId pkt)) @ drop 24 rest, length out + 4 + 20)"
    by (subst wr_xor_extend [where out = ?p]) (use r in simp_all)
  with 3 r show ?thesis
    by (simp add: appends_def add_xorMappedAddress_def address_prefix_extend enc_xorMappedAddress_def
        enc_address_def xor_address_len_def del: rbind_eq_Inr)
qed

lemma write_header_eq:
  assumes "serializable pkt" "20 \<le> length buffer"
  shows "write_header pkt buffer = Inr (enc_header pkt (word_of_nat (p_size pkt) - 20) @ drop 20 buffer, 20)"
proof -
  let ?t = "be_bytes 2 (type_field (p_klass pkt) (p_method pkt))"
  let ?l = "be_bytes 2 (word_of_nat (p_size pkt) - 20 :: uint16)"
  have "Set2Bytes buffer 0 (type_field (p_klass pkt) (p_method pkt)) = Inr (?t @ drop 2 buffer)"
    using u16.set_extend [of buffer 0 "[]"] assms by simp
  moreover have "Set2Bytes (?t @ drop 2 buffer) 2 (word_of_nat (p_size pkt) - 20) = Inr (?t @ ?l @ drop 4 buffer)"
    using u16.set_extend [of "drop 2 buffer" 2 ?t] assms by simp
  moreover have "wr_range (?t @ ?l @ drop 4 buffer) 4 magicCookie = Inr (?t @ ?l @ magicCookie @ drop 8 buffer)"
    using wr_range_extend [of magicCookie "drop 4 buffer" "?t @ ?l"] assms by simp
  moreover have "wr_range (?t @ ?l @ magicCookie @ drop 8 buffer) 8 (p_transactionId pkt)
      = Inr (?t @ ?l @ magicCookie @ p_transactionId pkt @ drop 20 buffer)"
    using wr_range_extend [of "p_transactionId pkt" "drop 8 buffer" "?t @ ?l @ magicCookie"] assms
    by (simp add: serializable_def)
  ultimately show ?thesis using assms
    by (simp add: write_header_def enc_header_def serializable_def)
qed

lemma set_length_field:
  "Set2Bytes (enc_header pkt l @ rest) 2 l' = Inr (enc_header pkt l' @ rest)"
  using u16.set_append [of "be_bytes 2 l" 2 "be_bytes 2 (type_field (p_klass pkt) (p_method pkt))"
      "magicCookie @ take 12 (p_transactionId pkt) @ rest" l']
  by (simp add: enc_header_def)

lemma add_messageIntegrity_appends:
  fixes attrs :: bytes and pkt :: stun_packet
  defines "sz \<equiv> word_of_nat (p_size pkt) :: uint16"
  assumes "serializable pkt" "hmac_ok lib" "addMessageIntegrity pkt \<Longrightarrow> 24 \<le> length rest"
  shows "appends (add_messageIntegrity lib pkt) (enc_header pkt (sz - 20) @ attrs) rest
    (enc_integrity lib pkt (enc_header pkt (sz - 28) @ attrs))"
proof (cases "addMessageIntegrity pkt")
  case True
  let ?o = "enc_header pkt (sz - 20) @ attrs" and ?o' = "enc_header pkt (sz - 28) @ attrs"
  let ?h = "attr_header MESSAGE_INTEGRITY 20" and ?m = "hmac_digest lib (p_password pkt) (enc_header pkt (sz - 28) @ attrs)"
  have len: "length ?o = 20 + length attrs" "length ?o' = 20 + length attrs" "length ?m = 20" "24 \<le> length rest"
    using assms(2-4) True by (simp_all add: length_enc_header length_hmac_digest)
  have "Set2Bytes (?o @ rest) 2 (sz - 28) = Inr (?o' @ rest)"
    using set_length_field [of pkt "sz - 20" "attrs @ rest"] by simp
  moreover have "GetHmacShA1 lib (p_password pkt) (?o' @ rest) (20 + length attrs) = Inr ?m"
    using assms(3) len by (simp add: GetHmacShA1_eq)
  moreover have "write_attr_header (?o' @ rest) (20 + length attrs) MESSAGE_INTEGRITY 20 = Inr ((?o' @ ?h) @ drop 4 rest)"
    using len by (simp only: write_attr_header_extend)
  moreover have "wr_range ((?o' @ ?h) @ drop 4 rest) (24 + length attrs) ?m = Inr ((?o' @ ?h @ ?m) @ drop 24 rest)"
    using wr_range_extend [of ?m "drop 4 rest" "?o' @ ?h"] len by simp
  moreover have "Set2Bytes ((?o' @ ?h @ ?m) @ drop 24 rest) 2 (sz - 20) = Inr ((?o @ ?h @ ?m) @ drop 24 rest)"
    using set_length_field [of pkt "sz - 28" "attrs @ ?h @ ?m @ drop 24 rest"] by simp
  ultimately show ?thesis using True len
    by (simp add: appends_def add_messageIntegrity_def enc_integrity_def sz_def [symmetric])
qed (simp add: appends_def add_messageIntegrity_def enc_integrity_def)

lemma add_fingerprint_appends:
  assumes "8 \<le> length rest"
  shows "appends add_fingerprint out rest (enc_fingerprint out)"
proof -
  let ?o = "out @ attr_header FINGERPRINT 4"
  have "Set4Bytes (?o @ drop 4 rest) (length out + 4) (crc32_spec out XOR 0x5354554e)
      = Inr ((?o @ be_bytes 4 (crc32_spec out XOR 0x5354554e)) @ drop 8 rest)"
    using u32.set_extend [of "drop 4 rest" "length out + 4" ?o] assms by simp
  then show ?thesis using assms
    by (simp add: appends_def add_fingerprint_def enc_fingerprint_def GetCRC32_eq write_attr_header_extend)
qed

lemma add_size_independent [simp]:
  "addMessageIntegrity (pkt\<lparr>p_size := n\<rparr>) = addMessageIntegrity pkt"
  "addErrorCode (pkt\<lparr>p_size := n\<rparr>) = addErrorCode pkt"
  "addXorMappedAddress (pkt\<lparr>p_size := n\<rparr>) = addXorMappedAddress pkt"
  "usernamePaddedLen (pkt\<lparr>p_size := n\<rparr>) = usernamePaddedLen pkt"
  "pad_len (pkt\<lparr>p_size := n\<rparr>) = pad_len pkt"
  "serializable (pkt\<lparr>p_size := n\<rparr>) = serializable pkt"
  by (simp_all add: addMessageIntegrity_def addErrorCode_def addXorMappedAddress_def pad_len_def
      usernamePaddedLen_def serializable_def)

lemma enc_size_independent [simp]:
  "enc_username (pkt\<lparr>p_size := n\<rparr>) old = enc_username pkt old"
  "enc_priority (pkt\<lparr>p_size := n\<rparr>) = enc_priority pkt"
  "enc_iceControlling (pkt\<lparr>p_size := n\<rparr>) = enc_iceControlling pkt"
  "enc_iceControlled (pkt\<lparr>p_size := n\<rparr>) = enc_iceControlled pkt"
  "enc_useCandidate (pkt\<lparr>p_size := n\<rparr>) = enc_useCandidate pkt"
  "enc_xorMappedAddress (pkt\<lparr>p_size := n\<rparr>) = enc_xorMappedAddress pkt"
  "enc_errorCode (pkt\<lparr>p_size := n\<rparr>) = enc_errorCode pkt"
  "enc_header (pkt\<lparr>p_size := n\<rparr>) l = enc_header pkt l"
  "enc_integrity lib (pkt\<lparr>p_size := n\<rparr>) t = enc_integrity lib pkt t"
  by (simp_all add: enc_username_def enc_priority_def enc_iceControlling_def
      enc_iceControlled_def enc_useCandidate_def enc_xorMappedAddress_def enc_errorCode_def enc_header_def
      enc_integrity_def cong: option.case_cong)

lemma enc_attributes_size [simp]: "enc_attributes (pkt\<lparr>p_size := n\<rparr>) buffer = enc_attributes pkt buffer"
  by (simp add: enc_attributes_def)

text \<open>The blocks between header and MESSAGE-INTEGRITY, in sequence.\<close>

definition add_attributes :: "stun_packet \<Rightarrow> cursor \<Rightarrow> cursor res" where
  "add_attributes pkt c =
     rbind (add_username pkt c) (\<lambda>c.
     rbind (add_priority pkt c) (\<lambda>c.
     rbind (add_iceControlling pkt c) (\<lambda>c.
     rbind (add_iceControlled pkt c) (\<lambda>c.
     rbind (add_useCandidate pkt c) (\<lambda>c.
     rbind (add_xorMappedAddress pkt c) (\<lambda>c.
     add_errorCode pkt c))))))"

lemma Serialize_grouped:
  "Serialize lib pkt0 buffer =
     (let pkt = pkt0\<lparr>p_size := serialized_size pkt0\<rparr> in
      rbind (write_header pkt buffer) (\<lambda>c.
      rbind (add_attributes pkt c) (\<lambda>c.
      let mi = (if addMessageIntegrity pkt then Some (snd c + 4) else None) in
      rbind (add_messageIntegrity lib pkt c) (\<lambda>c.
      rbind (add_fingerprint c) (\<lambda>c.
      rbind (ms_assert (snd c = p_size pkt) ''pos != this->size'') (\<lambda>_.
      Ok (pkt\<lparr>p_data := Some (fst c), p_messageIntegrity := mi, p_hasFingerprint := True\<rparr>)))))))"
  by (simp only: Serialize_def add_attributes_def rbind_assoc Let_def)

lemma add_attributes_appends:
  assumes s: "serializable pkt" and room: "length (enc_attributes pkt buffer) \<le> length rest"
    and user: "p_username pkt \<noteq> [] \<Longrightarrow> 4 + unat (usernamePaddedLen pkt) \<le> length rest"
    and rest: "rest = drop 20 buffer"
  shows "appends (add_attributes pkt) out rest (enc_attributes pkt buffer)"
proof -
  let ?u = "enc_username pkt rest" and ?p = "enc_priority pkt" and ?g = "enc_iceControlling pkt"
    and ?d = "enc_iceControlled pkt" and ?c = "enc_useCandidate pkt" and ?x = "enc_xorMappedAddress pkt"
    and ?e = "enc_errorCode pkt"
  have l: "length ?u + length ?p + length ?g + length ?d + length ?c + length ?x + length ?e \<le> length rest"
    using room by (simp add: enc_attributes_def rest)
  note a = add_username_appends [OF s user, of out, unfolded appends_def]
    add_fixed_appends(1) [of pkt "drop (length ?u) rest" "out @ ?u", unfolded appends_def]
    add_fixed_appends(2) [of pkt "drop (length (?u @ ?p)) rest" "out @ ?u @ ?p", unfolded appends_def]
    add_fixed_appends(3) [of pkt "drop (length (?u @ ?p @ ?g)) rest" "out @ ?u @ ?p @ ?g", unfolded appends_def]
    add_fixed_appends(4) [of pkt "drop (length (?u @ ?p @ ?g @ ?d)) rest" "out @ ?u @ ?p @ ?g @ ?d", unfolded appends_def]
    add_xorMappedAddress_appends [OF s, of "drop (length (?u @ ?p @ ?g @ ?d @ ?c)) rest" "out @ ?u @ ?p @ ?g @ ?d @ ?c",
      unfolded appends_def]
    add_errorCode_appends [of pkt "drop (length (?u @ ?p @ ?g @ ?d @ ?c @ ?x)) rest" "out @ ?u @ ?p @ ?g @ ?d @ ?c @ ?x",
      unfolded appends_def]
  show ?thesis using a l by (simp add: appends_def add_attributes_def enc_attributes_def rest [symmetric] ac_simps)
qed

lemma Serialize_eq:
  assumes s: "serializable pkt" and room: "serialized_size pkt \<le> length buffer" and lib: "hmac_ok lib"
  shows "Serialize lib pkt buffer =
    Inr (pkt\<lparr>p_size := serialized_size pkt,
      p_data := Some (enc_message lib pkt buffer @ drop (serialized_size pkt) buffer),
      p_messageIntegrity :=
        (if addMessageIntegrity pkt then Some (length (enc_attributes pkt buffer) + 24) else None),
      p_hasFingerprint := True\<rparr>)"
proof -
  let ?pkt = "pkt\<lparr>p_size := serialized_size pkt\<rparr>" and ?rest = "drop 20 buffer"
  let ?sz = "word_of_nat (serialized_size pkt) :: uint16"
  let ?a = "enc_attributes pkt buffer" and ?h = "enc_header pkt (?sz - 20)"
  let ?i = "enc_integrity lib pkt (enc_header pkt (?sz - 28) @ ?a)"
  have sz: "serialized_size pkt = 20 + length ?a + length ?i + 8"
    using serialized_size_attributes [OF s room] lib by (simp add: length_enc_integrity)
  have body: "enc_body lib pkt buffer = (?h @ ?a) @ ?i" by (simp add: enc_body_def Let_def)
  have lens: "length ?a \<le> length ?rest" "8 \<le> length (drop (length ?i) (drop (length ?a) ?rest))"
    "addMessageIntegrity ?pkt \<Longrightarrow> 24 \<le> length (drop (length ?a) ?rest)"
    "20 \<le> length buffer" "length ?h = 20" "serialized_size pkt = length ((?h @ ?a) @ ?i) + 8"
    using sz room lib s by (simp_all add: length_enc_integrity length_enc_header)
  have hdr: "write_header ?pkt buffer = Inr (?h @ ?rest, length ?h)"
    using write_header_eq [of ?pkt buffer] s lens(4,5) by simp
  have user: "p_username ?pkt \<noteq> [] \<Longrightarrow> 4 + unat (usernamePaddedLen ?pkt) \<le> length ?rest"
    using room by (simp add: serialized_size_def)
  have attrs: "add_attributes ?pkt (?h @ ?rest, length ?h) =
      Inr ((?h @ ?a) @ drop (length ?a) ?rest, length (?h @ ?a))"
    using add_attributes_appends [of ?pkt buffer ?rest ?h] s lens(1) user by (simp add: appends_def)
  have mi: "add_messageIntegrity lib ?pkt ((?h @ ?a) @ drop (length ?a) ?rest, length (?h @ ?a))
      = Inr (((?h @ ?a) @ ?i) @ drop (length ?i) (drop (length ?a) ?rest), length ((?h @ ?a) @ ?i))"
    using add_messageIntegrity_appends [of ?pkt lib "drop (length ?a) ?rest" ?a, OF _ lib lens(3)] s
    by (simp add: appends_def)
  have fp: "add_fingerprint (((?h @ ?a) @ ?i) @ drop (length ?i) (drop (length ?a) ?rest), length ((?h @ ?a) @ ?i))
      = Inr (enc_message lib pkt buffer @ drop (serialized_size pkt) buffer, serialized_size pkt)"
  proof -
    have "drop 8 (drop (length ?i) (drop (length ?a) ?rest)) = drop (serialized_size pkt) buffer"
      unfolding drop_drop by (rule arg_cong [where f = "\<lambda>n. drop n buffer"], rule sym, rule trans [OF sz]) simp
    moreover have "length (((?h @ ?a) @ ?i) @ enc_fingerprint ((?h @ ?a) @ ?i)) = serialized_size pkt"
      using lens(6) by (simp only: length_append length_enc_fingerprint)
    ultimately show ?thesis
      using add_fingerprint_appends [OF lens(2), of "(?h @ ?a) @ ?i"]
      by (simp only: appends_def enc_message_def body length_enc_fingerprint)
  qed
  have pos: "length (?h @ ?a) + 4 = length ?a + 24" using lens(5) by simp
  show ?thesis
    unfolding Serialize_grouped Let_def hdr rbind_simps attrs mi fp snd_conv pos
    by simp
qed

section \<open>Parsing what was serialized\<close>

lemma parse_attr_step:
  assumes d: "data = pre @ (attr_header a l @ v) @ post"
    and pos: "ps_pos st = length pre" and al: "length pre mod 4 = 0"
    and v: "length v = 4 * ((unat l + 3) div 4)"
    and len: "length pre + 4 + length v \<le> len" "len \<le> 65532"
    and fp: "\<not> ps_hasFingerprint st" and mi: "ps_hasMessageIntegrity st \<Longrightarrow> a = FINGERPRINT"
    and val: "parse_attr_value data (Attribute_code a) l st = Inr (Some st1)"
  shows "parse_loop data len st = parse_loop data len (st1\<lparr>ps_pos := length (pre @ attr_header a l @ v)\<rparr>)"
proof -
  have t: "Get2Bytes data (length pre) = Inr (Attribute_code a)"
    using u16.get_append [where v = "Attribute_code a" and i = "length pre" and pre = pre and post = "be_bytes 2 l @ v @ post"]
    by (simp add: d attr_header_def)
  have l: "Get2Bytes data (length pre + 2) = Inr l"
    using u16.get_append [where v = l and i = "length pre + 2" and pre = "pre @ be_bytes 2 (Attribute_code a)" and post = "v @ post"]
    by (simp add: d attr_header_def)
  have "unat l \<le> length v" using v by presburger
  then have b: "length pre + 4 + unat l \<le> len" using len by simp
  have "next_pos (length pre) l = length pre + 4 + length v"
  proof -
    from al obtain k where k: "length pre = 4 * k" by (metis mod_0_imp_dvd dvdE)
    have "(4 * k + 4 + unat l + 3) div 4 = k + 1 + (unat l + 3) div 4" by presburger
    then show ?thesis by (simp add: next_pos_def k v)
  qed
  then have n: "unat (PadTo4Bytes (word_of_nat (length pre + 4 + unat l))) = length (pre @ attr_header a l @ v)"
    using pad_next_pos [OF b len(2)] by simp
  have "parse_attribute data len st = Inr (Some (st1\<lparr>ps_pos := length (pre @ attr_header a l @ v)\<rparr>))"
    using t l b fp mi val
    unfolding parse_attribute_def pos n [symmetric] by (auto simp del: of_nat_add Attribute_code.simps)
  then show ?thesis using b by (simp add: parse_loop.simps [of data len st] pos)
qed

text \<open>The loop before MESSAGE-INTEGRITY and FINGERPRINT have been seen.\<close>

definition mid_state :: "stun_packet \<Rightarrow> nat \<Rightarrow> parse_state" where
  "mid_state q n =
     \<lparr>ps_pos = n, ps_hasMessageIntegrity = False, ps_hasFingerprint = False,
      ps_fingerprintAttrPos = 0, ps_fingerprint = 0, ps_packet = q\<rparr>"

definition consumes :: "bytes \<Rightarrow> nat \<Rightarrow> bytes \<Rightarrow> bytes \<Rightarrow> stun_packet \<Rightarrow> stun_packet \<Rightarrow> bool" where
  "consumes data len pre bs q q' \<longleftrightarrow>
     parse_loop data len (mid_state q (length pre)) = parse_loop data len (mid_state q' (length (pre @ bs)))"

lemma consumes_attr:
  assumes "data = pre @ (attr_header a l @ v) @ post" "length pre mod 4 = 0"
    and "length v = 4 * ((unat l + 3) div 4)" "length pre + 4 + length v \<le> len" "len \<le> 65532"
    and "parse_attr_value data (Attribute_code a) l (mid_state q (length pre)) = Inr (Some (mid_state q' (length pre)))"
  shows "consumes data len pre (attr_header a l @ v) q q'"
  using parse_attr_step [of data pre a l v post "mid_state q (length pre)" len "mid_state q' (length pre)"] assms
  by (simp add: consumes_def mid_state_def)

lemma consumes_nothing: "consumes data len pre [] q q"
  by (simp add: consumes_def)

lemma value_at:
  "data = pre @ (attr_header a l @ v) @ post \<Longrightarrow> rd_range data (length pre + 4) (length v) = Inr v"
  "data = pre @ (attr_header a l @ be_bytes 4 w) @ post \<Longrightarrow> Get4Bytes data (length pre + 4) = Inr w"
  "data = pre @ (attr_header a l @ be_bytes 8 x) @ post \<Longrightarrow> Get8Bytes data (length pre + 4) = Inr x"
  using rd_range_append [of "pre @ attr_header a l" v post]
    u32.get_append [where v = w and i = "length pre + 4" and pre = "pre @ attr_header a l" and post = post]
    u64.get_append [where v = x and i = "length pre + 4" and pre = "pre @ attr_header a l" and post = post]
  by simp_all

lemma consumes_priority:
  assumes d: "data = pre @ enc_priority pkt @ post" and al: "length pre mod 4 = 0"
    and len: "length pre + length (enc_priority pkt) \<le> len" "len \<le> 65532" and q: "p_priority q = 0"
  shows "consumes data len pre (enc_priority pkt) q (q\<lparr>p_priority := p_priority pkt\<rparr>)"
proof (cases "p_priority pkt = 0")
  case True
  with q have "q\<lparr>p_priority := p_priority pkt\<rparr> = q" by simp
  with True show ?thesis by (simp add: enc_priority_def consumes_nothing)
next
  case False
  then have e: "enc_priority pkt = attr_header PRIORITY 4 @ be_bytes 4 (p_priority pkt)"
    by (simp add: enc_priority_def)
  show ?thesis unfolding e
    by (rule consumes_attr [OF d [unfolded e] al])
      (use len e value_at(2) [OF d [unfolded e]] in \<open>simp_all add: parse_attr_value_def mid_state_def\<close>)
qed

lemma consumes_iceControlling:
  assumes d: "data = pre @ enc_iceControlling pkt @ post" and al: "length pre mod 4 = 0"
    and len: "length pre + length (enc_iceControlling pkt) \<le> len" "len \<le> 65532" and q: "p_iceControlling q = 0"
  shows "consumes data len pre (enc_iceControlling pkt) q (q\<lparr>p_iceControlling := p_iceControlling pkt\<rparr>)"
proof (cases "p_iceControlling pkt = 0")
  case True
  with q have "q\<lparr>p_iceControlling := p_iceControlling pkt\<rparr> = q" by simp
  with True show ?thesis by (simp add: enc_iceControlling_def consumes_nothing)
next
  case False
  then have e: "enc_iceControlling pkt = attr_header ICE_CONTROLLING 8 @ be_bytes 8 (p_iceControlling pkt)"
    by (simp add: enc_iceControlling_def)
  show ?thesis unfolding e
    by (rule consumes_attr [OF d [unfolded e] al])
      (use len e value_at(3) [OF d [unfolded e]] in \<open>simp_all add: parse_attr_value_def mid_state_def\<close>)
qed

lemma consumes_iceControlled:
  assumes d: "data = pre @ enc_iceControlled pkt @ post" and al: "length pre mod 4 = 0"
    and len: "length pre + length (enc_iceControlled pkt) \<le> len" "len \<le> 65532" and q: "p_iceControlled q = 0"
  shows "consumes data len pre (enc_iceControlled pkt) q (q\<lparr>p_iceControlled := p_iceControlled pkt\<rparr>)"
proof (cases "p_iceControlled pkt = 0")
  case True
  with q have "q\<lparr>p_iceControlled := p_iceControlled pkt\<rparr> = q" by simp
  with True show ?thesis by (simp add: enc_iceControlled_def consumes_nothing)
next
  case False
  then have e: "enc_iceControlled pkt = attr_header ICE_CONTROLLED 8 @ be_bytes 8 (p_iceControlled pkt)"
    by (simp add: enc_iceControlled_def)
  show ?thesis unfolding e
    by (rule consumes_attr [OF d [unfolded e] al])
      (use len e value_at(3) [OF d [unfolded e]] in \<open>simp_all add: parse_attr_value_def mid_state_def\<close>)
qed

lemma consumes_useCandidate:
  assumes d: "data = pre @ enc_useCandidate pkt @ post" and al: "length pre mod 4 = 0"
    and len: "length pre + length (enc_useCandidate pkt) \<le> len" "len \<le> 65532" and q: "\<not> p_hasUseCandidate q"
  shows "consumes data len pre (enc_useCandidate pkt) q (q\<lparr>p_hasUseCandidate := p_hasUseCandidate pkt\<rparr>)"
proof (cases "p_hasUseCandidate pkt")
  case True
  then have e: "enc_useCandidate pkt = attr_header USE_CANDIDATE 0 @ []"
    by (simp add: enc_useCandidate_def)
  show ?thesis unfolding e
    by (rule consumes_attr [OF d [unfolded e] al])
      (use len e True in \<open>simp_all add: parse_attr_value_def mid_state_def\<close>)
next
  case False
  with q have "q\<lparr>p_hasUseCandidate := p_hasUseCandidate pkt\<rparr> = q" by simp
  with False show ?thesis by (simp add: enc_useCandidate_def consumes_nothing)
qed

text \<open>XOR-MAPPED-ADDRESS is skipped by the parser.\<close>

lemma consumes_xorMappedAddress:
  assumes d: "data = pre @ enc_xorMappedAddress pkt @ post" and al: "length pre mod 4 = 0"
    and len: "length pre + length (enc_xorMappedAddress pkt) \<le> len" "len \<le> 65532" and s: "serializable pkt"
  shows "consumes data len pre (enc_xorMappedAddress pkt) q q"
proof (cases rule: addXorMappedAddress_cases [of pkt])
  case 1
  then show ?thesis by (simp add: enc_xorMappedAddress_def consumes_nothing)
next
  case (2 port a)
  then have e: "enc_xorMappedAddress pkt = attr_header XOR_MAPPED_ADDRESS 8
      @ enc_address (take 12 (p_transactionId pkt)) (AF_INET port a)"
    by (simp add: enc_xorMappedAddress_def xor_address_len_def)
  show ?thesis unfolding e
    by (rule consumes_attr [OF d [unfolded e] al])
      (use len e in \<open>simp_all add: enc_address_def parse_attr_value_def mid_state_def\<close>)
next
  case (3 port a)
  then have e: "enc_xorMappedAddress pkt = attr_header XOR_MAPPED_ADDRESS 20
      @ enc_address (take 12 (p_transactionId pkt)) (AF_INET6 port a)"
    by (simp add: enc_xorMappedAddress_def xor_address_len_def)
  show ?thesis unfolding e
    by (rule consumes_attr [OF d [unfolded e] al])
      (use len e s in \<open>simp_all add: serializable_def enc_address_def parse_attr_value_def mid_state_def\<close>)
qed

lemma error_code_split:
  assumes "code < 25600"
  shows "ucast (error_class code) * 100 + ucast (error_number code) = (code :: uint16)"
proof -
  have lt: "unat code < 25600" using assms by (simp add: word_less_nat_alt)
  have d: "code = word_of_nat (unat code)" by simp
  have q: "unat (code div 100) = unat code div 100" by (simp add: unat_div_distrib)
  have c: "unat (error_class code) = unat code div 100"
    using lt by (simp add: error_class_def unsigned_ucast_eq q take_bit_nat_eq_self_iff)
  have c': "error_class code = word_of_nat (unat code div 100)"
    by (metis c of_nat_unat ucast_id)
  have "ucast code = (word_of_nat (unat code) :: byte)" by simp
  also have "unat code = unat code div 100 * 100 + unat code mod 100" by simp
  finally have "(ucast code :: byte) = word_of_nat (unat code div 100) * 100 + word_of_nat (unat code mod 100)"
    by (simp only: of_nat_add of_nat_mult of_nat_numeral)
  then have "error_number code = word_of_nat (unat code mod 100)"
    by (simp add: error_number_def c')
  then have n: "unat (error_number code) = unat code mod 100"
    by (simp add: unat_of_nat)
  show ?thesis
    by (rule unsigned_word_eqI [where 'a = nat])
      (use lt in \<open>simp add: unat_word_ariths c n\<close>)
qed

lemma u16_literal_bits: "n < 16 \<Longrightarrow> n \<in> {0, 1, 2, 3, 4, 5, 6, 7, 8, 9, 10, 11, 12, 13, 14, 15 :: nat}"
  by simp presburger

lemma bit_times_two: "bit (w * 2 :: 'a::len word) n \<longleftrightarrow> n \<noteq> 0 \<and> n < LENGTH('a) \<and> bit w (n - 1)"
  by (auto simp: bit_double_iff mult.commute [of w] dest: bit_imp_le_length)

lemma bit_high_method:
  assumes "(method :: uint16) < 128" "7 \<le> n"
  shows "\<not> bit method n"
proof -
  have "take_bit 7 method = method"
    using assms(1) by (intro unsigned_word_eqI [where 'a = nat])
      (simp add: word_less_nat_alt unsigned_take_bit_eq take_bit_nat_eq_self_iff)
  then show ?thesis using assms(2) by (metis bit_take_bit_iff not_le)
qed

lemma msg_method_type_field:
  assumes "method < 128"
  shows "msg_method (type_field klass method) = method"
proof (rule bit_word_eqI)
  fix n assume "n < LENGTH(16)"
  then have "n \<in> {0, 1, 2, 3, 4, 5, 6, 7, 8, 9, 10, 11, 12, 13, 14, 15 :: nat}" using u16_literal_bits [of n] by simp
  then show "bit (msg_method (type_field klass method)) n = bit method n"
    by (elim insertE; cases klass)
      (simp_all add: msg_method_def type_field_def bit_simps bit_times_two bit_high_method [OF assms])
qed

lemma msg_class_type_field:
  "Class_cast (msg_class (ucast (drop_bit 8 (type_field klass method))) (ucast (type_field klass method))) = klass"
proof -
  have "msg_class (ucast (drop_bit 8 (type_field klass method))) (ucast (type_field klass method)) = Class_code klass"
  proof (rule bit_word_eqI)
    fix n assume "n < LENGTH(16)"
    then have "n \<in> {0, 1, 2, 3, 4, 5, 6, 7, 8, 9, 10, 11, 12, 13, 14, 15 :: nat}" using u16_literal_bits [of n] by simp
    then show "bit (msg_class (ucast (drop_bit 8 (type_field klass method))) (ucast (type_field klass method))) n
        = bit (Class_code klass) n"
      by (elim insertE; cases klass)
        (simp_all add: msg_class_def type_field_def bit_simps bit_times_two)
  qed
  then show ?thesis by (cases klass) (simp_all add: Class_cast_def)
qed

lemma type_field_first_byte:
  assumes "method < 128"
  shows "ucast (drop_bit 8 (type_field klass method)) < (3 :: byte)"
proof -
  have "ucast (drop_bit 8 (type_field klass method)) = (drop_bit 1 (ucast (Class_code klass)) :: byte)"
  proof (rule bit_word_eqI)
    fix n assume "n < LENGTH(8)"
    then have "n \<in> {0, 1, 2, 3, 4, 5, 6, 7, 8, 9, 10, 11, 12, 13, 14, 15 :: nat}" using u16_literal_bits [of n] by simp
    then show "bit (ucast (drop_bit 8 (type_field klass method)) :: byte) n = bit (drop_bit 1 (ucast (Class_code klass)) :: byte) n"
      by (elim insertE; cases klass)
        (simp_all add: type_field_def bit_simps bit_times_two bit_high_method [OF assms])
  qed
  then show ?thesis by (cases klass) simp_all
qed

lemma consumes_errorCode:
  assumes d: "data = pre @ enc_errorCode pkt @ post" and al: "length pre mod 4 = 0"
    and len: "length pre + length (enc_errorCode pkt) \<le> len" "len \<le> 65532" and q: "p_errorCode q = 0"
    and code: "p_errorCode pkt < 25600"
  shows "consumes data len pre (enc_errorCode pkt) q
    (q\<lparr>p_errorCode := if addErrorCode pkt then p_errorCode pkt else 0\<rparr>)"
proof (cases "addErrorCode pkt")
  case True
  let ?c = "error_class (p_errorCode pkt)" and ?n = "error_number (p_errorCode pkt)"
  from True have e: "enc_errorCode pkt = attr_header ERROR_CODE 4 @ [0, 0, ?c, ?n]"
    by (simp add: enc_errorCode_def)
  have be1: "be_bytes 1 b = [b]" for b :: byte by (simp add: byte_simps del: One_nat_def)
  have g1: "Get1Byte data (length pre + 6) = Inr ?c"
    using u8.get_append [where v = ?c and i = "length pre + 6" and pre = "pre @ attr_header ERROR_CODE 4 @ [0, 0]"
        and post = "?n # post"] by (simp add: d e be1 del: One_nat_def)
  have g2: "Get1Byte data (length pre + 7) = Inr ?n"
    using u8.get_append [where v = ?n and i = "length pre + 7" and pre = "pre @ attr_header ERROR_CODE 4 @ [0, 0, ?c]"
        and post = post] by (simp add: d e be1 del: One_nat_def)
  have "parse_attr_value data (Attribute_code ERROR_CODE) 4 (mid_state q (length pre))
      = Inr (Some (mid_state (q\<lparr>p_errorCode := p_errorCode pkt\<rparr>) (length pre)))"
    using error_code_split [OF code] g1 g2 by (simp add: parse_attr_value_def mid_state_def Let_def add.commute [of _ "length pre"])
  with True show ?thesis unfolding e
    by (intro consumes_attr [OF d [unfolded e] al]) (use len e in simp_all)
next
  case False
  with q have "q\<lparr>p_errorCode := 0\<rparr> = q" by simp
  with False show ?thesis by (simp add: enc_errorCode_def consumes_nothing)
qed

lemma consumes_username:
  assumes d: "data = pre @ enc_username pkt old @ post" and al: "length pre mod 4 = 0"
    and len: "length pre + length (enc_username pkt old) \<le> len" "len \<le> 65532" and q: "p_username q = []"
    and s: "serializable pkt" and room: "p_username pkt \<noteq> [] \<Longrightarrow> 4 + unat (usernamePaddedLen pkt) \<le> length old"
  shows "consumes data len pre (enc_username pkt old) q (q\<lparr>p_username := p_username pkt\<rparr>)"
proof (cases "p_username pkt = []")
  case True
  with q have "q\<lparr>p_username := p_username pkt\<rparr> = q" by simp
  with True show ?thesis by (simp add: enc_username_def consumes_nothing)
next
  case False
  let ?u = "p_username pkt" and ?l = "word_of_nat (length (p_username pkt)) :: uint16"
  let ?pad = "take (pad_len pkt) (drop (4 + length ?u) old)"
  from False have e: "enc_username pkt old = attr_header USERNAME ?l @ ?u @ ?pad"
    by (simp add: enc_username_def)
  have u: "length ?u \<le> 65532" using s by (simp add: serializable_def)
  have l: "unat ?l = length ?u" using u by (simp add: unat_of_nat_u16_small)
  have lv: "length (?u @ ?pad) = 4 * ((length ?u + 3) div 4)"
    using length_enc_username [OF s room] e False unat_usernamePaddedLen [OF u] by simp
  have v: "rd_range data (length pre + 4) (length ?u) = Inr ?u"
    using value_at(1) [of data pre USERNAME ?l ?u "?pad @ post"] d e by simp
  have "parse_attr_value data (Attribute_code USERNAME) ?l (mid_state q (length pre))
      = Inr (Some (mid_state (q\<lparr>p_username := ?u\<rparr>) (length pre)))"
    using v by (simp add: parse_attr_value_def mid_state_def l)
  then show ?thesis unfolding e
    by (intro consumes_attr [OF d [unfolded e] al]) (use len e l lv in simp_all)
qed

text \<open>The packet the attributes describe, and that the parser has built after reading them.\<close>

definition with_attributes :: "stun_packet \<Rightarrow> stun_packet \<Rightarrow> stun_packet" where
  "with_attributes pkt q =
     q\<lparr>p_username := p_username pkt, p_priority := p_priority pkt, p_iceControlling := p_iceControlling pkt,
       p_iceControlled := p_iceControlled pkt, p_hasUseCandidate := p_hasUseCandidate pkt,
       p_errorCode := if addErrorCode pkt then p_errorCode pkt else 0\<rparr>"

lemma enc_aligned:
  "length (enc_priority pkt) mod 4 = 0" "length (enc_iceControlling pkt) mod 4 = 0"
  "length (enc_iceControlled pkt) mod 4 = 0" "length (enc_useCandidate pkt) mod 4 = 0"
  "serializable pkt \<Longrightarrow> length (enc_xorMappedAddress pkt) mod 4 = 0"
  "length (enc_errorCode pkt) mod 4 = 0"
  by (simp_all add: length_enc_optional length_enc_xorMappedAddress xor_address_len_def split: option.split sockaddr.split)

lemma enc_username_aligned:
  assumes "serializable pkt" "p_username pkt \<noteq> [] \<Longrightarrow> 4 + unat (usernamePaddedLen pkt) \<le> length old"
  shows "length (enc_username pkt old) mod 4 = 0"
  using length_enc_username [OF assms] unat_usernamePaddedLen [of pkt] assms(1)
  by (simp add: serializable_def)

lemma mod_4_add: "(a :: nat) mod 4 = 0 \<Longrightarrow> b mod 4 = 0 \<Longrightarrow> (a + b) mod 4 = 0"
  by presburger

lemma consumes_attributes:
  assumes d: "data = pre @ enc_attributes pkt buffer @ post" and al: "length pre mod 4 = 0"
    and len: "length pre + length (enc_attributes pkt buffer) \<le> len" "len \<le> 65532"
    and s: "serializable pkt"
    and room: "p_username pkt \<noteq> [] \<Longrightarrow> 4 + unat (usernamePaddedLen pkt) \<le> length (drop 20 buffer)"
    and q: "p_username q = []" "p_priority q = 0" "p_iceControlling q = 0" "p_iceControlled q = 0"
      "\<not> p_hasUseCandidate q" "p_errorCode q = 0"
    and code: "p_errorCode pkt < 25600"
  shows "consumes data len pre (enc_attributes pkt buffer) q (with_attributes pkt q)"
proof -
  let ?u = "enc_username pkt (drop 20 buffer)" and ?p = "enc_priority pkt" and ?g = "enc_iceControlling pkt"
    and ?d = "enc_iceControlled pkt" and ?c = "enc_useCandidate pkt" and ?x = "enc_xorMappedAddress pkt"
    and ?e = "enc_errorCode pkt"
  let ?q1 = "q\<lparr>p_username := p_username pkt\<rparr>" let ?q2 = "?q1\<lparr>p_priority := p_priority pkt\<rparr>"
  let ?q3 = "?q2\<lparr>p_iceControlling := p_iceControlling pkt\<rparr>"
  let ?q4 = "?q3\<lparr>p_iceControlled := p_iceControlled pkt\<rparr>"
  let ?q5 = "?q4\<lparr>p_hasUseCandidate := p_hasUseCandidate pkt\<rparr>"
  have dd: "data = pre @ ?u @ ?p @ ?g @ ?d @ ?c @ ?x @ ?e @ post" using d by (simp add: enc_attributes_def)
  note m = enc_aligned(1,2,3,4,6) [of pkt] enc_aligned(5) [OF s] enc_username_aligned [OF s room] al
  have l: "length pre + length ?u + length ?p + length ?g + length ?d + length ?c + length ?x + length ?e \<le> len"
    using len by (simp add: enc_attributes_def)
  have "consumes data len pre ?u q ?q1"
    by (rule consumes_username [OF dd al _ len(2) q(1) s room]) (use l in simp_all)
  moreover have "consumes data len (pre @ ?u) ?p ?q1 ?q2"
    by (rule consumes_priority [OF _ _ _ len(2), where post = "?g @ ?d @ ?c @ ?x @ ?e @ post"])
      (use l in \<open>simp_all add: dd mod_4_add m q\<close>)
  moreover have "consumes data len (pre @ ?u @ ?p) ?g ?q2 ?q3"
    by (rule consumes_iceControlling [OF _ _ _ len(2), where post = "?d @ ?c @ ?x @ ?e @ post"])
      (use l in \<open>simp_all add: dd mod_4_add m q\<close>)
  moreover have "consumes data len (pre @ ?u @ ?p @ ?g) ?d ?q3 ?q4"
    by (rule consumes_iceControlled [OF _ _ _ len(2), where post = "?c @ ?x @ ?e @ post"])
      (use l in \<open>simp_all add: dd mod_4_add m q\<close>)
  moreover have "consumes data len (pre @ ?u @ ?p @ ?g @ ?d) ?c ?q4 ?q5"
    by (rule consumes_useCandidate [OF _ _ _ len(2), where post = "?x @ ?e @ post"])
      (use l in \<open>simp_all add: dd mod_4_add m q\<close>)
  moreover have "consumes data len (pre @ ?u @ ?p @ ?g @ ?d @ ?c) ?x ?q5 ?q5"
    by (rule consumes_xorMappedAddress [OF _ _ _ len(2) s, where post = "?e @ post"])
      (use l in \<open>simp_all add: dd mod_4_add m\<close>)
  moreover have "consumes data len (pre @ ?u @ ?p @ ?g @ ?d @ ?c @ ?x) ?e ?q5
      (?q5\<lparr>p_errorCode := if addErrorCode pkt then p_errorCode pkt else 0\<rparr>)"
    by (rule consumes_errorCode [OF _ _ _ len(2) _ code, where post = post])
      (use l in \<open>simp_all add: dd mod_4_add m q\<close>)
  ultimately show ?thesis
    unfolding enc_attributes_def with_attributes_def by (simp add: consumes_def)
qed

lemma be_bytes_2: "be_bytes 2 (t :: uint16) = [ucast (drop_bit 8 t), ucast t]"
  by (simp add: byte_simps)

lemma header_ok_enc:
  assumes s: "serializable pkt" and m: "p_method pkt < 128"
    and n: "28 \<le> n" "n \<le> 65532" "n mod 4 = 0"
    and data_def: "data = enc_header pkt (word_of_nat n - 20) @ rest"
  shows "header_ok data n"
    and "init_state data n = mid_state
      (new_StunPacket (p_klass pkt) (p_method pkt) (p_transactionId pkt) (Some data) n) 20"
proof -
  let ?t = "type_field (p_klass pkt) (p_method pkt)" and ?l = "word_of_nat n - 20 :: uint16"
  have data: "data = be_bytes 2 ?t @ be_bytes 2 ?l @ magicCookie @ p_transactionId pkt @ rest"
    using s by (simp add: data_def enc_header_def serializable_def)
  have "?l = word_of_nat (n - 20)" using n by (simp add: of_nat_diff)
  then have l: "unat ?l = n - 20" using n by (simp add: unat_of_nat_u16_small del: of_nat_diff)
  have b: "data ! 0 = ucast (drop_bit 8 ?t)" "data ! 1 = ucast ?t" by (simp_all add: data be_bytes_2)
  have t2: "take 2 data = be_bytes 2 ?t" "take 2 (drop 2 data) = be_bytes 2 ?l" "take 4 (drop 4 data) = magicCookie"
    "take 12 (drop 8 data) = p_transactionId pkt"
    using s by (simp_all add: data serializable_def)
  show "header_ok data n"
    using type_field_first_byte [OF m] n l by (simp add: header_ok_def t2 b)
  show "init_state data n = mid_state
      (new_StunPacket (p_klass pkt) (p_method pkt) (p_transactionId pkt) (Some data) n) 20"
    by (simp add: init_state_def mid_state_def t2 b(1) b(2) [simplified] msg_method_type_field [OF m] msg_class_type_field)
qed

text \<open>The two closing attributes.\<close>

lemma parse_integrity:
  assumes d: "data = pre @ enc_integrity lib pkt covered @ post" and al: "length pre mod 4 = 0"
    and len: "length pre + length (enc_integrity lib pkt covered) \<le> len" "len \<le> 65532"
    and lib: "hmac_ok lib" and q: "p_messageIntegrity q = None"
  shows "parse_loop data len (mid_state q (length pre)) =
    parse_loop data len ((mid_state
      (q\<lparr>p_messageIntegrity := if addMessageIntegrity pkt then Some (length pre + 4) else None\<rparr>)
      (length (pre @ enc_integrity lib pkt covered)))\<lparr>ps_hasMessageIntegrity := addMessageIntegrity pkt\<rparr>)"
proof (cases "addMessageIntegrity pkt")
  case True
  then have e: "enc_integrity lib pkt covered = attr_header MESSAGE_INTEGRITY 20 @ hmac_digest lib (p_password pkt) covered"
    by (simp add: enc_integrity_def)
  have val: "parse_attr_value data (Attribute_code MESSAGE_INTEGRITY) 20 (mid_state q (length pre))
      = Inr (Some ((mid_state (q\<lparr>p_messageIntegrity := Some (length pre + 4)\<rparr>) (length pre))\<lparr>ps_hasMessageIntegrity := True\<rparr>))"
    by (simp add: parse_attr_value_def mid_state_def)
  show ?thesis
    by (subst parse_attr_step [OF d [unfolded e] _ al _ _ len(2) _ _ val])
      (use len e lib True in \<open>simp_all add: length_hmac_digest mid_state_def\<close>)
next
  case False
  with q have "q\<lparr>p_messageIntegrity := None\<rparr> = q" by simp
  with False show ?thesis by (simp add: enc_integrity_def mid_state_def)
qed

lemma parse_fingerprint:
  assumes d: "data = pre @ enc_fingerprint pre @ post" and al: "length pre mod 4 = 0"
    and len: "len = length pre + 8" "len \<le> 65532"
    and st: "ps_pos st = length pre" "\<not> ps_hasFingerprint st"
  shows "\<exists>st'. parse_loop data len st = Some (Inr (Some st')) \<and>
    parse_finish data len st' = Inr (Some ((ps_packet st)\<lparr>p_hasFingerprint := True\<rparr>))"
proof -
  let ?crc = "crc32_spec pre XOR 0x5354554e"
  let ?st = "st\<lparr>ps_hasFingerprint := True, ps_fingerprintAttrPos := length pre, ps_fingerprint := ?crc,
      ps_packet := (ps_packet st)\<lparr>p_hasFingerprint := True\<rparr>\<rparr>"
  have d': "data = pre @ (attr_header FINGERPRINT 4 @ be_bytes 4 ?crc) @ post"
    using d by (simp add: enc_fingerprint_def)
  have "parse_attr_value data (Attribute_code FINGERPRINT) 4 st = Inr (Some ?st)"
    using value_at(2) [OF d'] st by (simp add: parse_attr_value_def)
  then have "parse_loop data len st = parse_loop data len (?st\<lparr>ps_pos := len\<rparr>)"
    by (subst parse_attr_step [OF d' st(1) al]) (use len st in simp_all)
  also have "\<dots> = Some (Inr (Some (?st\<lparr>ps_pos := len\<rparr>)))"
    by (simp add: parse_loop.simps [of data len "?st\<lparr>ps_pos := len\<rparr>"])
  finally have "parse_loop data len st = Some (Inr (Some (?st\<lparr>ps_pos := len\<rparr>)))" .
  moreover have "GetCRC32 data (length pre) = Inr (crc32_spec pre)"
    using d by (simp add: GetCRC32_eq)
  then have "parse_finish data len (?st\<lparr>ps_pos := len\<rparr>) = Inr (Some ((ps_packet st)\<lparr>p_hasFingerprint := True\<rparr>))"
    by (simp add: parse_finish_def)
  ultimately show ?thesis by blast
qed

lemma serialized_size_aligned:
  assumes s: "serializable pkt" and room: "serialized_size pkt \<le> length buffer"
  shows "serialized_size pkt mod 4 = 0" and "length (enc_attributes pkt buffer) mod 4 = 0"
proof -
  have user: "p_username pkt \<noteq> [] \<Longrightarrow> 4 + unat (usernamePaddedLen pkt) \<le> length (drop 20 buffer)"
    using room by (simp add: serialized_size_def)
  show a: "length (enc_attributes pkt buffer) mod 4 = 0"
    using enc_aligned(1,2,3,4,6) [of pkt] enc_aligned(5) [OF s] enc_username_aligned [OF s user]
    by (simp add: enc_attributes_def mod_4_add)
  show "serialized_size pkt mod 4 = 0"
    unfolding serialized_size_attributes [OF s room] using a by (simp add: mod_4_add)
qed

definition reparsed :: "stun_packet \<Rightarrow> stun_packet" where
  "reparsed pkt =
     pkt\<lparr>p_xorMappedAddress := None, p_password := [],
       p_errorCode := if addErrorCode pkt then p_errorCode pkt else 0\<rparr>"

lemma Parse_enc_message:
  assumes s: "serializable pkt" and room: "serialized_size pkt \<le> length buffer" and lib: "hmac_ok lib"
    and small: "serialized_size pkt \<le> 65532" and m: "p_method pkt < 128" and code: "p_errorCode pkt < 25600"
    and data: "data = enc_message lib pkt buffer @ tail"
  shows "Parse data (serialized_size pkt) = Inr (Some ((with_attributes pkt
      (new_StunPacket (p_klass pkt) (p_method pkt) (p_transactionId pkt) (Some data) (serialized_size pkt)))
      \<lparr>p_messageIntegrity :=
        (if addMessageIntegrity pkt then Some (length (enc_attributes pkt buffer) + 24) else None),
       p_hasFingerprint := True\<rparr>))"
proof -
  let ?n = "serialized_size pkt" let ?sz = "word_of_nat ?n :: uint16"
  let ?h = "enc_header pkt (?sz - 20)" and ?a = "enc_attributes pkt buffer"
  let ?cov = "enc_header pkt (?sz - 28) @ enc_attributes pkt buffer"
  let ?i = "enc_integrity lib pkt ?cov" and ?b = "enc_body lib pkt buffer"
  let ?q = "new_StunPacket (p_klass pkt) (p_method pkt) (p_transactionId pkt) (Some data) ?n"
  let ?q' = "with_attributes pkt ?q"
  let ?mi = "if addMessageIntegrity pkt then Some (length ?a + 24) else None"
  have b: "?b = (?h @ ?a) @ ?i" by (simp add: enc_body_def Let_def)
  have lb: "length ?b + 8 = ?n" "length ?b \<le> ?n" "28 \<le> ?n" "length ?h = 20" "?n \<le> length data"
    using length_enc_message [OF s room lib] s by (simp_all add: length_enc_header data)
  have la: "length (?h @ ?a) + length ?i \<le> ?n" using lb(2) by (simp add: b)
  have al: "length ?b mod 4 = 0" "length (?h @ ?a) mod 4 = 0" "?n mod 4 = 0"
    using serialized_size_aligned [OF s room] lb(1,4) by (simp_all add: mod_4_add) presburger
  have user: "p_username pkt \<noteq> [] \<Longrightarrow> 4 + unat (usernamePaddedLen pkt) \<le> length (drop 20 buffer)"
    using room by (simp add: serialized_size_def)
  have dh: "data = ?h @ ?a @ ?i @ enc_fingerprint ?b @ tail" and df: "data = ?b @ enc_fingerprint ?b @ tail"
    by (simp_all add: data enc_message_def b)
  note hdr = header_ok_enc [OF s m lb(3) small al(3) dh]
  have "consumes data ?n ?h ?a ?q ?q'"
    by (rule consumes_attributes [OF dh _ _ small s user _ _ _ _ _ _ code])
      (use la lb(4) in \<open>simp_all add: new_StunPacket_def\<close>)
  then have 1: "parse_loop data ?n (init_state data ?n) = parse_loop data ?n (mid_state ?q' (length (?h @ ?a)))"
    unfolding consumes_def hdr(2) lb(4) .
  have 2: "parse_loop data ?n (mid_state ?q' (length (?h @ ?a))) = parse_loop data ?n
      ((mid_state (?q'\<lparr>p_messageIntegrity := ?mi\<rparr>) (length ?b))\<lparr>ps_hasMessageIntegrity := addMessageIntegrity pkt\<rparr>)"
    using parse_integrity [of data "?h @ ?a" lib pkt ?cov "enc_fingerprint ?b @ tail" ?n ?q'] dh al(2) la small lib lb(4)
    by (simp add: b with_attributes_def new_StunPacket_def add.commute)
  obtain st where "parse_loop data ?n (init_state data ?n) = Some (Inr (Some st))"
    "parse_finish data ?n st = Inr (Some (?q'\<lparr>p_messageIntegrity := ?mi, p_hasFingerprint := True\<rparr>))"
    unfolding 1 2 using parse_fingerprint [OF df al(1) lb(1) [symmetric] small,
        of "(mid_state (?q'\<lparr>p_messageIntegrity := ?mi\<rparr>) (length ?b))\<lparr>ps_hasMessageIntegrity := addMessageIntegrity pkt\<rparr>"]
    by (auto simp: mid_state_def)
  then show ?thesis using hdr(1) lb(5) by (simp add: Parse_eq)
qed

lemma with_attributes_reparsed:
  "(with_attributes pkt (new_StunPacket (p_klass pkt) (p_method pkt) (p_transactionId pkt) d n))
      \<lparr>p_messageIntegrity := mi, p_hasFingerprint := True\<rparr>
   = reparsed (pkt\<lparr>p_size := n, p_data := d, p_messageIntegrity := mi, p_hasFingerprint := True\<rparr>)"
  by (cases pkt) (simp add: with_attributes_def new_StunPacket_def reparsed_def addErrorCode_def)

lemma Parse_Serialize:
  assumes "serializable pkt" "serialized_size pkt \<le> length buffer" "hmac_ok lib"
    and "serialized_size pkt \<le> 65532" "p_method pkt < 128" "p_errorCode pkt < 25600"
  shows "\<exists>pkt' data. Serialize lib pkt buffer = Inr pkt' \<and> p_data pkt' = Some data \<and>
    length data = length buffer \<and> Parse data (p_size pkt') = Inr (Some (reparsed pkt'))"
  using Serialize_eq [OF assms(1-3)] Parse_enc_message [OF assms refl, of "drop (serialized_size pkt) buffer"]
    length_enc_message(2) [OF assms(1-3)] assms(2)
  by (simp add: with_attributes_reparsed)

lemma integrity_text_enc:
  assumes s: "serializable pkt" and room: "serialized_size pkt \<le> length buffer" and lib: "hmac_ok lib"
    and mi: "addMessageIntegrity pkt" and data: "data = enc_message lib pkt buffer @ tail"
  defines "n \<equiv> length (enc_attributes pkt buffer) + 24"
  shows "integrity_text data n = enc_header pkt (word_of_nat (serialized_size pkt) - 28) @ enc_attributes pkt buffer"
    and "take 20 (drop n data) = hmac_digest lib (p_password pkt) (integrity_text data n)"
proof -
  let ?sz = "word_of_nat (serialized_size pkt) :: uint16"
  let ?a = "enc_attributes pkt buffer" and ?t = "be_bytes 2 (type_field (p_klass pkt) (p_method pkt))"
  have "serialized_size pkt = n + 28" using serialized_size_attributes [OF s room] mi by (simp add: n_def)
  then have n: "word_of_nat n = ?sz - 28" by simp
  have body: "enc_body lib pkt buffer = enc_header pkt (?sz - 20) @ ?a @ attr_header MESSAGE_INTEGRITY 20
      @ hmac_digest lib (p_password pkt) (enc_header pkt (?sz - 28) @ ?a)"
    using mi by (simp add: enc_body_def enc_integrity_def Let_def)
  have h: "enc_header pkt l = ?t @ be_bytes 2 l @ magicCookie @ p_transactionId pkt" for l
    using s by (simp add: enc_header_def serializable_def)
  have tid: "length (p_transactionId pkt) = 12" using s by (simp add: serializable_def)
  show i: "integrity_text data n = enc_header pkt (?sz - 28) @ ?a"
    unfolding integrity_text_def n using tid by (simp add: data enc_message_def body h n_def)
  show "take 20 (drop n data) = hmac_digest lib (p_password pkt) (integrity_text data n)"
    unfolding i using tid lib by (simp add: data enc_message_def body h n_def length_hmac_digest)
qed

text \<open>
  What the check decides on a request that was serialized with a password: the HMAC of the covered
  text under the local password against the one under the sender's.
\<close>

lemma CheckAuthentication_Serialize:
  assumes s: "serializable pkt" "serialized_size pkt \<le> length buffer" "hmac_ok lib"
    and m: "serialized_size pkt \<le> 65532" "p_method pkt < 128" "p_errorCode pkt < 25600"
    and klass: "p_klass pkt = REQUEST \<or> p_klass pkt = INDICATION" and pw: "p_password pkt \<noteq> []"
    and user: "p_username pkt = u @ str '':'' @ rest"
  shows "\<exists>pkt' data text.
    Serialize lib pkt buffer = Inr pkt' \<and> p_data pkt' = Some data \<and>
    Parse data (p_size pkt') = Inr (Some (reparsed pkt')) \<and>
    (\<forall>password. CheckAuthentication lib (reparsed pkt') u password =
      Inr (if hmac_digest lib (p_password pkt) text = hmac_digest lib password text
           then AUTH_OK else UNAUTHORIZED, reparsed pkt'))"
proof -
  define n where "n = length (enc_attributes pkt buffer) + 24"
  define data where "data = enc_message lib pkt buffer @ drop (serialized_size pkt) buffer"
  define pkt' where "pkt' = pkt\<lparr>p_size := serialized_size pkt, p_data := Some data, p_messageIntegrity := Some n,
      p_hasFingerprint := True\<rparr>"
  have mi: "addMessageIntegrity pkt" using klass pw by (auto simp: addMessageIntegrity_def)
  have ser: "Serialize lib pkt buffer = Inr pkt'" using Serialize_eq [OF s] mi by (simp add: pkt'_def data_def n_def)
  have parse: "Parse data (serialized_size pkt) = Inr (Some (reparsed pkt'))"
    using Parse_enc_message [OF s m data_def] mi by (simp add: with_attributes_reparsed pkt'_def n_def)
  have len: "serialized_size pkt \<le> length data" using length_enc_message(2) [OF s] by (simp add: data_def)
  have "parsed_packet data (serialized_size pkt) (reparsed pkt')"
    using parse len m(1) by (intro Parse_parsed) simp_all
  moreover have "take 20 (drop n data) = hmac_digest lib (p_password pkt) (integrity_text data n)"
    using integrity_text_enc(2) [OF s mi data_def] by (simp add: n_def)
  moreover have "p_klass (reparsed pkt') = p_klass pkt" "p_messageIntegrity (reparsed pkt') = Some n"
    "p_username (reparsed pkt') = u @ str '':'' @ rest" "p_data pkt' = Some data" "p_size pkt' = serialized_size pkt"
    using user by (simp_all add: reparsed_def pkt'_def)
  moreover from this(3) have "check_username (reparsed pkt') u" "p_username (reparsed pkt') \<noteq> []"
    by (auto simp: check_username_iff str_def)
  ultimately have "CheckAuthentication lib (reparsed pkt') u password =
      Inr (if hmac_digest lib (p_password pkt) (integrity_text data n) = hmac_digest lib password (integrity_text data n)
           then AUTH_OK else UNAUTHORIZED, reparsed pkt')" for password
    using CheckAuthentication_parsed [OF _ len s(3), of "reparsed pkt'" u password] klass by auto
  with ser parse show ?thesis
    by (intro exI [of _ pkt'] exI [of _ data] exI [of _ "integrity_text data n"]) (simp add: pkt'_def)
qed

section \<open>Properties\<close>

definition binding_request :: bytes where
  "binding_request = [0x00, 0x01, 0x00, 0x00, 0x21, 0x12, 0xA4, 0x42] @ replicate 12 7"

lemma Parse_binding_request:
  "Parse binding_request 20 = Inr (Some (new_StunPacket REQUEST BINDING (replicate 12 7) (Some binding_request) 20))"
proof -
  let ?st = "init_state binding_request 20"
  have "header_ok binding_request 20" "20 \<le> length binding_request"
    by (simp_all add: header_ok_def binding_request_def magicCookie_def byte_simps)
  moreover have st: "?st = mid_state (new_StunPacket REQUEST BINDING (replicate 12 7) (Some binding_request) 20) 20"
    by (simp add: init_state_def mid_state_def binding_request_def byte_simps msg_class_def msg_method_def
        Class_cast_def BINDING_def)
  moreover have "parse_loop binding_request 20 ?st = Some (Inr (Some ?st))"
    by (simp add: parse_loop.simps [of _ _ ?st]) (simp add: st mid_state_def)
  ultimately show ?thesis by (simp add: Parse_eq parse_finish_def mid_state_def)
qed

text \<open>C3: parsing returns for every buffer shorter than 64 KiB: it never reads outside the buffer and
  the attribute loop ends.\<close>

theorem parse_total:
  assumes "len \<le> length data" and "len < 65536"
  shows "\<exists>r. Parse data len = Inr r"
  using assms by (rule Parse_total)

theorem parse_total_witness: "\<exists>r. Parse binding_request 20 = Inr r"
  using parse_total [of 20 binding_request] by (simp add: binding_request_def)

text \<open>C18: a packet that Parse accepts has a header with the magic cookie, a length field that equals the
  size minus 20 and a size that is a multiple of 4; class, method and transaction id are those of the
  header; MESSAGE-INTEGRITY, if present, is followed by nothing but FINGERPRINT, which is the last
  attribute and holds the CRC-32 of everything before it XORed with 0x5354554e.\<close>

theorem parse_accepted:
  assumes "Parse data len = Inr (Some pkt)" and "len \<le> length data" and "len < 65536"
  shows "parsed_packet data len pkt"
  using assms by (rule Parse_parsed)

theorem parse_accepted_witness:
  "parsed_packet binding_request 20 (new_StunPacket REQUEST BINDING (replicate 12 7) (Some binding_request) 20)"
  using parse_accepted [OF Parse_binding_request] by (simp add: binding_request_def)

text \<open>C36: the attribute position is kept in 16 bits, so Parse never returns on a packet of 65552 bytes
  whose only attribute reaches position 65536.\<close>

theorem parse_wraps:
  assumes "wrapping_packet data"
  shows "Parse data 65552 = Fault Diverges"
  using assms by (rule Parse_diverges)

theorem parse_wraps_witness:
  "Parse ([0x00, 0x01, 0xFF, 0xFC] @ magicCookie @ replicate 12 0 @ [0x00, 0x00, 0xFF, 0xE8] @ replicate 65528 0) 65552
   = Fault Diverges"
  by (rule parse_wraps) (simp add: wrapping_packet_def magicCookie_def)

text \<open>A connectivity check as an ICE agent sends it, for concrete runs.\<close>

definition example_check :: stun_packet where
  "example_check =
     (new_StunPacket REQUEST BINDING (replicate 12 7) None 0)
       \<lparr>p_username := str ''ab:cd'', p_priority := 42, p_password := str ''pw''\<rparr>"

lemma example_check_size: "serialized_size example_check = 72"
proof -
  have "unat (usernamePaddedLen example_check) = 8"
    by (subst unat_usernamePaddedLen) (simp_all add: example_check_def str_def)
  then show ?thesis
    by (simp add: serialized_size_def addXorMappedAddress_def addErrorCode_def addMessageIntegrity_def)
      (simp add: example_check_def new_StunPacket_def str_def)
qed

lemma example_check_ok:
  "serializable example_check" "p_method example_check < 128" "p_errorCode example_check < 25600"
  "p_klass example_check = REQUEST" "p_password example_check \<noteq> []"
  "p_username example_check = str ''ab'' @ str '':'' @ str ''cd''"
  by (simp_all add: serializable_def example_check_def new_StunPacket_def BINDING_def str_def)





text \<open>C4: on a parsed packet CheckAuthentication never faults and leaves the packet and its buffer as they
  were (the length field it patches is restored); it answers OK exactly for requests and indications with
  USERNAME starting with the local username and a colon and a MESSAGE-INTEGRITY equal to the HMAC over
  the message up to that attribute, BAD_REQUEST for responses and missing attributes, and UNAUTHORIZED
  otherwise.\<close>

theorem authentication_decision:
  assumes "Parse data len = Inr (Some pkt)" and "len \<le> length data" and "len < 65536" and "hmac_ok lib"
  shows "CheckAuthentication lib pkt localUsername localPassword =
    Inr (if p_klass pkt = SUCCESS_RESPONSE \<or> p_klass pkt = ERROR_RESPONSE then BAD_REQUEST else
         case p_messageIntegrity pkt of
           None \<Rightarrow> BAD_REQUEST
         | Some mi \<Rightarrow>
             if p_username pkt = [] then BAD_REQUEST
             else if (\<exists>rest. p_username pkt = localUsername @ str '':'' @ rest) \<and>
               take 20 (drop mi data) = hmac_digest lib localPassword (integrity_text data mi)
             then AUTH_OK else UNAUTHORIZED, pkt)"
  using CheckAuthentication_parsed [OF Parse_parsed, OF assms(1-3) assms(2,4)]
  by (simp only: check_username_iff)

theorem authentication_decision_witness:
  "CheckAuthentication example_hmac
     (new_StunPacket REQUEST BINDING (replicate 12 7) (Some binding_request) 20) (str ''ab'') (str ''pw'')
   = Inr (BAD_REQUEST, new_StunPacket REQUEST BINDING (replicate 12 7) (Some binding_request) 20)"
  using authentication_decision [OF Parse_binding_request, of example_hmac "str ''ab''" "str ''pw''"] example_hmac_ok
  by (simp add: binding_request_def new_StunPacket_def)



end
