(* ===== verification/Machine.thy ===== *)
theory Machine
  imports Prelude
begin

text \<open>
  Sequences of operations on a component. A component is driven by operations that update its state
  and emit events to its listener; an operation can fault. \<open>run_ops\<close> performs a list of operations.
  Three interfaces state what a component promises for one operation, and what follows for every sequence:
  no fault and an invariant; an event that is emitted exactly when a latch closes, so at most once; and
  events that follow an abstract protocol, a step relation on what the listener knows of the state.
\<close>

type_synonym ('o, 's, 'e) stepper = "'o \<Rightarrow> 's \<Rightarrow> ('s \<times> 'e list) res"

primrec run_ops :: "('o, 's, 'e) stepper \<Rightarrow> 'o list \<Rightarrow> 's \<Rightarrow> ('s \<times> 'e list) res" where
  "run_ops step [] s = Ok (s, [])"
| "run_ops step (x # xs) s =
     rbind (step x s) (\<lambda>(s', es). rbind (run_ops step xs s') (\<lambda>(s'', es'). Ok (s'', es @ es')))"

lemma run_ops_append:
  "run_ops step (xs @ ys) s =
     rbind (run_ops step xs s) (\<lambda>(s', es). rbind (run_ops step ys s') (\<lambda>(s'', es'). Ok (s'', es @ es')))"
proof (induction xs arbitrary: s)
  case (Cons x xs)
  then show ?case by (simp add: rbind_def split: sum.split)
qed (simp add: rbind_def split: sum.split)

lemma run_ops_ConsE:
  assumes "run_ops step (x # xs) s = Inr (s'', es)"
  obtains s' es1 es2 where "step x s = Inr (s', es1)" "run_ops step xs s' = Inr (s'', es2)" "es = es1 @ es2"
  using assms by auto

text \<open>No operation faults in a good state, and good states are kept.\<close>

locale safe_machine =
  fixes step :: "('o, 's, 'e) stepper"
    and good_op :: "'o \<Rightarrow> bool"
    and inv :: "'s \<Rightarrow> bool"
  assumes step_safe: "inv s \<Longrightarrow> good_op x \<Longrightarrow> \<exists>s' es. step x s = Inr (s', es)"
    and step_inv: "inv s \<Longrightarrow> good_op x \<Longrightarrow> step x s = Inr (s', es) \<Longrightarrow> inv s'"
begin

lemma run_safe:
  "inv s \<Longrightarrow> list_all good_op xs \<Longrightarrow> \<exists>s' es. run_ops step xs s = Inr (s', es) \<and> inv s'"
proof (induction xs arbitrary: s)
  case (Cons x xs)
  then obtain s' es where "step x s = Inr (s', es)" "inv s'" using step_safe step_inv by fastforce
  moreover with Cons obtain s'' es' where "run_ops step xs s' = Inr (s'', es')" "inv s''" by fastforce
  ultimately show ?case by simp
qed simp

lemma run_inv:
  "inv s \<Longrightarrow> list_all good_op xs \<Longrightarrow> run_ops step xs s = Inr (s', es) \<Longrightarrow> inv s'"
  using run_safe by fastforce

end

text \<open>An event that marks the closing of a latch.\<close>

locale latched_machine = safe_machine +
  fixes latched :: "'s \<Rightarrow> bool" and mark :: "'e \<Rightarrow> bool"
  assumes step_latched: "inv s \<Longrightarrow> good_op x \<Longrightarrow> step x s = Inr (s', es) \<Longrightarrow> latched s \<Longrightarrow> latched s'"
    and step_marks: "inv s \<Longrightarrow> good_op x \<Longrightarrow> step x s = Inr (s', es) \<Longrightarrow>
      length (filter mark es) = (if \<not> latched s \<and> latched s' then 1 else 0)"
begin

lemma run_marks:
  "inv s \<Longrightarrow> list_all good_op xs \<Longrightarrow> run_ops step xs s = Inr (s', es) \<Longrightarrow>
   (latched s \<longrightarrow> latched s') \<and> length (filter mark es) = (if \<not> latched s \<and> latched s' then 1 else 0)"
proof (induction xs arbitrary: s es)
  case (Cons x xs)
  from Cons.prems(3) obtain t es1 es2 where
    t: "step x s = Inr (t, es1)" "run_ops step xs t = Inr (s', es2)" "es = es1 @ es2"
    by (rule run_ops_ConsE)
  have "good_op x" "list_all good_op xs" using Cons.prems(2) by simp_all
  moreover have "inv t" using step_inv Cons.prems(1) \<open>good_op x\<close> t(1) by blast
  ultimately show ?case
    using Cons.IH [of t es2] t step_latched [OF Cons.prems(1) _ t(1)] step_marks [OF Cons.prems(1) _ t(1)]
    by auto
qed simp

lemma run_mark_once:
  "inv s \<Longrightarrow> list_all good_op xs \<Longrightarrow> run_ops step xs s = Inr (s', es) \<Longrightarrow> length (filter mark es) \<le> 1"
  using run_marks by fastforce

end

text \<open>Finite traces of a step relation, and a machine whose events are a trace of an abstract protocol.\<close>

inductive trace :: "('v \<Rightarrow> 'e \<Rightarrow> 'v \<Rightarrow> bool) \<Rightarrow> 'v \<Rightarrow> 'e list \<Rightarrow> 'v \<Rightarrow> bool" for R where
  trace_Nil [intro!, simp]: "trace R v [] v"
| trace_Cons [intro]: "R v e v' \<Longrightarrow> trace R v' es v'' \<Longrightarrow> trace R v (e # es) v''"

inductive_cases trace_NilE [elim!]: "trace R v [] v'"
inductive_cases trace_ConsE [elim]: "trace R v (e # es) v'"

lemma trace_single: "R v e v' \<Longrightarrow> trace R v [e] v'"
  by blast

lemma trace_append: "trace R v es v' \<Longrightarrow> trace R v' es' v'' \<Longrightarrow> trace R v (es @ es') v''"
  by (induction rule: trace.induct) auto

locale simulated_machine = safe_machine +
  fixes view :: "'s \<Rightarrow> 'v" and protocol :: "'v \<Rightarrow> 'e \<Rightarrow> 'v \<Rightarrow> bool"
  assumes step_simulated:
    "inv s \<Longrightarrow> good_op x \<Longrightarrow> step x s = Inr (s', es) \<Longrightarrow> trace protocol (view s) es (view s')"
begin

lemma run_simulated:
  "inv s \<Longrightarrow> list_all good_op xs \<Longrightarrow> run_ops step xs s = Inr (s', es) \<Longrightarrow> trace protocol (view s) es (view s')"
proof (induction xs arbitrary: s es)
  case (Cons x xs)
  from Cons.prems(3) obtain t es1 es2 where
    t: "step x s = Inr (t, es1)" "run_ops step xs t = Inr (s', es2)" "es = es1 @ es2"
    by (rule run_ops_ConsE)
  have ok: "good_op x" "list_all good_op xs" using Cons.prems(2) by simp_all
  have "trace protocol (view s) es1 (view t)" using step_simulated Cons.prems(1) ok(1) t(1) by blast
  moreover have "inv t" using step_inv Cons.prems(1) ok(1) t(1) by blast
  then have "trace protocol (view t) es2 (view s')" using Cons.IH ok(2) t(2) by blast
  ultimately show ?case unfolding t(3) by (rule trace_append)
qed simp

end

end
