(* ===== verification/IceServer.thy ===== *)
theory IceServer
  imports StunSerialize Machine
begin

text \<open>
  \<open>RTC::IceServer\<close> (rtc/ice_server.h, rtc/ice_server.cc): an ICE-Lite agent that answers STUN Binding
  requests and selects the first tuple a request authenticates on. Calls of the listener are emitted as
  events, in the order of the calls; the server reads nothing back from its listener. The static
  serialization buffer, shared by all servers, is threaded as an argument.
\<close>

datatype IceState = NEW | CONNECTED | COMPLETED | DISCONNECTED

type_synonym TransportTuple = sockaddr

datatype ice_event =
    OnIceServerSendStunPacket stun_packet TransportTuple
  | OnIceServerSelectedTuple TransportTuple

record ice_server =
  i_listener :: bool
  i_usernameFragment :: bytes
  i_password :: bytes
  i_oldUsernameFragment :: bytes
  i_oldPassword :: bytes
  i_state :: IceState
  i_selectedTuple :: "TransportTuple option"

definition StunSerializeBufferSize :: nat where "StunSerializeBufferSize = 65536"

definition new_IceServer :: "bool \<Rightarrow> bytes \<Rightarrow> bytes \<Rightarrow> ice_server" where
  "new_IceServer listener usernameFragment password =
     \<lparr>i_listener = listener, i_usernameFragment = usernameFragment, i_password = password,
      i_oldUsernameFragment = [], i_oldPassword = [], i_state = NEW, i_selectedTuple = None\<rparr>"

definition SetUsernameFragment :: "bytes \<Rightarrow> ice_server \<Rightarrow> ice_server" where
  "SetUsernameFragment usernameFragment ice =
     ice\<lparr>i_oldUsernameFragment := i_usernameFragment ice, i_usernameFragment := usernameFragment\<rparr>"

definition SetPassword :: "bytes \<Rightarrow> ice_server \<Rightarrow> ice_server" where
  "SetPassword password ice = ice\<lparr>i_oldPassword := i_password ice, i_password := password\<rparr>"

definition HandleTuple :: "TransportTuple \<Rightarrow> ice_server \<Rightarrow> ice_server \<times> ice_event list" where
  "HandleTuple tuple ice =
     (if i_state ice \<noteq> COMPLETED then
        (ice\<lparr>i_state := COMPLETED\<rparr>, if i_listener ice then [OnIceServerSelectedTuple tuple] else [])
      else (ice, []))"

type_synonym ice_result = "((ice_server \<times> bytes) \<times> ice_event list) res"

text \<open>Serialize a response into the static buffer and hand it to the listener.\<close>

definition send_response ::
  "hmac_lib \<Rightarrow> stun_packet \<Rightarrow> TransportTuple \<Rightarrow> ice_server \<Rightarrow> bytes \<Rightarrow> (bytes \<times> ice_event) res" where
  "send_response lib response tuple ice buffer =
     rbind (Serialize lib response buffer) (\<lambda>response.
       case p_data response of
         Some buffer \<Rightarrow>
           if i_listener ice then Ok (buffer, OnIceServerSendStunPacket response tuple) else Fault NullDeref
       | None \<Rightarrow> Fault NullDeref)"

definition reply_error ::
  "hmac_lib \<Rightarrow> stun_packet \<Rightarrow> uint16 \<Rightarrow> TransportTuple \<Rightarrow> ice_server \<Rightarrow> bytes \<Rightarrow> ice_result" where
  "reply_error lib packet errorCode tuple ice buffer =
     rbind (CreateErrorResponse packet errorCode) (\<lambda>response.
     rbind (send_response lib response tuple ice buffer) (\<lambda>(buffer, e). Ok ((ice, buffer), [e])))"

text \<open>The tail of the Binding request case: success response, then the tuple.\<close>

definition reply_success ::
  "hmac_lib \<Rightarrow> stun_packet \<Rightarrow> TransportTuple \<Rightarrow> ice_server \<Rightarrow> bytes \<Rightarrow> ice_result" where
  "reply_success lib packet tuple ice buffer =
     rbind (CreateSuccessResponse packet) (\<lambda>response.
     let response = SetXorMappedAddress response tuple;
         response = Authenticate response
           (if i_oldPassword ice = [] then i_password ice else i_oldPassword ice)
     in rbind (send_response lib response tuple ice buffer) (\<lambda>(buffer, e).
        let (ice, es) = HandleTuple tuple ice in Ok ((ice, buffer), e # es)))"

definition process_request ::
  "hmac_lib \<Rightarrow> stun_packet \<Rightarrow> TransportTuple \<Rightarrow> ice_server \<Rightarrow> bytes \<Rightarrow> ice_result" where
  "process_request lib packet tuple ice buffer =
     (if \<not> HasMessageIntegrity packet \<or> p_priority packet = 0 \<or> p_username packet = [] then
        reply_error lib packet 400 tuple ice buffer
      else
        rbind (CheckAuthentication lib packet (i_usernameFragment ice) (i_password ice)) (\<lambda>(auth, packet).
        case auth of
          AUTH_OK \<Rightarrow>
            let ice = (if i_oldPassword ice \<noteq> [] then ice\<lparr>i_oldUsernameFragment := [], i_oldPassword := []\<rparr> else ice)
            in reply_success lib packet tuple ice buffer
        | UNAUTHORIZED \<Rightarrow>
            if i_oldUsernameFragment ice \<noteq> [] \<and> i_oldPassword ice \<noteq> [] then
              rbind (CheckAuthentication lib packet (i_oldUsernameFragment ice) (i_oldPassword ice)) (\<lambda>(auth, packet).
              if auth = AUTH_OK then reply_success lib packet tuple ice buffer
              else reply_error lib packet 401 tuple ice buffer)
            else reply_error lib packet 401 tuple ice buffer
        | BAD_REQUEST \<Rightarrow> reply_error lib packet 400 tuple ice buffer))"

definition ProcessStunPacket ::
  "hmac_lib \<Rightarrow> stun_packet \<Rightarrow> TransportTuple \<Rightarrow> ice_server \<times> bytes \<Rightarrow> ice_result" where
  "ProcessStunPacket lib packet tuple = (\<lambda>(ice, buffer).
     if p_method packet \<noteq> BINDING then
       (if p_klass packet = REQUEST then reply_error lib packet 400 tuple ice buffer
        else Ok ((ice, buffer), []))
     else if \<not> p_hasFingerprint packet \<and> p_klass packet \<noteq> INDICATION then
       (if p_klass packet = REQUEST then reply_error lib packet 400 tuple ice buffer
        else Ok ((ice, buffer), []))
     else
       (case p_klass packet of
          REQUEST \<Rightarrow> process_request lib packet tuple ice buffer
        | INDICATION \<Rightarrow> Ok ((ice, buffer), [])
        | SUCCESS_RESPONSE \<Rightarrow> Ok ((ice, buffer), [])
        | ERROR_RESPONSE \<Rightarrow> Ok ((ice, buffer), [])))"

section \<open>Responses\<close>

text \<open>The response packets before serialization.\<close>

definition error_response :: "stun_packet \<Rightarrow> uint16 \<Rightarrow> stun_packet" where
  "error_response pkt code =
     (new_StunPacket ERROR_RESPONSE (p_method pkt) (p_transactionId pkt) None 0)\<lparr>p_errorCode := code\<rparr>"

definition success_response :: "stun_packet \<Rightarrow> TransportTuple \<Rightarrow> bytes \<Rightarrow> stun_packet" where
  "success_response pkt tuple password =
     (new_StunPacket SUCCESS_RESPONSE (p_method pkt) (p_transactionId pkt) None 0)
       \<lparr>p_xorMappedAddress := Some tuple, p_password := password\<rparr>"

lemma response_serializable:
  assumes "length (p_transactionId pkt) = 12"
  shows "serializable (error_response pkt code)" "serialized_size (error_response pkt code) \<le> 36"
    and "serializable (success_response pkt tuple password)" "serialized_size (success_response pkt tuple password) \<le> 76"
  using assms
  by (simp_all add: serializable_def error_response_def success_response_def new_StunPacket_def
      serialized_size_def usernamePaddedLen_def addXorMappedAddress_def addErrorCode_def addMessageIntegrity_def
      xor_address_len_def split: sockaddr.split)

text \<open>What the listener is handed: the packet with the message in the static buffer.\<close>

definition sent :: "hmac_lib \<Rightarrow> stun_packet \<Rightarrow> bytes \<Rightarrow> stun_packet" where
  "sent lib resp buffer =
     resp\<lparr>p_size := serialized_size resp,
       p_data := Some (enc_message lib resp buffer @ drop (serialized_size resp) buffer),
       p_messageIntegrity := (if addMessageIntegrity resp then Some (length (enc_attributes resp buffer) + 24) else None),
       p_hasFingerprint := True\<rparr>"

lemma send_response_eq:
  assumes "serializable resp" "serialized_size resp \<le> length buffer" "hmac_ok lib" "i_listener ice"
  shows "\<exists>buffer'. length buffer' = length buffer \<and>
    send_response lib resp tuple ice buffer = Inr (buffer', OnIceServerSendStunPacket (sent lib resp buffer) tuple)"
  using Serialize_eq [OF assms(1-3)] assms(2,4) length_enc_message(2) [OF assms(1-3)]
  by (simp add: send_response_def sent_def)

lemma reply_error_eq:
  assumes "p_klass pkt = REQUEST" "length (p_transactionId pkt) = 12" "36 \<le> length buffer" "hmac_ok lib" "i_listener ice"
  shows "\<exists>buffer'. length buffer' = length buffer \<and> reply_error lib pkt code tuple ice buffer =
    Inr ((ice, buffer'), [OnIceServerSendStunPacket (sent lib (error_response pkt code) buffer) tuple])"
  using send_response_eq [of "error_response pkt code" buffer lib ice tuple]
    response_serializable(1,2) [OF assms(2), of code] assms
  by (auto simp: reply_error_def CreateErrorResponse_def error_response_def)

lemma reply_success_eq:
  assumes "p_klass pkt = REQUEST" "length (p_transactionId pkt) = 12" "76 \<le> length buffer" "hmac_ok lib" "i_listener ice"
  defines "password \<equiv> if i_oldPassword ice = [] then i_password ice else i_oldPassword ice"
  shows "\<exists>buffer'. length buffer' = length buffer \<and> reply_success lib pkt tuple ice buffer =
    Inr ((fst (HandleTuple tuple ice), buffer'),
         OnIceServerSendStunPacket (sent lib (success_response pkt tuple password) buffer) tuple # snd (HandleTuple tuple ice))"
proof -
  have "Authenticate (SetXorMappedAddress (new_StunPacket SUCCESS_RESPONSE (p_method pkt) (p_transactionId pkt) None 0) tuple) password
      = success_response pkt tuple password"
    by (simp add: Authenticate_def SetXorMappedAddress_def success_response_def new_StunPacket_def)
  moreover have "serialized_size (success_response pkt tuple password) \<le> length buffer"
    using response_serializable(4) [OF assms(2)] assms(3) order_trans by blast
  ultimately show ?thesis
    using send_response_eq [of "success_response pkt tuple password" buffer lib ice tuple]
      response_serializable(3) [OF assms(2), of tuple password] assms
    by (auto simp: reply_success_def CreateSuccessResponse_def split_beta)
qed


section \<open>The decision\<close>

datatype ice_decision = Ignore | Reject uint16 | Accept bool

text \<open>The credentials a packet authenticates with. \<open>Accept True\<close> stands for the current ones,
  \<open>Accept False\<close> for the ones before the last change.\<close>

definition authenticates :: "hmac_lib \<Rightarrow> stun_packet \<Rightarrow> bytes \<Rightarrow> bytes \<Rightarrow> bool" where
  "authenticates lib pkt ufrag password \<longleftrightarrow> CheckAuthentication lib pkt ufrag password = Inr (AUTH_OK, pkt)"

definition ice_decide :: "hmac_lib \<Rightarrow> ice_server \<Rightarrow> stun_packet \<Rightarrow> ice_decision" where
  "ice_decide lib ice pkt =
     (if p_klass pkt \<noteq> REQUEST then Ignore
      else if p_method pkt \<noteq> BINDING \<or> \<not> p_hasFingerprint pkt \<or> p_messageIntegrity pkt = None \<or>
        p_priority pkt = 0 \<or> p_username pkt = [] then Reject 400
      else if authenticates lib pkt (i_usernameFragment ice) (i_password ice) then Accept True
      else if i_oldUsernameFragment ice \<noteq> [] \<and> i_oldPassword ice \<noteq> [] \<and>
        authenticates lib pkt (i_oldUsernameFragment ice) (i_oldPassword ice) then Accept False
      else Reject 401)"

definition drop_old_credentials :: "ice_server \<Rightarrow> ice_server" where
  "drop_old_credentials ice =
     (if i_oldPassword ice \<noteq> [] then ice\<lparr>i_oldUsernameFragment := [], i_oldPassword := []\<rparr> else ice)"

text \<open>The state and the events that belong to a decision.\<close>

fun ice_effect :: "hmac_lib \<Rightarrow> stun_packet \<Rightarrow> TransportTuple \<Rightarrow> ice_server \<Rightarrow> bytes \<Rightarrow> ice_decision \<Rightarrow> ice_server \<times> ice_event list" where
  "ice_effect lib pkt tuple ice buffer Ignore = (ice, [])"
| "ice_effect lib pkt tuple ice buffer (Reject code) =
     (ice, [OnIceServerSendStunPacket (sent lib (error_response pkt code) buffer) tuple])"
| "ice_effect lib pkt tuple ice buffer (Accept current) =
     (let password = (if current then i_password ice else i_oldPassword ice);
          ice = (if current then drop_old_credentials ice else ice)
      in (ice\<lparr>i_state := COMPLETED\<rparr>,
          OnIceServerSendStunPacket (sent lib (success_response pkt tuple password) buffer) tuple #
          (if i_state ice = COMPLETED then [] else [OnIceServerSelectedTuple tuple])))"

lemma CheckAuthentication_request:
  assumes "parsed_packet data len pkt" "len \<le> length data" "hmac_ok lib"
    and "p_klass pkt = REQUEST" "HasMessageIntegrity pkt" "p_username pkt \<noteq> []"
  shows "CheckAuthentication lib pkt u p = Inr (if authenticates lib pkt u p then AUTH_OK else UNAUTHORIZED, pkt)"
  using CheckAuthentication_parsed [OF assms(1-3), of u p] assms(4-6)
  by (auto simp: authenticates_def HasMessageIntegrity_def split: if_splits)

lemma ProcessStunPacket_eq:
  assumes pkt: "parsed_packet data len pkt" "len \<le> length data" and lib: "hmac_ok lib"
    and ice: "i_listener ice" and buf: "length buffer = StunSerializeBufferSize"
  shows "\<exists>buffer'. length buffer' = StunSerializeBufferSize \<and>
    ProcessStunPacket lib pkt tuple (ice, buffer) =
      (let (ice', es) = ice_effect lib pkt tuple ice buffer (ice_decide lib ice pkt) in Inr ((ice', buffer'), es))"
proof -
  have tid: "length (p_transactionId pkt) = 12"
    using pkt by (auto simp: parsed_packet_def header_ok_def)
  have b: "36 \<le> length buffer" "76 \<le> length buffer" using buf by (simp_all add: StunSerializeBufferSize_def)
  show ?thesis
  proof (cases "p_klass pkt")
    case REQUEST
    note err = reply_error_eq [OF REQUEST tid b(1) lib, of _ _ tuple] 
    note suc = reply_success_eq [OF REQUEST tid b(2) lib, of _ tuple]
    show ?thesis
    proof (cases "p_method pkt \<noteq> BINDING \<or> \<not> p_hasFingerprint pkt \<or> p_messageIntegrity pkt = None \<or>
        p_priority pkt = 0 \<or> p_username pkt = []")
      case True
      with REQUEST err [OF ice, of 400] buf show ?thesis
        by (auto simp: ProcessStunPacket_def process_request_def ice_decide_def HasMessageIntegrity_def)
    next
      case False
      then have auth: "CheckAuthentication lib pkt u p = Inr (if authenticates lib pkt u p then AUTH_OK else UNAUTHORIZED, pkt)" for u p
        using CheckAuthentication_request [OF pkt lib REQUEST] by (simp add: HasMessageIntegrity_def)
      let ?ice = "drop_old_credentials ice"
      have d: "i_listener ?ice" "i_password ?ice = i_password ice" "i_oldPassword ?ice = []" "i_state ?ice = i_state ice"
        using ice by (simp_all add: drop_old_credentials_def)
      have proc: "ProcessStunPacket lib pkt tuple (ice, buffer) =
          (if authenticates lib pkt (i_usernameFragment ice) (i_password ice) then
             reply_success lib pkt tuple ?ice buffer
           else if i_oldUsernameFragment ice \<noteq> [] \<and> i_oldPassword ice \<noteq> [] \<and>
             authenticates lib pkt (i_oldUsernameFragment ice) (i_oldPassword ice)
           then reply_success lib pkt tuple ice buffer
           else reply_error lib pkt 401 tuple ice buffer)"
        using False REQUEST
        by (simp add: ProcessStunPacket_def process_request_def HasMessageIntegrity_def auth drop_old_credentials_def)
      show ?thesis
        using False REQUEST err [OF ice, of 401] suc [OF d(1)] suc [OF ice] buf d
        by (auto simp: proc ice_decide_def HandleTuple_def Let_def ice split: if_splits)
    qed
  qed (use buf in \<open>auto simp: ProcessStunPacket_def ice_decide_def\<close>)
qed


section \<open>Operations on a server\<close>

datatype ice_op =
    Process stun_packet TransportTuple
  | Set_username_fragment bytes
  | Set_password bytes

text \<open>The state of a run: the HMAC library, which no operation changes, the server and the buffer.\<close>

type_synonym ice_world = "hmac_lib \<times> ice_server \<times> bytes"

fun ice_step :: "(ice_op, ice_world, ice_event) stepper" where
  "ice_step (Process pkt tuple) (lib, s) =
     rbind (ProcessStunPacket lib pkt tuple s) (\<lambda>(s', es). Ok ((lib, s'), es))"
| "ice_step (Set_username_fragment u) (lib, ice, buffer) = Ok ((lib, SetUsernameFragment u ice, buffer), [])"
| "ice_step (Set_password p) (lib, ice, buffer) = Ok ((lib, SetPassword p ice, buffer), [])"

text \<open>Packets come from the parser.\<close>

fun good_ice_op :: "ice_op \<Rightarrow> bool" where
  "good_ice_op (Process pkt tuple) \<longleftrightarrow>
     (\<exists>data len. Parse data len = Inr (Some pkt) \<and> len \<le> length data \<and> len < 65536)"
| "good_ice_op _ \<longleftrightarrow> True"

fun ice_inv :: "ice_world \<Rightarrow> bool" where
  "ice_inv (lib, ice, buffer) \<longleftrightarrow>
     hmac_ok lib \<and> i_listener ice \<and> length buffer = StunSerializeBufferSize \<and>
     (i_state ice = NEW \<or> i_state ice = COMPLETED) \<and> i_selectedTuple ice = None"

fun ice_completed :: "ice_world \<Rightarrow> bool" where
  "ice_completed (lib, ice, buffer) \<longleftrightarrow> i_state ice = COMPLETED"

fun is_selected :: "ice_event \<Rightarrow> bool" where
  "is_selected (OnIceServerSelectedTuple _) = True"
| "is_selected (OnIceServerSendStunPacket _ _) = False"

lemma ice_effect_frame:
  "ice_effect lib pkt tuple ice buffer d = (ice', es) \<Longrightarrow>
   i_listener ice' = i_listener ice \<and> i_selectedTuple ice' = i_selectedTuple ice \<and>
   i_usernameFragment ice' = i_usernameFragment ice \<and>
   (i_state ice' = i_state ice \<or> i_state ice' = COMPLETED) \<and>
   length (filter is_selected es) = (if i_state ice \<noteq> COMPLETED \<and> i_state ice' = COMPLETED then 1 else 0)"
  by (cases d) (auto simp: Let_def drop_old_credentials_def split: if_splits)

lemma ice_step_frame:
  assumes inv: "ice_inv s" and ok: "good_ice_op x"
  shows "\<exists>s' es. ice_step x s = Inr (s', es) \<and> ice_inv s' \<and>
    (ice_completed s \<longrightarrow> ice_completed s') \<and>
    length (filter is_selected es) = (if \<not> ice_completed s \<and> ice_completed s' then 1 else 0)"
proof -
  obtain lib ice buffer where s: "s = (lib, ice, buffer)" by (cases s) auto
  show ?thesis
  proof (cases x)
    case (Process pkt tuple)
    with ok obtain data len where "Parse data len = Inr (Some pkt)" "len \<le> length data" "len < 65536" by auto
    then have pkt: "parsed_packet data len pkt" "len \<le> length data" using Parse_parsed by auto
    obtain ice' es where e: "ice_effect lib pkt tuple ice buffer (ice_decide lib ice pkt) = (ice', es)" by fastforce
    obtain buffer' where b: "length buffer' = StunSerializeBufferSize"
      "ProcessStunPacket lib pkt tuple (ice, buffer) = Inr ((ice', buffer'), es)"
      using ProcessStunPacket_eq [OF pkt, of lib ice buffer tuple] inv by (auto simp: s e)
    show ?thesis using ice_effect_frame [OF e] b inv by (auto simp: Process s)
  qed (use inv in \<open>simp_all add: s SetUsernameFragment_def SetPassword_def\<close>)
qed

interpretation ice: latched_machine ice_step good_ice_op ice_inv ice_completed is_selected
  by unfold_locales (use ice_step_frame in fastforce)+

section \<open>What the peer receives\<close>

text \<open>How a client reads the value of XOR-MAPPED-ADDRESS (RFC 5389, section 15.2).\<close>

definition decode_address :: "bytes \<Rightarrow> bytes \<Rightarrow> sockaddr option" where
  "decode_address tid bs =
     (let port = of_be (xor_bytes (take 2 (drop 2 bs)) (take 2 magicCookie)) in
      if bs ! 1 = 0x01 then Some (AF_INET port (of_be (xor_bytes (drop 4 bs) magicCookie)))
      else if bs ! 1 = 0x02 then Some (AF_INET6 port (of_be (xor_bytes (drop 4 bs) (magicCookie @ tid))))
      else None)"

lemma xor_bytes_twice: "length xs \<le> length ks \<Longrightarrow> xor_bytes (xor_bytes xs ks) ks = xs"
proof (induction xs arbitrary: ks)
  case (Cons x xs)
  then obtain k ks' where "ks = k # ks'" by (cases ks) auto
  with Cons show ?case by (simp add: xor_bytes_def xor.assoc)
qed (simp add: xor_bytes_def)

lemma of_be_16: "of_be (be_bytes 16 (a :: 128 word)) = a"
  by (simp add: of_be_be_bytes take_bit_word_eq_self)

lemma decode_enc_address:
  assumes "length tid = 12" "\<And>f. addr \<noteq> AF_OTHER f"
  shows "decode_address tid (enc_address tid addr) = Some addr"
proof (cases addr)
  case (AF_INET port a)
  then show ?thesis
    by (simp add: decode_address_def enc_address_def xor_bytes_twice min_def)
next
  case (AF_INET6 port a)
  then show ?thesis using assms(1)
    by (simp add: decode_address_def enc_address_def xor_bytes_twice min_def of_be_16)
qed (use assms(2) in simp)

lemma sent_error_parses:
  assumes "length (p_transactionId pkt) = 12" "36 \<le> length buffer" "hmac_ok lib"
    and "p_method pkt < 128" "0 < code" "code < 25600"
  shows "\<exists>data n r. sent lib (error_response pkt code) buffer = r \<and> p_data r = Some data \<and> p_size r = n \<and>
    Parse data n = Inr (Some (reparsed r)) \<and>
    p_klass (reparsed r) = ERROR_RESPONSE \<and> p_method (reparsed r) = p_method pkt \<and>
    p_transactionId (reparsed r) = p_transactionId pkt \<and> p_errorCode (reparsed r) = code"
proof -
  let ?e = "error_response pkt code"
  have s: "serializable ?e" "serialized_size ?e \<le> 36" using response_serializable(1,2) [OF assms(1)] by auto
  then have "serialized_size ?e \<le> length buffer" "serialized_size ?e \<le> 65532" using assms(2) by auto
  moreover have "p_method ?e < 128" "p_errorCode ?e < 25600" "addErrorCode ?e"
    using assms(4,5,6) by (auto simp: error_response_def new_StunPacket_def addErrorCode_def)
  ultimately show ?thesis
    using Parse_enc_message [OF s(1) _ assms(3) _ _ _ refl, of buffer "drop (serialized_size ?e) buffer"]
    by (simp add: with_attributes_reparsed sent_def)
      (simp add: reparsed_def error_response_def new_StunPacket_def addErrorCode_def)
qed

lemma success_response_fields:
  assumes "p_method pkt = BINDING" "password \<noteq> []" "\<And>f. tuple \<noteq> AF_OTHER f"
  defines "e \<equiv> success_response pkt tuple password"
  shows "p_method e = BINDING" "p_errorCode e = 0" "addMessageIntegrity e" "addXorMappedAddress e = Some tuple"
    "p_password e = password" "p_transactionId e = p_transactionId pkt" "p_klass e = SUCCESS_RESPONSE" "p_username e = []"
    "enc_priority e = []" "enc_iceControlling e = []" "enc_iceControlled e = []" "enc_useCandidate e = []"
  using assms(1-3)
  by (cases tuple; simp add: e_def success_response_def new_StunPacket_def addMessageIntegrity_def
      addXorMappedAddress_def enc_priority_def enc_iceControlling_def enc_iceControlled_def enc_useCandidate_def)+

text \<open>The first attribute of a success response is the address of the peer.\<close>

lemma success_response_layout:
  assumes tid: "length (p_transactionId pkt) = 12" and r: "p_method pkt = BINDING" "password \<noteq> []" "\<And>f. tuple \<noteq> AF_OTHER f"
  defines "e \<equiv> success_response pkt tuple password"
  shows "\<exists>h rest. enc_message lib e buffer @ drop (serialized_size e) buffer =
      h @ (attr_header XOR_MAPPED_ADDRESS (word_of_nat (xor_address_len tuple)) @ enc_address (p_transactionId pkt) tuple) @ rest \<and> length h = 20"
proof (intro exI conjI)
  let ?sz = "word_of_nat (serialized_size e) :: uint16"
  show "enc_message lib e buffer @ drop (serialized_size e) buffer =
      enc_header e (?sz - 20) @ (attr_header XOR_MAPPED_ADDRESS (word_of_nat (xor_address_len tuple))
      @ enc_address (p_transactionId pkt) tuple) @ (enc_errorCode e
      @ enc_integrity lib e (enc_header e (?sz - 28) @ enc_attributes e buffer)
      @ enc_fingerprint (enc_body lib e buffer) @ drop (serialized_size e) buffer)"
    using success_response_fields [OF r, folded e_def] tid
    by (simp add: enc_message_def enc_body_def enc_attributes_def enc_username_def enc_xorMappedAddress_def Let_def)
  have "serializable e" using response_serializable(3) [OF tid] by (simp add: e_def)
  then show "length (enc_header e (?sz - 20)) = 20" by (rule length_enc_header)
qed

lemma sent_success_verifies:
  assumes tid: "length (p_transactionId pkt) = 12" and buf: "76 \<le> length buffer" and lib: "hmac_ok lib"
    and m: "p_method pkt = BINDING" and pw: "password \<noteq> []" and addr: "\<And>f. tuple \<noteq> AF_OTHER f"
  shows "\<exists>data n r mi. sent lib (success_response pkt tuple password) buffer = r \<and> p_data r = Some data \<and> p_size r = n \<and>
    Parse data n = Inr (Some (reparsed r)) \<and>
    p_klass (reparsed r) = SUCCESS_RESPONSE \<and> p_method (reparsed r) = BINDING \<and>
    p_transactionId (reparsed r) = p_transactionId pkt \<and>
    p_messageIntegrity (reparsed r) = Some mi \<and>
    take 20 (drop mi data) = hmac_digest lib password (integrity_text data mi) \<and>
    Get2Bytes data 20 = Inr (Attribute_code XOR_MAPPED_ADDRESS) \<and>
    decode_address (p_transactionId pkt) (take (xor_address_len tuple) (drop 24 data)) = Some tuple"
proof -
  define e where "e = success_response pkt tuple password"
  define data where "data = enc_message lib e buffer @ drop (serialized_size e) buffer"
  have s: "serializable e" "serialized_size e \<le> length buffer" "serialized_size e \<le> 65532"
    using response_serializable(3,4) [OF tid, of tuple password] buf by (simp_all add: e_def)
  note f = success_response_fields [OF m pw addr, folded e_def]
  have parse: "Parse data (serialized_size e) = Inr (Some (reparsed (sent lib e buffer)))"
  proof -
    have "p_method e < 128" "p_errorCode e < 25600" using f(1,2) by (simp_all add: BINDING_def)
    from Parse_enc_message [OF s(1,2) lib s(3) this data_def] show ?thesis
      unfolding with_attributes_reparsed by (simp add: sent_def data_def [symmetric])
  qed
  have mac: "take 20 (drop (length (enc_attributes e buffer) + 24) data)
      = hmac_digest lib password (integrity_text data (length (enc_attributes e buffer) + 24))"
    using integrity_text_enc(2) [OF s(1,2) lib f(3) data_def] f(5) by simp
  obtain h rest where d: "data = h @ (attr_header XOR_MAPPED_ADDRESS (word_of_nat (xor_address_len tuple))
      @ enc_address (p_transactionId pkt) tuple) @ rest" "length h = 20"
    using success_response_layout [OF tid m pw addr, of lib buffer] unfolding data_def e_def by blast
  have len: "length (enc_address (p_transactionId pkt) tuple) = xor_address_len tuple"
    using addr tid by (cases tuple) (simp_all add: enc_address_def xor_address_len_def)
  have "take (xor_address_len tuple) (drop 24 data) = enc_address (p_transactionId pkt) tuple"
    using d len by simp
  then have "decode_address (p_transactionId pkt) (take (xor_address_len tuple) (drop 24 data)) = Some tuple"
    using decode_enc_address [OF tid addr] by simp
  moreover have "Get2Bytes data 20 = Inr (Attribute_code XOR_MAPPED_ADDRESS)"
    using u16.get_append [where v = "Attribute_code XOR_MAPPED_ADDRESS" and i = 20 and pre = h] d
    by (simp add: attr_header_def)
  ultimately show ?thesis
    using parse mac f by (simp add: sent_def reparsed_def e_def [symmetric] data_def [symmetric])
qed

lemma Serialize_error_response:
  assumes "p_klass pkt = REQUEST" "length (p_transactionId pkt) = 12" "36 \<le> length buffer" "hmac_ok lib"
  shows "rbind (CreateErrorResponse pkt code) (\<lambda>resp. Serialize lib resp buffer)
    = Inr (sent lib (error_response pkt code) buffer)"
  using Serialize_eq [of "error_response pkt code" buffer lib] response_serializable(1,2) [OF assms(2), of code] assms
  by (simp add: CreateErrorResponse_def error_response_def sent_def)

lemma Serialize_success_response:
  assumes "p_klass pkt = REQUEST" "length (p_transactionId pkt) = 12" "76 \<le> length buffer" "hmac_ok lib"
  shows "rbind (CreateSuccessResponse pkt) (\<lambda>resp.
      Serialize lib (Authenticate (SetXorMappedAddress resp tuple) password) buffer)
    = Inr (sent lib (success_response pkt tuple password) buffer)"
proof -
  have "Authenticate (SetXorMappedAddress (new_StunPacket SUCCESS_RESPONSE (p_method pkt) (p_transactionId pkt) None 0) tuple) password
      = success_response pkt tuple password"
    by (simp add: Authenticate_def SetXorMappedAddress_def success_response_def new_StunPacket_def)
  then show ?thesis
    using Serialize_eq [of "success_response pkt tuple password" buffer lib]
      response_serializable(3,4) [OF assms(2), of tuple password] assms
    by (simp add: CreateSuccessResponse_def sent_def)
qed

section \<open>Properties\<close>

text \<open>The request of the examples as the parser returns it, and a server that knows its password.\<close>

definition received_check :: stun_packet where
  "received_check = reparsed (sent example_hmac example_check (replicate 100 0))"

definition example_ice :: ice_server where
  "example_ice = new_IceServer True (str ''ab'') (str ''pw'')"

lemma received_check_parsed:
  "\<exists>data. Parse data 72 = Inr (Some received_check) \<and> 72 \<le> length data"
proof -
  let ?d = "enc_message example_hmac example_check (replicate 100 0) @ drop 72 (replicate 100 0)"
  have "Parse ?d 72 = Inr (Some received_check)"
    using Parse_enc_message [of example_check "replicate 100 0" example_hmac, OF _ _ _ _ _ _ refl, of "drop 72 (replicate 100 0)"]
    unfolding with_attributes_reparsed
    by (simp add: received_check_def sent_def example_check_ok example_check_size example_hmac_ok)
  moreover have "72 \<le> length ?d"
    using length_enc_message(2) [of example_check "replicate 100 0" example_hmac]
    by (simp add: example_check_ok example_check_size example_hmac_ok)
  ultimately show ?thesis by blast
qed

text \<open>C6: on every packet from the parser, ProcessStunPacket returns, and its effect is the one of the
  decision: responses and indications are ignored; a request that is not a Binding request or lacks
  FINGERPRINT, MESSAGE-INTEGRITY, PRIORITY or USERNAME gets a 400; one that authenticates with the current
  credentials (which then drop the old ones) or else with the old ones gets a success response under the
  matching password, completes the server and selects the tuple if no tuple was selected before; any other
  gets a 401 and changes nothing.\<close>

theorem ice_process_stun_packet:
  assumes "Parse data len = Inr (Some pkt)" and "len \<le> length data" and "len < 65536"
    and "hmac_ok lib" and "i_listener ice" and "length buffer = StunSerializeBufferSize"
  shows "\<exists>buffer'. length buffer' = StunSerializeBufferSize \<and>
    ProcessStunPacket lib pkt tuple (ice, buffer) =
      (let (ice', es) = ice_effect lib pkt tuple ice buffer (ice_decide lib ice pkt) in Inr ((ice', buffer'), es))"
  using ProcessStunPacket_eq [OF Parse_parsed, OF assms(1-3) assms(2,4-6)] .

theorem ice_process_stun_packet_witness:
  "\<exists>buffer'. length buffer' = StunSerializeBufferSize \<and>
    ProcessStunPacket example_hmac received_check (AF_INET 5000 1) (example_ice, replicate StunSerializeBufferSize 0) =
      (let (ice', es) = ice_effect example_hmac received_check (AF_INET 5000 1) example_ice
          (replicate StunSerializeBufferSize 0) (ice_decide example_hmac example_ice received_check)
       in Inr ((ice', buffer'), es))"
proof -
  obtain data where "Parse data 72 = Inr (Some received_check)" "72 \<le> length data"
    using received_check_parsed by blast
  then show ?thesis
    by (rule ice_process_stun_packet) (simp_all add: example_hmac_ok example_ice_def new_IceServer_def)
qed

text \<open>The error responses the server sends are well-formed STUN messages that carry the method and
  the transaction id of the request and the error code, for every method below 128.\<close>

theorem ice_error_response_parses:
  assumes "p_klass pkt = REQUEST" and "length (p_transactionId pkt) = 12" and "hmac_ok lib" and "p_method pkt < 128"
    and "length buffer = StunSerializeBufferSize" and "code = 400 \<or> code = 401"
  shows "\<exists>data n r. rbind (CreateErrorResponse pkt code) (\<lambda>resp. Serialize lib resp buffer) = Inr r \<and>
    p_data r = Some data \<and> p_size r = n \<and> Parse data n = Inr (Some (reparsed r)) \<and>
    p_klass (reparsed r) = ERROR_RESPONSE \<and> p_method (reparsed r) = p_method pkt \<and>
    p_transactionId (reparsed r) = p_transactionId pkt \<and> p_errorCode (reparsed r) = code"
proof -
  have "36 \<le> length buffer" "0 < code" "code < 25600" using assms(5,6) by (auto simp: StunSerializeBufferSize_def)
  then show ?thesis
    using sent_error_parses [of pkt buffer lib code] Serialize_error_response [of pkt buffer lib code] assms(1-4)
    by (simp del: rbind_eq_Inr)
qed

theorem ice_error_response_parses_witness:
  "\<exists>data n r. rbind (CreateErrorResponse example_check 401)
      (\<lambda>resp. Serialize example_hmac resp (replicate StunSerializeBufferSize 0)) = Inr r \<and>
    p_data r = Some data \<and> p_size r = n \<and>
    Parse data n = Inr (Some (reparsed r)) \<and>
    p_klass (reparsed r) = ERROR_RESPONSE \<and> p_method (reparsed r) = p_method example_check \<and>
    p_transactionId (reparsed r) = p_transactionId example_check \<and> p_errorCode (reparsed r) = 401"
  by (rule ice_error_response_parses)
    (use example_check_ok example_hmac_ok in \<open>simp_all add: serializable_def\<close>)

text \<open>A success response parses back as a Binding success response with the transaction id of the
  request; its MESSAGE-INTEGRITY is the HMAC of the message under the password of the accepted credentials,
  and its first attribute is an XOR-MAPPED-ADDRESS that decodes to the address the request came from.\<close>

theorem ice_success_response_verifies:
  assumes "p_klass pkt = REQUEST" and "length (p_transactionId pkt) = 12" and "hmac_ok lib" and "p_method pkt = BINDING"
    and "length buffer = StunSerializeBufferSize" and "password \<noteq> []" and "\<forall>f. tuple \<noteq> AF_OTHER f"
  shows "\<exists>data n r mi. rbind (CreateSuccessResponse pkt) (\<lambda>resp.
      Serialize lib (Authenticate (SetXorMappedAddress resp tuple) password) buffer) = Inr r \<and> p_data r = Some data \<and> p_size r = n \<and>
    Parse data n = Inr (Some (reparsed r)) \<and>
    p_klass (reparsed r) = SUCCESS_RESPONSE \<and> p_method (reparsed r) = BINDING \<and>
    p_transactionId (reparsed r) = p_transactionId pkt \<and>
    p_messageIntegrity (reparsed r) = Some mi \<and>
    take 20 (drop mi data) = hmac_digest lib password (integrity_text data mi) \<and>
    Get2Bytes data 20 = Inr (Attribute_code XOR_MAPPED_ADDRESS) \<and>
    decode_address (p_transactionId pkt) (take (xor_address_len tuple) (drop 24 data)) = Some tuple"
proof -
  have "76 \<le> length buffer" using assms(5) by (simp add: StunSerializeBufferSize_def)
  then show ?thesis
    using sent_success_verifies [of pkt buffer lib password tuple]
      Serialize_success_response [of pkt buffer lib tuple password] assms
    by (simp del: rbind_eq_Inr)
qed

theorem ice_success_response_verifies_witness:
  "\<exists>data n r mi. rbind (CreateSuccessResponse example_check) (\<lambda>resp. Serialize example_hmac
        (Authenticate (SetXorMappedAddress resp (AF_INET 5000 1)) (str ''pw'')) (replicate StunSerializeBufferSize 0)) = Inr r \<and> p_data r = Some data \<and> p_size r = n \<and>
    Parse data n = Inr (Some (reparsed r)) \<and>
    p_klass (reparsed r) = SUCCESS_RESPONSE \<and> p_method (reparsed r) = BINDING \<and>
    p_transactionId (reparsed r) = p_transactionId example_check \<and>
    p_messageIntegrity (reparsed r) = Some mi \<and>
    take 20 (drop mi data) = hmac_digest example_hmac (str ''pw'') (integrity_text data mi) \<and>
    Get2Bytes data 20 = Inr (Attribute_code XOR_MAPPED_ADDRESS) \<and>
    decode_address (p_transactionId example_check) (take (xor_address_len (AF_INET 5000 1)) (drop 24 data))
      = Some (AF_INET 5000 1)"
  by (rule ice_success_response_verifies)
    (simp_all add: example_hmac_ok example_check_def new_StunPacket_def str_def)

text \<open>C19: through any sequence of parsed packets and credential changes a server never faults, stays in
  the states NEW and COMPLETED, and reports a selected tuple to its listener exactly when it completes, so
  at most once; the tuple it selected first is never replaced.\<close>

theorem ice_selects_once:
  assumes "ice_inv s" and "list_all good_ice_op ops"
  shows "\<exists>s' es. run_ops ice_step ops s = Inr (s', es) \<and> ice_inv s' \<and>
    length (filter is_selected es) = (if \<not> ice_completed s \<and> ice_completed s' then 1 else 0)"
  using ice.run_safe [OF assms] ice.run_marks [OF assms] by blast

theorem ice_selects_once_witness:
  "\<exists>s' es. run_ops ice_step [Process received_check (AF_INET 5000 1), Set_password (str ''x''), Process received_check (AF_INET 6000 1)]
      (example_hmac, example_ice, replicate StunSerializeBufferSize 0) = Inr (s', es) \<and> ice_inv s' \<and>
    length (filter is_selected es) =
      (if \<not> ice_completed (example_hmac, example_ice, replicate StunSerializeBufferSize 0) \<and> ice_completed s' then 1 else 0)"
proof (rule ice_selects_once)
  show "list_all good_ice_op [Process received_check (AF_INET 5000 1), Set_password (str ''x''), Process received_check (AF_INET 6000 1)]"
    using received_check_parsed by fastforce
qed (simp add: example_hmac_ok example_ice_def new_IceServer_def)

end
