(* ===== verification/SrtpSession.thy ===== *)
theory SrtpSession
  imports Prelude
begin

text \<open>
  \<open>RTC::SrtpSession\<close> and \<open>RTC::DepLibSRTP\<close> (rtc/srtp_session.h, rtc/srtp_session.cc).
  libsrtp is a parameter: a record of the functions the code calls, over an opaque session type. A
  status code is a natural number, 0 for success. \<open>srtp_protect\<close> and its siblings transform the
  buffer they are given in place and update the length. The argument \<open>log\<close> says whether the log
  statement on the error path is enabled; only then is its message looked up.
\<close>

section \<open>Data\<close>

datatype CryptoSuite =
    NONE
  | AES_CM_128_HMAC_SHA1_80
  | AES_CM_128_HMAC_SHA1_32
  | AEAD_AES_256_GCM
  | AEAD_AES_128_GCM

datatype Type = INBOUND | OUTBOUND

text \<open>The crypto policies of libsrtp that the code selects, and the policy it fills in.\<close>

datatype crypto_policy =
    aes_cm_128_hmac_sha1_80
  | aes_cm_128_hmac_sha1_32
  | aes_gcm_256_16_auth
  | aes_gcm_128_16_auth

datatype ssrc_type = ssrc_any_inbound | ssrc_any_outbound

record srtp_policy =
  pol_rtp :: crypto_policy
  pol_rtcp :: crypto_policy
  pol_ssrc_type :: ssrc_type
  pol_ssrc_value :: nat
  pol_key :: bytes
  pol_allow_repeat_tx :: nat
  pol_window_size :: nat

record 'ss srtp_lib =
  SRTP_MAX_TRAILER_LEN :: nat
  cipher_key_len :: "crypto_policy \<Rightarrow> nat"
  srtp_init :: nat
  srtp_create :: "srtp_policy \<Rightarrow> nat \<times> 'ss"
  srtp_dealloc :: "'ss \<Rightarrow> nat"
  srtp_protect :: "'ss \<Rightarrow> bytes \<Rightarrow> nat \<Rightarrow> nat \<times> 'ss \<times> bytes \<times> nat"
  srtp_unprotect :: "'ss \<Rightarrow> bytes \<Rightarrow> nat \<Rightarrow> nat \<times> 'ss \<times> bytes \<times> nat"
  srtp_protect_rtcp :: "'ss \<Rightarrow> bytes \<Rightarrow> nat \<Rightarrow> nat \<times> 'ss \<times> bytes \<times> nat"
  srtp_unprotect_rtcp :: "'ss \<Rightarrow> bytes \<Rightarrow> nat \<Rightarrow> nat \<times> 'ss \<times> bytes \<times> nat"

record 'ss srtp_session =
  ss_session :: "'ss option"
  ss_is_init :: bool
  ss_encrypt_buffer :: bytes

definition kEncryptBufferSize :: nat where "kEncryptBufferSize = 65536"

section \<open>DepLibSRTP\<close>

definition IsError :: "nat \<Rightarrow> bool" where
  "IsError code \<longleftrightarrow> code \<noteq> 0"

text \<open>The table has 25 entries; \<open>at\<close> throws beyond them. The names in parentheses identify the
  messages.\<close>

definition errors :: "string list" where
  "errors =
     [''srtp_err_status_ok'', ''srtp_err_status_fail'', ''srtp_err_status_bad_param'',
      ''srtp_err_status_alloc_fail'', ''srtp_err_status_dealloc_fail'', ''srtp_err_status_init_fail'',
      ''srtp_err_status_terminus'', ''srtp_err_status_auth_fail'', ''srtp_err_status_cipher_fail'',
      ''srtp_err_status_replay_fail'', ''srtp_err_status_replay_old'', ''srtp_err_status_algo_fail'',
      ''srtp_err_status_no_such_op'', ''srtp_err_status_no_ctx'', ''srtp_err_status_cant_check'',
      ''srtp_err_status_key_expired'', ''srtp_err_status_socket_err'', ''srtp_err_status_signal_err'',
      ''srtp_err_status_nonce_bad'', ''srtp_err_status_read_fail'', ''srtp_err_status_write_fail'',
      ''srtp_err_status_parse_err'', ''srtp_err_status_encode_err'', ''srtp_err_status_semaphore_err'',
      ''srtp_err_status_pfkey_err'']"

definition GetErrorString :: "nat \<Rightarrow> string res" where
  "GetErrorString code = (if code < length errors then Ok (errors ! code) else Fault (Throw ''out_of_range''))"

text \<open>A log statement whose message is the error string.\<close>

definition log_error :: "bool \<Rightarrow> nat \<Rightarrow> unit res" where
  "log_error log err = (if log then rbind (GetErrorString err) (\<lambda>_. Ok ()) else Ok ())"

definition DepLibSRTP_ClassInit :: "'ss srtp_lib \<Rightarrow> unit res" where
  "DepLibSRTP_ClassInit lib =
     (if IsError (srtp_init lib) then
        rbind (GetErrorString (srtp_init lib)) (\<lambda>_. Fault (Throw ''srtp_init() failed''))
      else Ok ())"

section \<open>Sessions\<close>

fun suite_policy :: "CryptoSuite \<Rightarrow> (crypto_policy \<times> crypto_policy) res" where
  "suite_policy AES_CM_128_HMAC_SHA1_80 = Ok (aes_cm_128_hmac_sha1_80, aes_cm_128_hmac_sha1_80)"
| "suite_policy AES_CM_128_HMAC_SHA1_32 = Ok (aes_cm_128_hmac_sha1_32, aes_cm_128_hmac_sha1_80)"
| "suite_policy AEAD_AES_256_GCM = Ok (aes_gcm_256_16_auth, aes_gcm_256_16_auth)"
| "suite_policy AEAD_AES_128_GCM = Ok (aes_gcm_128_16_auth, aes_gcm_128_16_auth)"
| "suite_policy NONE = Fault (Abort ''unknown SRTP crypto suite'')"

text \<open>The constructor. \<open>buffer\<close> is the freshly allocated, uninitialised encryption buffer.\<close>

definition new_SrtpSession ::
  "'ss srtp_lib \<Rightarrow> bytes \<Rightarrow> Type \<Rightarrow> CryptoSuite \<Rightarrow> bytes \<Rightarrow> nat \<Rightarrow> 'ss srtp_session res" where
  "new_SrtpSession lib buffer type cryptoSuite key keyLen =
     rbind (suite_policy cryptoSuite) (\<lambda>(rtp, rtcp).
     rbind (ms_assert (keyLen = cipher_key_len lib rtp) ''given keyLen does not match policy.rtp.cipher_keyLen'') (\<lambda>_.
     let policy =
           \<lparr>pol_rtp = rtp, pol_rtcp = rtcp,
            pol_ssrc_type = (case type of INBOUND \<Rightarrow> ssrc_any_inbound | OUTBOUND \<Rightarrow> ssrc_any_outbound),
            pol_ssrc_value = 0, pol_key = key, pol_allow_repeat_tx = 1, pol_window_size = 1024\<rparr>;
         (err, session) = srtp_create lib policy
     in if IsError err then rbind (GetErrorString err) (\<lambda>_. Fault (Throw ''srtp_create() failed''))
        else Ok \<lparr>ss_session = Some session, ss_is_init = True, ss_encrypt_buffer = buffer\<rparr>))"

definition delete_SrtpSession :: "'ss srtp_lib \<Rightarrow> 'ss srtp_session \<Rightarrow> unit res" where
  "delete_SrtpSession lib s =
     (case ss_session s of
        None \<Rightarrow> Ok ()
      | Some session \<Rightarrow>
          if IsError (srtp_dealloc lib session) then
            rbind (GetErrorString (srtp_dealloc lib session)) (\<lambda>_. Fault (Abort ''srtp_dealloc() failed''))
          else Ok ())"

text \<open>Copy into the encryption buffer and protect there. The result is the success flag and the data
  pointer (the buffer it points to) and length as the caller sees them afterwards.\<close>

definition encrypt_with ::
  "('ss \<Rightarrow> bytes \<Rightarrow> nat \<Rightarrow> nat \<times> 'ss \<times> bytes \<times> nat) \<Rightarrow> bool \<Rightarrow> bytes \<Rightarrow> nat \<Rightarrow> 'ss srtp_session
   \<Rightarrow> ((bool \<times> bytes \<times> nat) \<times> 'ss srtp_session) res" where
  "encrypt_with protect log data len s =
     rbind (rd_range data 0 len) (\<lambda>bs.
     rbind (wr_range (ss_encrypt_buffer s) 0 bs) (\<lambda>buf.
     case ss_session s of
       None \<Rightarrow> Fault NullDeref
     | Some session \<Rightarrow>
         let (err, session', buf', len') = protect session buf len;
             s' = s\<lparr>ss_session := Some session', ss_encrypt_buffer := buf'\<rparr>
         in if IsError err then rbind (log_error log err) (\<lambda>_. Ok ((False, data, len'), s'))
            else Ok ((True, buf', len'), s')))"

definition EncryptRtp ::
  "'ss srtp_lib \<Rightarrow> bool \<Rightarrow> bytes \<Rightarrow> nat \<Rightarrow> 'ss srtp_session \<Rightarrow> ((bool \<times> bytes \<times> nat) \<times> 'ss srtp_session) res" where
  "EncryptRtp lib log data len s =
     (if \<not> ss_is_init s then Ok ((False, data, len), s)
      else if len + SRTP_MAX_TRAILER_LEN lib > kEncryptBufferSize then Ok ((False, data, len), s)
      else encrypt_with (srtp_protect lib) log data len s)"

definition EncryptRtcp ::
  "'ss srtp_lib \<Rightarrow> bool \<Rightarrow> bytes \<Rightarrow> nat \<Rightarrow> 'ss srtp_session \<Rightarrow> ((bool \<times> bytes \<times> nat) \<times> 'ss srtp_session) res" where
  "EncryptRtcp lib log data len s =
     (if len + SRTP_MAX_TRAILER_LEN lib > kEncryptBufferSize then Ok ((False, data, len), s)
      else encrypt_with (srtp_protect_rtcp lib) log data len s)"

definition decrypt_with ::
  "('ss \<Rightarrow> bytes \<Rightarrow> nat \<Rightarrow> nat \<times> 'ss \<times> bytes \<times> nat) \<Rightarrow> bool \<Rightarrow> bytes \<Rightarrow> nat \<Rightarrow> 'ss srtp_session
   \<Rightarrow> ((bool \<times> bytes \<times> nat) \<times> 'ss srtp_session) res" where
  "decrypt_with unprotect log data len s =
     (case ss_session s of
        None \<Rightarrow> Fault NullDeref
      | Some session \<Rightarrow>
          let (err, session', data', len') = unprotect session data len;
              s' = s\<lparr>ss_session := Some session'\<rparr>
          in if IsError err then rbind (log_error log err) (\<lambda>_. Ok ((False, data', len'), s'))
             else Ok ((True, data', len'), s'))"

definition DecryptSrtp ::
  "'ss srtp_lib \<Rightarrow> bool \<Rightarrow> bytes \<Rightarrow> nat \<Rightarrow> 'ss srtp_session \<Rightarrow> ((bool \<times> bytes \<times> nat) \<times> 'ss srtp_session) res" where
  "DecryptSrtp lib log data len s = decrypt_with (srtp_unprotect lib) log data len s"

definition DecryptSrtcp ::
  "'ss srtp_lib \<Rightarrow> bool \<Rightarrow> bytes \<Rightarrow> nat \<Rightarrow> 'ss srtp_session \<Rightarrow> ((bool \<times> bytes \<times> nat) \<times> 'ss srtp_session) res" where
  "DecryptSrtcp lib log data len s = decrypt_with (srtp_unprotect_rtcp lib) log data len s"

section \<open>What the library promises\<close>

text \<open>
  Documented behaviour of libsrtp: \<open>srtp_protect\<close> and \<open>srtp_protect_rtcp\<close> need
  \<open>SRTP_MAX_TRAILER_LEN\<close> bytes of room behind the packet and write nowhere else, so the buffer keeps
  its size and the new length grows by at most the trailer; the unprotect functions shrink the packet.
  Status codes are those of the table.
\<close>

definition srtp_call_ok :: "nat \<Rightarrow> nat \<Rightarrow> nat \<times> 'ss \<times> bytes \<times> nat \<Rightarrow> bytes \<Rightarrow> bool" where
  "srtp_call_ok limit grow r buf =
     (case r of (err, ss, buf', len') \<Rightarrow> err < limit \<and> length buf' = length buf \<and> len' \<le> grow)"

definition srtp_ok :: "'ss srtp_lib \<Rightarrow> bool" where
  "srtp_ok lib \<longleftrightarrow>
     (\<forall>ss buf len.
        srtp_call_ok 25 (len + SRTP_MAX_TRAILER_LEN lib) (srtp_protect lib ss buf len) buf \<and>
        srtp_call_ok 25 (len + SRTP_MAX_TRAILER_LEN lib) (srtp_protect_rtcp lib ss buf len) buf \<and>
        srtp_call_ok 25 len (srtp_unprotect lib ss buf len) buf \<and>
        srtp_call_ok 25 len (srtp_unprotect_rtcp lib ss buf len) buf)"

definition session_ok :: "'ss srtp_session \<Rightarrow> bool" where
  "session_ok s \<longleftrightarrow> ss_session s \<noteq> None \<and> length (ss_encrypt_buffer s) = kEncryptBufferSize"

lemma log_error_ok: "err < 25 \<Longrightarrow> log_error log err = Inr ()"
  by (simp add: log_error_def GetErrorString_def errors_def)

lemma encrypt_with_ok:
  assumes ok: "\<And>ss buf. srtp_call_ok 25 (len + trailer) (protect ss buf len) buf"
    and s: "session_ok s" and len: "len \<le> length data" "len + trailer \<le> kEncryptBufferSize"
  shows "\<exists>r data' len' s'. encrypt_with protect log data len s = Inr ((r, data', len'), s') \<and> session_ok s' \<and>
    (ss_is_init s' = ss_is_init s) \<and> len' \<le> len + trailer \<and>
    (if r then data' = ss_encrypt_buffer s' \<and> len' \<le> length data' else data' = data)"
proof -
  obtain ss where ss: "ss_session s = Some ss" and buf: "length (ss_encrypt_buffer s) = kEncryptBufferSize"
    using s by (auto simp: session_ok_def)
  let ?buf = "take len data @ drop len (ss_encrypt_buffer s)"
  obtain err ss' buf' len' where p: "protect ss ?buf len = (err, ss', buf', len')"
    by (metis prod_cases4)
  have c: "err < 25" "length buf' = length ?buf" "len' \<le> len + trailer"
    using ok [of ss ?buf] by (simp_all add: srtp_call_ok_def p)
  have "min (length data) len = len" "len \<le> kEncryptBufferSize" using len by simp_all
  then have "encrypt_with protect log data len s = Inr
      ((\<not> IsError err, if IsError err then data else buf', len'), s\<lparr>ss_session := Some ss', ss_encrypt_buffer := buf'\<rparr>)"
    using len(1) ss buf p c(1) by (simp add: encrypt_with_def wr_range_def log_error_ok Let_def)
  moreover have "session_ok (s\<lparr>ss_session := Some ss', ss_encrypt_buffer := buf'\<rparr>)" "length buf' = kEncryptBufferSize"
    using c(2) buf len by (simp_all add: session_ok_def)
  ultimately show ?thesis using c(3) len(2) by force
qed

lemma decrypt_with_ok:
  assumes ok: "\<And>ss buf. srtp_call_ok 25 len (unprotect ss buf len) buf" and s: "session_ok s"
  shows "\<exists>r data' len' s'. decrypt_with unprotect log data len s = Inr ((r, data', len'), s') \<and> session_ok s' \<and>
    (ss_is_init s' = ss_is_init s) \<and> length data' = length data \<and> len' \<le> len"
proof -
  obtain ss where ss: "ss_session s = Some ss" using s by (auto simp: session_ok_def)
  obtain err ss' data' len' where p: "unprotect ss data len = (err, ss', data', len')" by (metis prod_cases4)
  have "err < 25" "length data' = length data" "len' \<le> len" using ok [of ss data] by (simp_all add: srtp_call_ok_def p)
  moreover from this(1) have "decrypt_with unprotect log data len s = Inr ((\<not> IsError err, data', len'), s\<lparr>ss_session := Some ss'\<rparr>)"
    by (simp add: decrypt_with_def ss p log_error_ok Let_def)
  moreover have "session_ok (s\<lparr>ss_session := Some ss'\<rparr>)" using s by (simp add: session_ok_def)
  ultimately show ?thesis by force
qed

section \<open>Properties\<close>

text \<open>An instance of the library interface, for concrete runs: protecting appends ten bytes.\<close>

definition example_srtp :: "unit srtp_lib" where
  "example_srtp =
     \<lparr>SRTP_MAX_TRAILER_LEN = 144,
      cipher_key_len = (\<lambda>p. case p of aes_cm_128_hmac_sha1_80 \<Rightarrow> 30 | aes_cm_128_hmac_sha1_32 \<Rightarrow> 30
        | aes_gcm_256_16_auth \<Rightarrow> 44 | aes_gcm_128_16_auth \<Rightarrow> 28),
      srtp_init = 0, srtp_create = (\<lambda>_. (0, ())), srtp_dealloc = (\<lambda>_. 0),
      srtp_protect = (\<lambda>ss buf len. (0, ss, buf, len + 10)), srtp_unprotect = (\<lambda>ss buf len. (0, ss, buf, len - 10)),
      srtp_protect_rtcp = (\<lambda>ss buf len. (0, ss, buf, len + 14)), srtp_unprotect_rtcp = (\<lambda>ss buf len. (0, ss, buf, len - 14))\<rparr>"

lemma example_srtp_ok: "srtp_ok example_srtp"
  by (simp add: srtp_ok_def srtp_call_ok_def example_srtp_def)

definition example_session :: "unit srtp_session" where
  "example_session = \<lparr>ss_session = Some (), ss_is_init = True, ss_encrypt_buffer = replicate kEncryptBufferSize 0\<rparr>"

lemma example_session_ok: "session_ok example_session"
  by (simp add: session_ok_def example_session_def)

text \<open>C37: encrypting never reads or writes outside the caller's packet and the encryption buffer, whatever
  the length: a packet that would not fit with the largest trailer is refused with the data and length
  unchanged, and a protected packet lies in the encryption buffer.\<close>

theorem srtp_encrypt_bounds:
  assumes "srtp_ok lib" and "session_ok s" and "len \<le> length data"
  shows "(\<exists>r data' len' s'. EncryptRtp lib log data len s = Inr ((r, data', len'), s') \<and> session_ok s' \<and>
      (if r then data' = ss_encrypt_buffer s' \<and> len' \<le> length data' else data' = data) \<and>
      (len + SRTP_MAX_TRAILER_LEN lib > kEncryptBufferSize \<longrightarrow> \<not> r \<and> len' = len \<and> s' = s)) \<and>
    (\<exists>r data' len' s'. EncryptRtcp lib log data len s = Inr ((r, data', len'), s') \<and> session_ok s' \<and>
      (if r then data' = ss_encrypt_buffer s' \<and> len' \<le> length data' else data' = data) \<and>
      (len + SRTP_MAX_TRAILER_LEN lib > kEncryptBufferSize \<longrightarrow> \<not> r \<and> len' = len \<and> s' = s))"
proof
  have p: "srtp_call_ok 25 (len + SRTP_MAX_TRAILER_LEN lib) (srtp_protect lib ss buf len) buf"
    and c: "srtp_call_ok 25 (len + SRTP_MAX_TRAILER_LEN lib) (srtp_protect_rtcp lib ss buf len) buf" for ss buf
    using assms(1) by (simp_all add: srtp_ok_def)
  note rtp = encrypt_with_ok [where protect = "srtp_protect lib" and trailer = "SRTP_MAX_TRAILER_LEN lib", OF p assms(2,3), of log]
    and rtcp = encrypt_with_ok [where protect = "srtp_protect_rtcp lib" and trailer = "SRTP_MAX_TRAILER_LEN lib", OF c assms(2,3), of log]
  show "(\<exists>r data' len' s'. EncryptRtp lib log data len s = Inr ((r, data', len'), s') \<and> session_ok s' \<and>
      (if r then data' = ss_encrypt_buffer s' \<and> len' \<le> length data' else data' = data) \<and>
      (len + SRTP_MAX_TRAILER_LEN lib > kEncryptBufferSize \<longrightarrow> \<not> r \<and> len' = len \<and> s' = s))"
    using rtp assms(2) unfolding EncryptRtp_def by (fastforce simp: not_less)
  show "(\<exists>r data' len' s'. EncryptRtcp lib log data len s = Inr ((r, data', len'), s') \<and> session_ok s' \<and>
      (if r then data' = ss_encrypt_buffer s' \<and> len' \<le> length data' else data' = data) \<and>
      (len + SRTP_MAX_TRAILER_LEN lib > kEncryptBufferSize \<longrightarrow> \<not> r \<and> len' = len \<and> s' = s))"
    using rtcp assms(2) unfolding EncryptRtcp_def by (fastforce simp: not_less)
qed

theorem srtp_encrypt_bounds_witness:
  "(\<exists>r data' len' s'. EncryptRtp example_srtp True [1, 2, 3] 3 example_session = Inr ((r, data', len'), s') \<and>
      session_ok s' \<and> (if r then data' = ss_encrypt_buffer s' \<and> len' \<le> length data' else data' = [1, 2, 3]) \<and>
      (3 + SRTP_MAX_TRAILER_LEN example_srtp > kEncryptBufferSize \<longrightarrow> \<not> r \<and> len' = 3 \<and> s' = example_session))"
  using srtp_encrypt_bounds [OF example_srtp_ok example_session_ok, of 3 "[1, 2, 3]" True] by simp

text \<open>The message table ends at status 24. When libsrtp reports a larger status (libsrtp 2 defines
  25 to 27) and warnings of the srtp tag are enabled, EncryptRtp throws std::out_of_range instead of
  returning false.\<close>

theorem srtp_unknown_status_throws:
  assumes "session_ok s" and "ss_is_init s" and "len \<le> length data"
    and "len + SRTP_MAX_TRAILER_LEN lib \<le> kEncryptBufferSize"
    and "\<forall>ss buf. 25 \<le> fst (srtp_protect lib ss buf len)"
  shows "EncryptRtp lib True data len s = Fault (Throw ''out_of_range'') \<and>
    (\<exists>data' len' s'. EncryptRtp lib False data len s = Inr ((False, data', len'), s'))"
proof -
  obtain ss where ss: "ss_session s = Some ss" and buf: "length (ss_encrypt_buffer s) = kEncryptBufferSize"
    using assms(1) by (auto simp: session_ok_def)
  let ?buf = "take len data @ drop len (ss_encrypt_buffer s)"
  obtain err ss' buf' len' where p: "srtp_protect lib ss ?buf len = (err, ss', buf', len')" by (metis prod_cases4)
  have err: "25 \<le> err" using assms(5) p by (metis fst_conv)
  have "min (length data) len = len" "len \<le> kEncryptBufferSize" using assms(3,4) by simp_all
  then show ?thesis
    using assms(2-4) err buf
    by (simp add: EncryptRtp_def encrypt_with_def ss wr_range_def p IsError_def log_error_def GetErrorString_def
        errors_def Let_def)
qed

theorem srtp_unknown_status_throws_witness:
  "EncryptRtp (example_srtp\<lparr>srtp_protect := (\<lambda>ss buf len. (26, ss, buf, len))\<rparr>) True [1, 2, 3] 3 example_session
   = Fault (Throw ''out_of_range'')"
  by (rule srtp_unknown_status_throws [OF example_session_ok, THEN conjunct1])
    (simp_all add: example_session_def example_srtp_def kEncryptBufferSize_def)

end
