(* ===== verification/DtlsTransport.thy ===== *)
theory DtlsTransport
  imports SrtpSession Machine
begin

text \<open>
  \<open>RTC::DtlsTransport\<close> (rtc/dtls_transport.h, rtc/dtls_transport.cc): certificates and fingerprints,
  the DTLS state machine and the extraction of SRTP keys.

  OpenSSL is a parameter. The \<open>SSL\<close> object with its two memory BIOs is an opaque value of type
  \<open>'ssl\<close>; a call returns the updated object. Calls that run the protocol also return the list of
  info callbacks they made; \<open>OnSslInfo\<close> only sets a flag and calls nothing, so applying it after the
  call is applying it during the call. Calls of the listener, which by contract calls no method of the
  transport, are emitted as events. The listener is the owner of the transport and never null.
\<close>

section \<open>Data\<close>

datatype DtlsState = NEW | CONNECTING | CONNECTED | FAILED | CLOSED

datatype Role = NONE | AUTO | CLIENT | SERVER

datatype FingerprintAlgorithm = NONE | SHA1 | SHA224 | SHA256 | SHA384 | SHA512

record Fingerprint =
  fp_algorithm :: FingerprintAlgorithm
  fp_value :: bytes

datatype ssl_error =
    SSL_ERROR_NONE | SSL_ERROR_SSL | SSL_ERROR_WANT_READ | SSL_ERROR_WANT_WRITE | SSL_ERROR_WANT_X509_LOOKUP
  | SSL_ERROR_SYSCALL | SSL_ERROR_ZERO_RETURN | SSL_ERROR_WANT_CONNECT | SSL_ERROR_WANT_ACCEPT | SSL_ERROR_OTHER

type_synonym callbacks = "(uint32 \<times> int) list"

record 'ssl ssl_lib =
  SSL_CB_LOOP :: uint32
  SSL_CB_ALERT :: uint32
  SSL_CB_EXIT :: uint32
  SSL_CB_HANDSHAKE_START :: uint32
  SSL_CB_HANDSHAKE_DONE :: uint32
  EVP_MAX_MD_SIZE :: nat
  SSL_new :: "'ssl option"
  BIO_new_from_network :: bool
  BIO_new_to_network :: bool
  SSL_set_bio :: "'ssl \<Rightarrow> 'ssl"
  SSL_set_mtu :: "nat \<Rightarrow> 'ssl \<Rightarrow> 'ssl"
  DTLS_set_link_mtu :: "nat \<Rightarrow> 'ssl \<Rightarrow> 'ssl"
  DTLS_set_timer_cb :: "(uint32 \<Rightarrow> uint32) \<Rightarrow> 'ssl \<Rightarrow> 'ssl"
  SSL_set_connect_state :: "'ssl \<Rightarrow> 'ssl"
  SSL_set_accept_state :: "'ssl \<Rightarrow> 'ssl"
  SSL_do_handshake :: "'ssl \<Rightarrow> 'ssl \<times> callbacks"
  SSL_shutdown :: "'ssl \<Rightarrow> 'ssl \<times> callbacks"
  SSL_clear :: "'ssl \<Rightarrow> 'ssl"
  SSL_read :: "nat \<Rightarrow> 'ssl \<Rightarrow> (int \<times> bytes) \<times> 'ssl \<times> callbacks"
  SSL_write :: "bytes \<Rightarrow> 'ssl \<Rightarrow> int \<times> 'ssl \<times> callbacks"
  SSL_get_error :: "'ssl \<Rightarrow> int \<Rightarrow> ssl_error"
  SSL_received_shutdown :: "'ssl \<Rightarrow> bool"
  SSL_get_selected_srtp_profile :: "'ssl \<Rightarrow> string option"
  SSL_export_keying_material :: "nat \<Rightarrow> 'ssl \<Rightarrow> int \<times> bytes"
  SSL_get_peer_certificate :: "'ssl \<Rightarrow> bytes option"
  X509_digest :: "FingerprintAlgorithm \<Rightarrow> bytes \<Rightarrow> int \<times> bytes"
  PEM_write_X509 :: "bytes \<Rightarrow> int \<times> bytes"
  BIO_write :: "bytes \<Rightarrow> 'ssl \<Rightarrow> 'ssl"
  BIO_eof :: "'ssl \<Rightarrow> bool"
  BIO_get_mem_data :: "'ssl \<Rightarrow> int \<times> bytes"
  BIO_reset :: "'ssl \<Rightarrow> 'ssl"
  DTLSv1_get_timeout :: "'ssl \<Rightarrow> int \<times> int \<times> int"
  DTLSv1_handle_timeout :: "'ssl \<Rightarrow> 'ssl \<times> callbacks"

datatype dtls_event =
    OnDtlsTransportConnecting
  | OnDtlsTransportConnected CryptoSuite bytes bytes bytes
  | OnDtlsTransportFailed
  | OnDtlsTransportClosed
  | OnDtlsTransportSendData bytes
  | OnDtlsTransportApplicationDataReceived bytes

record 'ssl dtls_transport =
  d_ssl :: 'ssl
  d_state :: DtlsState
  d_localRole :: Role
  d_remoteFingerprint :: Fingerprint
  d_handshakeDone :: bool
  d_handshakeDoneNow :: bool
  d_remoteCert :: bytes

section \<open>Names\<close>

definition string2Role :: "(string \<times> Role) list" where
  "string2Role = [(''auto'', AUTO), (''client'', CLIENT), (''server'', SERVER)]"

definition string2FingerprintAlgorithm :: "(string \<times> FingerprintAlgorithm) list" where
  "string2FingerprintAlgorithm =
     [(''sha-1'', SHA1), (''sha-224'', SHA224), (''sha-256'', SHA256), (''sha-384'', SHA384), (''sha-512'', SHA512)]"

definition fingerprintAlgorithm2String :: "(FingerprintAlgorithm \<times> string) list" where
  "fingerprintAlgorithm2String =
     [(SHA1, ''sha-1''), (SHA224, ''sha-224''), (SHA256, ''sha-256''), (SHA384, ''sha-384''), (SHA512, ''sha-512'')]"

definition srtpCryptoSuites :: "(CryptoSuite \<times> string) list" where
  "srtpCryptoSuites =
     [(AEAD_AES_256_GCM, ''SRTP_AEAD_AES_256_GCM''), (AEAD_AES_128_GCM, ''SRTP_AEAD_AES_128_GCM''),
      (AES_CM_128_HMAC_SHA1_80, ''SRTP_AES128_CM_SHA1_80''), (AES_CM_128_HMAC_SHA1_32, ''SRTP_AES128_CM_SHA1_32'')]"

definition StringToRole :: "string \<Rightarrow> Role" where
  "StringToRole role = (case map_of string2Role role of Some r \<Rightarrow> r | None \<Rightarrow> Role.NONE)"

definition GetFingerprintAlgorithm :: "string \<Rightarrow> FingerprintAlgorithm" where
  "GetFingerprintAlgorithm fingerprint =
     (case map_of string2FingerprintAlgorithm fingerprint of Some a \<Rightarrow> a | None \<Rightarrow> FingerprintAlgorithm.NONE)"

text \<open>A missing key dereferences the end iterator of the map.\<close>

definition GetFingerprintAlgorithmString :: "FingerprintAlgorithm \<Rightarrow> string res" where
  "GetFingerprintAlgorithmString fingerprint =
     (case map_of fingerprintAlgorithm2String fingerprint of Some s \<Rightarrow> Ok s | None \<Rightarrow> Fault OutOfBounds)"

definition IsDtls :: "bytes \<Rightarrow> nat \<Rightarrow> bool res" where
  "IsDtls data len =
     (if \<not> len \<ge> 13 then Ok False else rbind (rd data 0) (\<lambda>b. Ok (b > 19 \<and> b < 64)))"

text \<open>The retransmission timer callback: the interval in microseconds after \<open>timerUs\<close>.\<close>

definition onSslDtlsTimer :: "uint32 \<Rightarrow> uint32" where
  "onSslDtlsTimer timerUs =
     (if timerUs = 0 then 100000 else if timerUs \<ge> 4000000 then 4000000 else 2 * timerUs)"

section \<open>Fingerprints\<close>

definition hex_digit :: "nat \<Rightarrow> byte" where
  "hex_digit n = str ''0123456789ABCDEF'' ! n"

text \<open>The conversion of one byte: two digits, a colon and the terminating zero.\<close>

definition sprintf_2X_colon :: "byte \<Rightarrow> bytes" where
  "sprintf_2X_colon b =
     [hex_digit (unat b div 16), hex_digit (unat b mod 16), of_char (CHR '':''), 0]"

fun hex_loop :: "bytes \<Rightarrow> nat \<Rightarrow> bytes \<Rightarrow> bytes res" where
  "hex_loop hexFingerprint i [] = Ok hexFingerprint"
| "hex_loop hexFingerprint i (b # bs) =
     rbind (wr_range hexFingerprint (i * 3) (sprintf_2X_colon b)) (\<lambda>hexFingerprint.
       hex_loop hexFingerprint (i + 1) bs)"

text \<open>The formatting code that \<open>GenerateFingerprints\<close> and \<open>CheckRemoteFingerprint\<close> share; the
  result is the C string in the buffer. With no digest byte the index \<open>size * 3 - 1\<close> wraps around.\<close>

definition hex_fingerprint :: "bytes \<Rightarrow> bytes \<Rightarrow> bytes res" where
  "hex_fingerprint buffer binaryFingerprint =
     (let sz = length binaryFingerprint in
      rbind (hex_loop buffer 0 binaryFingerprint) (\<lambda>hexFingerprint.
      rbind (if sz = 0 then Fault OutOfBounds else wr hexFingerprint (sz * 3 - 1) 0) (\<lambda>hexFingerprint.
      Ok (takeWhile (\<lambda>c. c \<noteq> 0) hexFingerprint))))"

definition generate_fingerprint ::
  "'ssl ssl_lib \<Rightarrow> bytes \<Rightarrow> bytes \<Rightarrow> string \<times> FingerprintAlgorithm \<Rightarrow> Fingerprint res" where
  "generate_fingerprint lib certificate buffer kv =
     (if snd kv = FingerprintAlgorithm.NONE then Fault (Throw ''unknown algorithm'') else
      let (ret, binaryFingerprint) = X509_digest lib (snd kv) certificate in
      if ret = 0 then Fault (Throw ''Fingerprints generation failed'') else
      rbind (hex_fingerprint buffer binaryFingerprint) (\<lambda>v.
        Ok \<lparr>fp_algorithm = GetFingerprintAlgorithm (fst kv), fp_value = v\<rparr>))"

fun generate_loop ::
  "'ssl ssl_lib \<Rightarrow> bytes \<Rightarrow> bytes \<Rightarrow> (string \<times> FingerprintAlgorithm) list \<Rightarrow> Fingerprint list \<Rightarrow> Fingerprint list res" where
  "generate_loop lib certificate buffer [] localFingerprints = Ok localFingerprints"
| "generate_loop lib certificate buffer (kv # kvs) localFingerprints =
     rbind (generate_fingerprint lib certificate buffer kv) (\<lambda>fingerprint.
       generate_loop lib certificate buffer kvs (localFingerprints @ [fingerprint]))"

definition GenerateFingerprints ::
  "'ssl ssl_lib \<Rightarrow> bytes \<Rightarrow> bytes \<Rightarrow> Fingerprint list \<Rightarrow> Fingerprint list res" where
  "GenerateFingerprints lib certificate buffer localFingerprints =
     generate_loop lib certificate buffer string2FingerprintAlgorithm localFingerprints"

section \<open>Certificate, key and context\<close>

datatype ptr = Null | Live | Freed

definition free_ptr :: "ptr \<Rightarrow> ptr res" where
  "free_ptr p = (case p of Null \<Rightarrow> Ok Null | Live \<Rightarrow> Ok Freed | Freed \<Rightarrow> Fault DoubleFree)"

text \<open>The static pointers. A pointer that was freed and not reset stays non-null.\<close>

record dtls_statics =
  st_certificate :: ptr
  st_privateKey :: ptr
  st_sslCtx :: ptr

text \<open>Whether each fallible OpenSSL call of the certificate generation succeeds.\<close>

record cert_lib =
  EC_KEY_new_by_curve_name :: bool
  EC_KEY_generate_key :: bool
  EVP_PKEY_new :: bool
  EVP_PKEY_assign_EC_KEY :: bool
  X509_new :: bool
  X509_set_pubkey :: bool
  X509_get_subject_name :: bool
  X509_set_issuer_name :: bool
  X509_sign :: bool

text \<open>The \<open>error\<close> label. The exception leaves the statics behind, so both are returned.\<close>

definition certificate_error :: "ptr \<Rightarrow> dtls_statics \<Rightarrow> unit res \<times> dtls_statics" where
  "certificate_error ecKey st =
     (case free_ptr ecKey of Inl f \<Rightarrow> (Inl f, st) | Inr _ \<Rightarrow>
      case free_ptr (st_privateKey st) of Inl f \<Rightarrow> (Inl f, st) | Inr pk \<Rightarrow>
      case free_ptr (st_certificate st) of Inl f \<Rightarrow> (Inl f, st) | Inr crt \<Rightarrow>
        (Fault (Throw ''DTLS certificate and private key generation failed''),
         st\<lparr>st_privateKey := pk, st_certificate := crt\<rparr>))"

definition GenerateCertificateAndPrivateKey :: "cert_lib \<Rightarrow> dtls_statics \<Rightarrow> unit res \<times> dtls_statics" where
  "GenerateCertificateAndPrivateKey lib st =
     (if \<not> EC_KEY_new_by_curve_name lib then certificate_error Null st
      else if \<not> EC_KEY_generate_key lib then certificate_error Live st
      else if \<not> EVP_PKEY_new lib then certificate_error Live (st\<lparr>st_privateKey := Null\<rparr>)
      else let st = st\<lparr>st_privateKey := Live\<rparr> in
        if \<not> EVP_PKEY_assign_EC_KEY lib then certificate_error Live st
        else if \<not> X509_new lib then certificate_error Null (st\<lparr>st_certificate := Null\<rparr>)
        else let st = st\<lparr>st_certificate := Live\<rparr> in
          if \<not> X509_set_pubkey lib then certificate_error Null st
          else if \<not> X509_get_subject_name lib then certificate_error Null st
          else if \<not> X509_set_issuer_name lib then certificate_error Null st
          else if \<not> X509_sign lib then certificate_error Null st
          else (Ok (), st))"

text \<open>The list of suites offered in the use\_srtp extension.\<close>

fun join_suites :: "(CryptoSuite \<times> string) list \<Rightarrow> bool \<Rightarrow> string \<Rightarrow> string" where
  "join_suites [] first acc = acc"
| "join_suites (e # es) first acc = join_suites es False ((if first then acc else acc @ '':'') @ snd e)"

record ctx_lib =
  SSL_CTX_new :: bool
  SSL_CTX_use_certificate :: bool
  SSL_CTX_use_PrivateKey :: bool
  SSL_CTX_check_private_key :: bool
  SSL_CTX_set_cipher_list :: "string \<Rightarrow> bool"
  SSL_CTX_set_tlsext_use_srtp :: "string \<Rightarrow> int"

definition context_error :: "dtls_statics \<Rightarrow> unit res \<times> dtls_statics" where
  "context_error st =
     (case free_ptr (st_sslCtx st) of Inl f \<Rightarrow> (Inl f, st) | Inr _ \<Rightarrow>
        (Fault (Throw ''SSL context creation failed''), st\<lparr>st_sslCtx := Null\<rparr>))"

definition CreateSslCtx :: "ctx_lib \<Rightarrow> dtls_statics \<Rightarrow> unit res \<times> dtls_statics" where
  "CreateSslCtx lib st =
     (if \<not> SSL_CTX_new lib then context_error (st\<lparr>st_sslCtx := Null\<rparr>)
      else let st = st\<lparr>st_sslCtx := Live\<rparr> in
        if \<not> SSL_CTX_use_certificate lib then context_error st
        else if \<not> SSL_CTX_use_PrivateKey lib then context_error st
        else if \<not> SSL_CTX_check_private_key lib then context_error st
        else if \<not> SSL_CTX_set_cipher_list lib ''DEFAULT:!NULL:!aNULL:!SHA256:!SHA384:!aECDH:!AESGCM+AES256:!aPSK''
        then context_error st
        else if SSL_CTX_set_tlsext_use_srtp lib (join_suites srtpCryptoSuites True []) \<noteq> 0 then context_error st
        else (Ok (), st))"

definition ClassDestroy :: "dtls_statics \<Rightarrow> dtls_statics res" where
  "ClassDestroy st =
     rbind (free_ptr (st_privateKey st)) (\<lambda>pk.
     rbind (free_ptr (st_certificate st)) (\<lambda>crt.
     rbind (free_ptr (st_sslCtx st)) (\<lambda>ctx.
     Ok (st\<lparr>st_privateKey := pk, st_certificate := crt, st_sslCtx := ctx\<rparr>))))"

text \<open>The class-level start-up. An exception ends it and leaves the statics as they are then; the entries
  pushed before a failing digest are not tracked.\<close>

definition DtlsTransport_ClassInit ::
  "cert_lib \<Rightarrow> ctx_lib \<Rightarrow> 'ssl ssl_lib \<Rightarrow> bytes \<Rightarrow> bytes \<Rightarrow> dtls_statics \<times> Fingerprint list
   \<Rightarrow> unit res \<times> dtls_statics \<times> Fingerprint list" where
  "DtlsTransport_ClassInit clib xlib lib certificate buffer = (\<lambda>(st, localFingerprints).
     case GenerateCertificateAndPrivateKey clib st of
       (Inl f, st) \<Rightarrow> (Inl f, st, localFingerprints)
     | (Inr _, st) \<Rightarrow>
         (case CreateSslCtx xlib st of
            (Inl f, st) \<Rightarrow> (Inl f, st, localFingerprints)
          | (Inr _, st) \<Rightarrow>
              (case GenerateFingerprints lib certificate buffer localFingerprints of
                 Inl f \<Rightarrow> (Inl f, st, localFingerprints)
               | Inr localFingerprints \<Rightarrow> (Inr (), st, localFingerprints))))"

section \<open>Construction and destruction\<close>

definition DtlsMtu :: nat where "DtlsMtu = 1350"

definition SslReadBufferSize :: nat where "SslReadBufferSize = 65536"

text \<open>The \<open>error\<close> label of the constructor frees every non-null pointer, in this order.\<close>

definition constructor_error :: "ptr \<Rightarrow> ptr \<Rightarrow> ptr \<Rightarrow> 'a res" where
  "constructor_error bioFrom bioTo ssl =
     rbind (free_ptr bioFrom) (\<lambda>_. rbind (free_ptr bioTo) (\<lambda>_. rbind (free_ptr ssl) (\<lambda>_.
       Fault (Throw ''DtlsTransport instance creation failed''))))"

definition new_DtlsTransport :: "'ssl ssl_lib \<Rightarrow> 'ssl dtls_transport res" where
  "new_DtlsTransport lib =
     (case SSL_new lib of
        None \<Rightarrow> constructor_error Null Null Null
      | Some ssl \<Rightarrow>
          if \<not> BIO_new_from_network lib then
            rbind (free_ptr Live) (\<lambda>ssl. constructor_error Null Null ssl)
          else if \<not> BIO_new_to_network lib then
            rbind (free_ptr Live) (\<lambda>bioFrom. rbind (free_ptr Live) (\<lambda>ssl. constructor_error bioFrom Null ssl))
          else Ok
            \<lparr>d_ssl = DTLS_set_timer_cb lib onSslDtlsTimer (DTLS_set_link_mtu lib DtlsMtu
                (SSL_set_mtu lib DtlsMtu (SSL_set_bio lib ssl))),
             d_state = NEW, d_localRole = Role.NONE,
             d_remoteFingerprint = \<lparr>fp_algorithm = FingerprintAlgorithm.NONE, fp_value = []\<rparr>,
             d_handshakeDone = False, d_handshakeDoneNow = False, d_remoteCert = []\<rparr>)"

definition IsRunning :: "'ssl dtls_transport \<Rightarrow> bool" where
  "IsRunning t =
     (case d_state t of NEW \<Rightarrow> False | CONNECTING \<Rightarrow> True | CONNECTED \<Rightarrow> True | FAILED \<Rightarrow> False | CLOSED \<Rightarrow> False)"

section \<open>OpenSSL callbacks and calls\<close>

text \<open>The branches that only log are not distinguished further.\<close>

definition OnSslInfo :: "'ssl ssl_lib \<Rightarrow> uint32 \<Rightarrow> int \<Rightarrow> 'ssl dtls_transport \<Rightarrow> 'ssl dtls_transport" where
  "OnSslInfo lib whr ret t =
     (if whr AND SSL_CB_LOOP lib \<noteq> 0 then t
      else if whr AND SSL_CB_ALERT lib \<noteq> 0 then t
      else if whr AND SSL_CB_EXIT lib \<noteq> 0 then t
      else if whr AND SSL_CB_HANDSHAKE_START lib \<noteq> 0 then t
      else if whr AND SSL_CB_HANDSHAKE_DONE lib \<noteq> 0 then t\<lparr>d_handshakeDoneNow := True\<rparr>
      else t)"

fun run_callbacks :: "'ssl ssl_lib \<Rightarrow> callbacks \<Rightarrow> 'ssl dtls_transport \<Rightarrow> 'ssl dtls_transport" where
  "run_callbacks lib [] t = t"
| "run_callbacks lib ((whr, ret) # cs) t = run_callbacks lib cs (OnSslInfo lib whr ret t)"

definition ssl_call ::
  "'ssl ssl_lib \<Rightarrow> ('ssl \<Rightarrow> 'ssl \<times> callbacks) \<Rightarrow> 'ssl dtls_transport \<Rightarrow> 'ssl dtls_transport" where
  "ssl_call lib f t = (let (ssl, cs) = f (d_ssl t) in run_callbacks lib cs (t\<lparr>d_ssl := ssl\<rparr>))"

section \<open>The state machine\<close>

type_synonym ('a, 'ssl) dtls_result = "('a \<times> 'ssl dtls_transport \<times> dtls_event list) res"

definition SendPendingOutgoingDtlsData ::
  "'ssl ssl_lib \<Rightarrow> 'ssl dtls_transport \<Rightarrow> 'ssl dtls_transport \<times> dtls_event list" where
  "SendPendingOutgoingDtlsData lib t =
     (if BIO_eof lib (d_ssl t) then (t, [])
      else let (read, data) = BIO_get_mem_data lib (d_ssl t) in
        if read \<le> 0 then (t, [])
        else (t\<lparr>d_ssl := BIO_reset lib (d_ssl t)\<rparr>, [OnDtlsTransportSendData (take (nat read) data)]))"

definition Reset :: "'ssl ssl_lib \<Rightarrow> 'ssl dtls_transport \<Rightarrow> 'ssl dtls_transport" where
  "Reset lib t =
     (if \<not> IsRunning t then t
      else
        let t = ssl_call lib (SSL_shutdown lib) t;
            t = t\<lparr>d_localRole := Role.NONE, d_state := NEW, d_handshakeDone := False, d_handshakeDoneNow := False\<rparr>
        in t\<lparr>d_ssl := SSL_clear lib (d_ssl t)\<rparr>)"

definition SetTimeout :: "'ssl ssl_lib \<Rightarrow> 'ssl dtls_transport \<Rightarrow> (bool, 'ssl) dtls_result" where
  "SetTimeout lib t =
     rbind (ms_assert (d_state t = CONNECTING \<or> d_state t = CONNECTED) ''invalid DTLS state'') (\<lambda>_.
     let (ret, tv_sec, tv_usec) = DTLSv1_get_timeout lib (d_ssl t) in
     if ret = 0 then Ok (True, t, []) else
     let usec_div = (if 0 \<le> tv_usec then tv_usec div 1000 else - ((- tv_usec) div 1000));
         timeoutMs = (word_of_int tv_sec * 1000 + word_of_int usec_div :: uint64)
     in if timeoutMs = 0 then Ok (True, t, [])
        else if timeoutMs < 30000 then Ok (True, t, [])
        else Ok (False, (Reset lib t)\<lparr>d_state := FAILED\<rparr>, [OnDtlsTransportFailed]))"

definition SrtpMasterKeyLength :: nat where "SrtpMasterKeyLength = 16"
definition SrtpMasterSaltLength :: nat where "SrtpMasterSaltLength = 14"
definition SrtpAesGcm256MasterKeyLength :: nat where "SrtpAesGcm256MasterKeyLength = 32"
definition SrtpAesGcm256MasterSaltLength :: nat where "SrtpAesGcm256MasterSaltLength = 12"
definition SrtpAesGcm128MasterKeyLength :: nat where "SrtpAesGcm128MasterKeyLength = 16"
definition SrtpAesGcm128MasterSaltLength :: nat where "SrtpAesGcm128MasterSaltLength = 12"

text \<open>Key and salt length of a suite; the master length is their sum.\<close>

fun srtp_lengths :: "CryptoSuite \<Rightarrow> (nat \<times> nat) res" where
  "srtp_lengths AES_CM_128_HMAC_SHA1_80 = Ok (SrtpMasterKeyLength, SrtpMasterSaltLength)"
| "srtp_lengths AES_CM_128_HMAC_SHA1_32 = Ok (SrtpMasterKeyLength, SrtpMasterSaltLength)"
| "srtp_lengths AEAD_AES_256_GCM = Ok (SrtpAesGcm256MasterKeyLength, SrtpAesGcm256MasterSaltLength)"
| "srtp_lengths AEAD_AES_128_GCM = Ok (SrtpAesGcm128MasterKeyLength, SrtpAesGcm128MasterSaltLength)"
| "srtp_lengths CryptoSuite.NONE = Fault (Abort ''unknown SRTP crypto suite'')"

text \<open>The offsets of local key, local salt, remote key and remote salt in the exported material.\<close>

definition key_offsets :: "Role \<Rightarrow> nat \<Rightarrow> nat \<Rightarrow> (nat \<times> nat \<times> nat \<times> nat) res" where
  "key_offsets role keyLen saltLen =
     (case role of
        SERVER \<Rightarrow>
          let remoteKey = 0; localKey = remoteKey + keyLen; remoteSalt = localKey + keyLen;
              localSalt = remoteSalt + saltLen
          in Ok (localKey, localSalt, remoteKey, remoteSalt)
      | CLIENT \<Rightarrow>
          let localKey = 0; remoteKey = localKey + keyLen; localSalt = remoteKey + keyLen;
              remoteSalt = localSalt + saltLen
          in Ok (localKey, localSalt, remoteKey, remoteSalt)
      | _ \<Rightarrow> Fault (Abort ''no DTLS role set''))"

text \<open>A master key: key and salt copied one behind the other.\<close>

definition master_key :: "bytes \<Rightarrow> nat \<Rightarrow> nat \<Rightarrow> nat \<Rightarrow> nat \<Rightarrow> bytes res" where
  "master_key material key keyLen salt saltLen =
     rbind (rd_range material key keyLen) (\<lambda>k. rbind (rd_range material salt saltLen) (\<lambda>s. Ok (k @ s)))"

definition ExtractSrtpKeys ::
  "'ssl ssl_lib \<Rightarrow> CryptoSuite \<Rightarrow> 'ssl dtls_transport \<Rightarrow> ('ssl dtls_transport \<times> dtls_event list) res" where
  "ExtractSrtpKeys lib srtpCryptoSuite t =
     rbind (srtp_lengths srtpCryptoSuite) (\<lambda>(keyLen, saltLen).
     let (ret, material) = SSL_export_keying_material lib ((keyLen + saltLen) * 2) (d_ssl t) in
     rbind (ms_assert (ret \<noteq> 0) ''SSL_export_keying_material() failed'') (\<lambda>_.
     rbind (key_offsets (d_localRole t) keyLen saltLen) (\<lambda>(localKey, localSalt, remoteKey, remoteSalt).
     rbind (master_key material localKey keyLen localSalt saltLen) (\<lambda>srtpLocalMasterKey.
     rbind (master_key material remoteKey keyLen remoteSalt saltLen) (\<lambda>srtpRemoteMasterKey.
     Ok (t\<lparr>d_state := CONNECTED\<rparr>,
         [OnDtlsTransportConnected srtpCryptoSuite srtpLocalMasterKey srtpRemoteMasterKey (d_remoteCert t)]))))))"

text \<open>The loop over the known suites; the last match wins.\<close>

fun find_suite :: "string \<Rightarrow> (CryptoSuite \<times> string) list \<Rightarrow> CryptoSuite \<Rightarrow> CryptoSuite" where
  "find_suite name [] found = found"
| "find_suite name (e # es) found = find_suite name es (if name = snd e then fst e else found)"

definition GetNegotiatedSrtpCryptoSuite :: "'ssl ssl_lib \<Rightarrow> 'ssl dtls_transport \<Rightarrow> CryptoSuite res" where
  "GetNegotiatedSrtpCryptoSuite lib t =
     (case SSL_get_selected_srtp_profile lib (d_ssl t) of
        None \<Rightarrow> Ok CryptoSuite.NONE
      | Some name \<Rightarrow>
          let suite = find_suite name srtpCryptoSuites CryptoSuite.NONE in
          rbind (ms_assert (suite \<noteq> CryptoSuite.NONE) ''chosen SRTP crypto suite is not an available one'') (\<lambda>_.
          Ok suite))"

definition ProcessHandshake :: "'ssl ssl_lib \<Rightarrow> 'ssl dtls_transport \<Rightarrow> (bool, 'ssl) dtls_result" where
  "ProcessHandshake lib t =
     rbind (ms_assert (d_handshakeDone t) ''handshake not done yet'') (\<lambda>_.
     rbind (GetNegotiatedSrtpCryptoSuite lib t) (\<lambda>srtpCryptoSuite.
     if srtpCryptoSuite \<noteq> CryptoSuite.NONE then
       rbind (ExtractSrtpKeys lib srtpCryptoSuite t) (\<lambda>(t, es). Ok (True, t, es))
     else Ok (False, (Reset lib t)\<lparr>d_state := FAILED\<rparr>, [OnDtlsTransportFailed])))"

definition CheckStatus :: "'ssl ssl_lib \<Rightarrow> int \<Rightarrow> 'ssl dtls_transport \<Rightarrow> (bool, 'ssl) dtls_result" where
  "CheckStatus lib returnCode t =
     (let wasHandshakeDone = d_handshakeDone t; err = SSL_get_error lib (d_ssl t) returnCode in
      if d_handshakeDoneNow t then
        let t = t\<lparr>d_handshakeDoneNow := False, d_handshakeDone := True\<rparr> in
        if \<not> wasHandshakeDone then ProcessHandshake lib t else Ok (True, t, [])
      else if SSL_received_shutdown lib (d_ssl t) \<or> err = SSL_ERROR_SSL \<or> err = SSL_ERROR_SYSCALL then
        (if d_state t = CONNECTED then Ok (False, (Reset lib t)\<lparr>d_state := CLOSED\<rparr>, [OnDtlsTransportClosed])
         else Ok (False, (Reset lib t)\<lparr>d_state := FAILED\<rparr>, [OnDtlsTransportFailed]))
      else Ok (True, t, []))"

definition Run :: "'ssl ssl_lib \<Rightarrow> Role \<Rightarrow> 'ssl dtls_transport \<Rightarrow> ('ssl dtls_transport \<times> dtls_event list) res" where
  "Run lib localRole t =
     rbind (ms_assert (localRole = CLIENT \<or> localRole = SERVER) ''local DTLS role must be client or server'') (\<lambda>_.
     let previousLocalRole = d_localRole t in
     if localRole = previousLocalRole then Ok (t, [])
     else
       let t = (if previousLocalRole = CLIENT \<or> previousLocalRole = SERVER then Reset lib t else t);
           t = t\<lparr>d_localRole := localRole, d_state := CONNECTING\<rparr>
       in case localRole of
            CLIENT \<Rightarrow>
              let t = t\<lparr>d_ssl := SSL_set_connect_state lib (d_ssl t)\<rparr>;
                  t = ssl_call lib (SSL_do_handshake lib) t;
                  (t, es) = SendPendingOutgoingDtlsData lib t
              in rbind (SetTimeout lib t) (\<lambda>(_, t, es'). Ok (t, [OnDtlsTransportConnecting] @ es @ es'))
          | SERVER \<Rightarrow>
              let t = t\<lparr>d_ssl := SSL_set_accept_state lib (d_ssl t)\<rparr>
              in Ok (ssl_call lib (SSL_do_handshake lib) t, [OnDtlsTransportConnecting])
          | _ \<Rightarrow> Fault (Abort ''invalid local DTLS role''))"

definition SetRemoteFingerprint ::
  "'ssl ssl_lib \<Rightarrow> Fingerprint \<Rightarrow> 'ssl dtls_transport \<Rightarrow> (bool, 'ssl) dtls_result" where
  "SetRemoteFingerprint lib fingerprint t =
     rbind (ms_assert (fp_algorithm fingerprint \<noteq> FingerprintAlgorithm.NONE) ''no fingerprint algorithm provided'') (\<lambda>_.
     let t = t\<lparr>d_remoteFingerprint := fingerprint\<rparr> in
     if d_handshakeDone t \<and> d_state t \<noteq> CONNECTED then ProcessHandshake lib t else Ok (True, t, []))"

definition ProcessDtlsData ::
  "'ssl ssl_lib \<Rightarrow> bytes \<Rightarrow> nat \<Rightarrow> 'ssl dtls_transport \<Rightarrow> ('ssl dtls_transport \<times> dtls_event list) res" where
  "ProcessDtlsData lib data len t =
     (if \<not> IsRunning t then Ok (t, [])
      else
        rbind (rd_range data 0 len) (\<lambda>received.
        let t = t\<lparr>d_ssl := BIO_write lib received (d_ssl t)\<rparr>;
            ((read, sslReadBuffer), ssl, cs) = SSL_read lib SslReadBufferSize (d_ssl t);
            t = run_callbacks lib cs (t\<lparr>d_ssl := ssl\<rparr>);
            (t, es1) = SendPendingOutgoingDtlsData lib t
        in rbind (CheckStatus lib read t) (\<lambda>(ok, t, es2).
           if \<not> ok then Ok (t, es1 @ es2)
           else rbind (SetTimeout lib t) (\<lambda>(ok, t, es3).
             if \<not> ok then Ok (t, es1 @ es2 @ es3)
             else if read > 0 then
               (if \<not> d_handshakeDone t then Ok (t, es1 @ es2 @ es3)
                else Ok (t, es1 @ es2 @ es3 @ [OnDtlsTransportApplicationDataReceived (take (nat read) sslReadBuffer)]))
             else Ok (t, es1 @ es2 @ es3)))))"

definition SendApplicationData ::
  "'ssl ssl_lib \<Rightarrow> bytes \<Rightarrow> nat \<Rightarrow> 'ssl dtls_transport \<Rightarrow> ('ssl dtls_transport \<times> dtls_event list) res" where
  "SendApplicationData lib data len t =
     (if d_state t \<noteq> CONNECTED then Ok (t, [])
      else if len = 0 then Ok (t, [])
      else
        rbind (rd_range data 0 len) (\<lambda>bs.
        let (written, ssl, cs) = SSL_write lib bs (d_ssl t);
            t = run_callbacks lib cs (t\<lparr>d_ssl := ssl\<rparr>)
        in if written < 0 then
             rbind (CheckStatus lib written t) (\<lambda>(ok, t, es).
               if \<not> ok then Ok (t, es)
               else let (t, es') = SendPendingOutgoingDtlsData lib t in Ok (t, es @ es'))
           else Ok (SendPendingOutgoingDtlsData lib t)))"

definition OnTimer :: "'ssl ssl_lib \<Rightarrow> 'ssl dtls_transport \<Rightarrow> ('ssl dtls_transport \<times> dtls_event list) res" where
  "OnTimer lib t =
     (if d_handshakeDone t then Ok (t, [])
      else
        let t = ssl_call lib (DTLSv1_handle_timeout lib) t;
            (t, es) = SendPendingOutgoingDtlsData lib t
        in rbind (SetTimeout lib t) (\<lambda>(_, t, es'). Ok (t, es @ es')))"

text \<open>The destructor: the close alert it sends.\<close>

definition delete_DtlsTransport :: "'ssl ssl_lib \<Rightarrow> 'ssl dtls_transport \<Rightarrow> dtls_event list" where
  "delete_DtlsTransport lib t =
     (if IsRunning t then snd (SendPendingOutgoingDtlsData lib (ssl_call lib (SSL_shutdown lib) t)) else [])"

text \<open>The fingerprint check; its only call is commented out in \<open>ProcessHandshake\<close>. \<open>buffer\<close> is the
  uninitialised local array.\<close>

definition CheckRemoteFingerprint ::
  "'ssl ssl_lib \<Rightarrow> bytes \<Rightarrow> 'ssl dtls_transport \<Rightarrow> (bool \<times> 'ssl dtls_transport) res" where
  "CheckRemoteFingerprint lib buffer t =
     rbind (ms_assert (fp_algorithm (d_remoteFingerprint t) \<noteq> FingerprintAlgorithm.NONE) ''remote fingerprint not set'') (\<lambda>_.
     case SSL_get_peer_certificate lib (d_ssl t) of
       None \<Rightarrow> Ok (False, t)
     | Some certificate \<Rightarrow>
         let (ret, binaryFingerprint) = X509_digest lib (fp_algorithm (d_remoteFingerprint t)) certificate in
         if ret = 0 then Ok (False, t)
         else rbind (hex_fingerprint buffer binaryFingerprint) (\<lambda>hexFingerprint.
           if fp_value (d_remoteFingerprint t) \<noteq> hexFingerprint then Ok (False, t)
           else let (ret, pem) = PEM_write_X509 lib certificate in
             if ret \<noteq> 1 then Ok (False, t)
             else if pem = [] then Ok (False, t)
             else Ok (True, t\<lparr>d_remoteCert := pem\<rparr>)))"

end
