(* ===== verification/DtlsMachine.thy ===== *)
theory DtlsMachine
  imports DtlsTransport
begin

text \<open>
  The DTLS state machine: an invariant of the transport, the protocol its listener is told, that every
  operation keeps the one and follows the other, and the same for every sequence of operations.
\<close>

section \<open>The state invariant\<close>

definition dtls_inv :: "'ssl dtls_transport \<Rightarrow> bool" where
  "dtls_inv t \<longleftrightarrow>
     (IsRunning t \<longrightarrow> d_localRole t = CLIENT \<or> d_localRole t = SERVER) \<and>
     (\<not> IsRunning t \<longrightarrow> d_localRole t = Role.NONE \<and> \<not> d_handshakeDoneNow t) \<and>
     (d_handshakeDone t \<longleftrightarrow> d_state t = CONNECTED)"

text \<open>
  Documented behaviour of OpenSSL: a selected SRTP profile is one of the profiles that were offered, and
  once one is selected, which is known when the handshake is done, keying material of every length can be
  exported.
\<close>

definition ssl_ok :: "'ssl ssl_lib \<Rightarrow> bool" where
  "ssl_ok lib \<longleftrightarrow>
     (\<forall>ssl name. SSL_get_selected_srtp_profile lib ssl = Some name \<longrightarrow>
        name \<in> set (map snd srtpCryptoSuites) \<and>
        (\<forall>n. fst (SSL_export_keying_material lib n ssl) \<noteq> 0 \<and>
             length (snd (SSL_export_keying_material lib n ssl)) = n))"

text \<open>What a listener may be told, and how it changes the listener's view of the state.\<close>

inductive dtls_protocol :: "DtlsState \<Rightarrow> dtls_event \<Rightarrow> DtlsState \<Rightarrow> bool" where
  connecting: "dtls_protocol s OnDtlsTransportConnecting CONNECTING"
| connected: "srtp_lengths suite = Inr (k, salt) \<Longrightarrow> length lk = k + salt \<Longrightarrow> length rk = k + salt \<Longrightarrow>
    dtls_protocol CONNECTING (OnDtlsTransportConnected suite lk rk cert) CONNECTED"
| failed: "s = CONNECTING \<or> s = CONNECTED \<Longrightarrow> dtls_protocol s OnDtlsTransportFailed FAILED"
| closed: "dtls_protocol CONNECTED OnDtlsTransportClosed CLOSED"
| send: "s = CONNECTING \<or> s = CONNECTED \<Longrightarrow> dtls_protocol s (OnDtlsTransportSendData d) s"
| received: "dtls_protocol CONNECTED (OnDtlsTransportApplicationDataReceived d) CONNECTED"

inductive_simps dtls_protocol_simps:
  "dtls_protocol s OnDtlsTransportConnecting s'"
  "dtls_protocol s (OnDtlsTransportConnected suite lk rk cert) s'"
  "dtls_protocol s OnDtlsTransportFailed s'"
  "dtls_protocol s OnDtlsTransportClosed s'"
  "dtls_protocol s (OnDtlsTransportSendData d) s'"
  "dtls_protocol s (OnDtlsTransportApplicationDataReceived d) s'"

abbreviation told :: "DtlsState \<Rightarrow> dtls_event list \<Rightarrow> DtlsState \<Rightarrow> bool" where
  "told \<equiv> trace dtls_protocol"

lemma IsRunning_iff: "IsRunning t \<longleftrightarrow> d_state t = CONNECTING \<or> d_state t = CONNECTED"
  by (simp add: IsRunning_def split: DtlsState.split)

section \<open>What the calls leave unchanged\<close>

lemma OnSslInfo_frame:
  "d_ssl (OnSslInfo lib w r t) = d_ssl t" "d_state (OnSslInfo lib w r t) = d_state t"
  "d_localRole (OnSslInfo lib w r t) = d_localRole t" "d_handshakeDone (OnSslInfo lib w r t) = d_handshakeDone t"
  "d_remoteFingerprint (OnSslInfo lib w r t) = d_remoteFingerprint t" "d_remoteCert (OnSslInfo lib w r t) = d_remoteCert t"
  by (simp_all add: OnSslInfo_def)

lemma run_callbacks_frame [simp]:
  "d_ssl (run_callbacks lib cs t) = d_ssl t" "d_state (run_callbacks lib cs t) = d_state t"
  "d_localRole (run_callbacks lib cs t) = d_localRole t" "d_handshakeDone (run_callbacks lib cs t) = d_handshakeDone t"
  "d_remoteFingerprint (run_callbacks lib cs t) = d_remoteFingerprint t"
  "d_remoteCert (run_callbacks lib cs t) = d_remoteCert t"
  by (induction lib cs t rule: run_callbacks.induct) (simp_all add: OnSslInfo_frame)

lemma ssl_call_frame [simp]:
  "d_state (ssl_call lib f t) = d_state t" "d_localRole (ssl_call lib f t) = d_localRole t"
  "d_handshakeDone (ssl_call lib f t) = d_handshakeDone t" "d_remoteCert (ssl_call lib f t) = d_remoteCert t"
  "d_remoteFingerprint (ssl_call lib f t) = d_remoteFingerprint t"
  by (simp_all add: ssl_call_def split_beta)

lemma SendPending_frame:
  assumes "SendPendingOutgoingDtlsData lib t = (t', es)"
  shows "d_state t' = d_state t" "d_localRole t' = d_localRole t" "d_handshakeDone t' = d_handshakeDone t"
    "d_handshakeDoneNow t' = d_handshakeDoneNow t" "IsRunning t \<Longrightarrow> told (d_state t) es (d_state t)"
  using assms
  by (auto simp: SendPendingOutgoingDtlsData_def IsRunning_iff split_beta dtls_protocol_simps
      intro!: trace_single split: if_splits)

lemma Reset_running:
  "IsRunning t \<Longrightarrow> d_localRole (Reset lib t) = Role.NONE \<and> d_state (Reset lib t) = NEW \<and>
    \<not> d_handshakeDone (Reset lib t) \<and> \<not> d_handshakeDoneNow (Reset lib t)"
  by (simp add: Reset_def Let_def)

text \<open>A running transport that is reset and given a final state.\<close>

lemma reset_ends:
  assumes "IsRunning t" "s = FAILED \<or> s = CLOSED"
  shows "dtls_inv ((Reset lib t)\<lparr>d_state := s\<rparr>)" "\<not> IsRunning ((Reset lib t)\<lparr>d_state := s\<rparr>)"
  using Reset_running [OF assms(1), of lib] assms(2) by (auto simp: dtls_inv_def IsRunning_iff)

lemma reset_ends_told:
  assumes "IsRunning t" "s = FAILED \<or> s = CLOSED" "dtls_protocol (d_state t) e s"
    "r = Inr (False, (Reset lib t)\<lparr>d_state := s\<rparr>, [e])"
  shows "\<exists>ok t' es. r = Inr (ok, t', es) \<and> dtls_inv t' \<and> told (d_state t) es (d_state t') \<and> ok = IsRunning t'"
proof (intro exI conjI)
  show "r = Inr (False, (Reset lib t)\<lparr>d_state := s\<rparr>, [e])" by fact
  show "told (d_state t) [e] (d_state ((Reset lib t)\<lparr>d_state := s\<rparr>))" using assms(3) by (simp add: trace_single)
  show "False = IsRunning ((Reset lib t)\<lparr>d_state := s\<rparr>)" using reset_ends(2) [OF assms(1,2)] by simp
qed (rule reset_ends(1) [OF assms(1,2)])

lemma dtls_inv_cong:
  "dtls_inv t \<Longrightarrow> IsRunning t \<Longrightarrow> d_state t' = d_state t \<Longrightarrow> d_localRole t' = d_localRole t \<Longrightarrow>
   d_handshakeDone t' = d_handshakeDone t \<Longrightarrow> dtls_inv t' \<and> IsRunning t'"
  by (simp add: dtls_inv_def IsRunning_def)

section \<open>Keys\<close>

lemma find_suite_none:
  "find_suite name srtpCryptoSuites CryptoSuite.NONE \<noteq> CryptoSuite.NONE \<longleftrightarrow> name \<in> set (map snd srtpCryptoSuites)"
  by (simp add: srtpCryptoSuites_def)

lemma srtp_lengths_ok: "suite \<noteq> CryptoSuite.NONE \<Longrightarrow> \<exists>k s. srtp_lengths suite = Inr (k, s)"
  by (cases suite) simp_all

lemma master_key_eq:
  "key + keyLen \<le> length m \<Longrightarrow> salt + saltLen \<le> length m \<Longrightarrow>
   master_key m key keyLen salt saltLen = Inr (take keyLen (drop key m) @ take saltLen (drop salt m))"
  by (simp add: master_key_def)

text \<open>The exported material holds, in this order, the key of the client, the key of the server, the salt
  of the client and the salt of the server (RFC 5764, section 4.2).\<close>

definition client_master :: "nat \<Rightarrow> nat \<Rightarrow> bytes \<Rightarrow> bytes" where
  "client_master k s m = take k m @ take s (drop (2 * k) m)"

definition server_master :: "nat \<Rightarrow> nat \<Rightarrow> bytes \<Rightarrow> bytes" where
  "server_master k s m = take k (drop k m) @ take s (drop (2 * k + s) m)"

lemma length_masters:
  "length m = (k + s) * 2 \<Longrightarrow> length (client_master k s m) = k + s \<and> length (server_master k s m) = k + s"
  by (simp add: client_master_def server_master_def)

lemma ExtractSrtpKeys_eq:
  assumes suite: "srtp_lengths suite = Inr (k, s)"
    and mat: "SSL_export_keying_material lib ((k + s) * 2) (d_ssl t) = (ret, m)" "ret \<noteq> 0" "length m = (k + s) * 2"
    and role: "d_localRole t = CLIENT \<or> d_localRole t = SERVER"
  shows "ExtractSrtpKeys lib suite t = Inr (t\<lparr>d_state := CONNECTED\<rparr>,
    [if d_localRole t = CLIENT
     then OnDtlsTransportConnected suite (client_master k s m) (server_master k s m) (d_remoteCert t)
     else OnDtlsTransportConnected suite (server_master k s m) (client_master k s m) (d_remoteCert t)])"
  using role
proof
  assume c: "d_localRole t = CLIENT"
  then show ?thesis using mat
    by (simp add: ExtractSrtpKeys_def suite key_offsets_def Let_def master_key_eq client_master_def server_master_def
        mult_2 [symmetric])
next
  assume c: "d_localRole t = SERVER"
  then show ?thesis using mat
    by (simp add: ExtractSrtpKeys_def suite key_offsets_def Let_def master_key_eq client_master_def server_master_def
        mult_2 [symmetric])
qed

section \<open>Every operation keeps the invariant and follows the protocol\<close>

lemma ProcessHandshake_ok:
  assumes lib: "ssl_ok lib" and t: "d_state t = CONNECTING" "d_handshakeDone t" "d_localRole t = CLIENT \<or> d_localRole t = SERVER"
  shows "\<exists>ok t' es. ProcessHandshake lib t = Inr (ok, t', es) \<and> dtls_inv t' \<and> told CONNECTING es (d_state t') \<and> ok = IsRunning t'"
proof (cases "SSL_get_selected_srtp_profile lib (d_ssl t)")
  case None
  have "IsRunning t" "dtls_protocol (d_state t) OnDtlsTransportFailed FAILED"
    using t by (simp_all add: IsRunning_iff dtls_protocol_simps)
  moreover have "ProcessHandshake lib t = Inr (False, (Reset lib t)\<lparr>d_state := FAILED\<rparr>, [OnDtlsTransportFailed])"
    using t(2) None by (simp add: ProcessHandshake_def GetNegotiatedSrtpCryptoSuite_def)
  ultimately show ?thesis using reset_ends_told [of t FAILED] t(1) by metis
next
  case (Some name)
  let ?suite = "find_suite name srtpCryptoSuites CryptoSuite.NONE"
  have name: "name \<in> set (map snd srtpCryptoSuites)"
    and mat: "\<And>n. fst (SSL_export_keying_material lib n (d_ssl t)) \<noteq> 0 \<and> length (snd (SSL_export_keying_material lib n (d_ssl t))) = n"
    using lib Some unfolding ssl_ok_def by blast+
  then have suite: "?suite \<noteq> CryptoSuite.NONE" using find_suite_none by blast
  then obtain k s' where ks: "srtp_lengths ?suite = Inr (k, s')" using srtp_lengths_ok by blast
  obtain ret m where e: "SSL_export_keying_material lib ((k + s') * 2) (d_ssl t) = (ret, m)" by fastforce
  have m: "ret \<noteq> 0" "length m = (k + s') * 2" using mat [of "(k + s') * 2"] e by simp_all
  note eq = ExtractSrtpKeys_eq [OF ks e m t(3)]
  have "\<exists>ev. ExtractSrtpKeys lib ?suite t = Inr (t\<lparr>d_state := CONNECTED\<rparr>, [ev]) \<and> dtls_protocol CONNECTING ev CONNECTED"
    by (rule exI, rule conjI, rule eq) (use length_masters [OF m(2)] in \<open>auto simp: dtls_protocol_simps ks\<close>)
  then obtain ev where ev: "ExtractSrtpKeys lib ?suite t = Inr (t\<lparr>d_state := CONNECTED\<rparr>, [ev])"
    "dtls_protocol CONNECTING ev CONNECTED" by blast
  have "dtls_inv (t\<lparr>d_state := CONNECTED\<rparr>)" "IsRunning (t\<lparr>d_state := CONNECTED\<rparr>)"
    using t by (auto simp: dtls_inv_def IsRunning_iff)
  moreover have "ProcessHandshake lib t = Inr (True, t\<lparr>d_state := CONNECTED\<rparr>, [ev])"
    using suite ev(1) t(2) Some by (simp add: ProcessHandshake_def GetNegotiatedSrtpCryptoSuite_def Let_def)
  ultimately show ?thesis using ev(2) by (auto intro!: trace_single)
qed

lemma CheckStatus_ok:
  assumes lib: "ssl_ok lib" and inv: "dtls_inv t" and run: "IsRunning t"
  shows "\<exists>ok t' es. CheckStatus lib rc t = Inr (ok, t', es) \<and> dtls_inv t' \<and> told (d_state t) es (d_state t') \<and> ok = IsRunning t'"
proof (cases "d_handshakeDoneNow t")
  case True
  let ?t = "t\<lparr>d_handshakeDoneNow := False, d_handshakeDone := True\<rparr>"
  show ?thesis
  proof (cases "d_handshakeDone t")
    case True
    moreover with inv have "d_state t = CONNECTED" by (simp add: dtls_inv_def)
    ultimately have "dtls_inv ?t" "IsRunning ?t" using inv run by (auto simp: dtls_inv_def IsRunning_iff)
    then show ?thesis using True \<open>d_handshakeDoneNow t\<close> by (auto simp: CheckStatus_def Let_def)
  next
    case False
    with inv run have st: "d_state t = CONNECTING" "d_localRole t = CLIENT \<or> d_localRole t = SERVER"
      by (auto simp: dtls_inv_def IsRunning_iff)
    then obtain ok t' es where "ProcessHandshake lib ?t = Inr (ok, t', es)" "dtls_inv t'"
      "told CONNECTING es (d_state t')" "ok = IsRunning t'"
      using ProcessHandshake_ok [OF lib, of ?t] by auto
    then show ?thesis using False \<open>d_handshakeDoneNow t\<close> st by (simp add: CheckStatus_def Let_def)
  qed
next
  case False
  show ?thesis
  proof (cases "SSL_received_shutdown lib (d_ssl t) \<or> SSL_get_error lib (d_ssl t) rc = SSL_ERROR_SSL
      \<or> SSL_get_error lib (d_ssl t) rc = SSL_ERROR_SYSCALL")
    case ending: True
    show ?thesis
    proof (cases "d_state t = CONNECTED")
      case True
      then have eq: "CheckStatus lib rc t = Inr (False, (Reset lib t)\<lparr>d_state := CLOSED\<rparr>, [OnDtlsTransportClosed])"
        using False ending by (simp add: CheckStatus_def Let_def)
      show ?thesis using reset_ends_told [OF run _ _ eq] True by (simp add: dtls_protocol_simps)
    next
      case connecting: False
      then have eq: "CheckStatus lib rc t = Inr (False, (Reset lib t)\<lparr>d_state := FAILED\<rparr>, [OnDtlsTransportFailed])"
        using False ending by (simp add: CheckStatus_def Let_def)
      show ?thesis using reset_ends_told [OF run _ _ eq] run by (simp add: dtls_protocol_simps IsRunning_iff)
    qed
  next
    case other: False
    with False inv run show ?thesis by (auto simp: CheckStatus_def Let_def)
  qed
qed

lemma SetTimeout_ok:
  assumes inv: "dtls_inv t" and run: "IsRunning t"
  shows "\<exists>ok t' es. SetTimeout lib t = Inr (ok, t', es) \<and> dtls_inv t' \<and> told (d_state t) es (d_state t') \<and>
    ok = IsRunning t' \<and> (ok \<longrightarrow> t' = t)"
proof -
  obtain ret sec usec where "DTLSv1_get_timeout lib (d_ssl t) = (ret, sec, usec)" by (metis prod_cases3)
  moreover have "d_state t = CONNECTING \<or> d_state t = CONNECTED" using run by (simp add: IsRunning_iff)
  ultimately show ?thesis using inv run reset_ends [OF run, of FAILED lib]
    by (auto simp: SetTimeout_def Let_def dtls_protocol_simps intro!: trace_single)
qed

lemma SetTimeout_aborts: "\<not> IsRunning t \<Longrightarrow> SetTimeout lib t = Fault (Abort ''invalid DTLS state'')"
  by (simp add: SetTimeout_def IsRunning_iff)

text \<open>Output followed by the timer, as in \<open>Run\<close> and \<open>OnTimer\<close>.\<close>

lemma send_and_set_timeout:
  assumes "dtls_inv t" "IsRunning t" "SendPendingOutgoingDtlsData lib t = (t1, es)"
  shows "\<exists>t' es'. rbind (SetTimeout lib t1) (\<lambda>(_, t, es'). Ok (t, es @ es')) = Inr (t', es') \<and>
    dtls_inv t' \<and> told (d_state t) es' (d_state t')"
proof -
  note f = SendPending_frame [OF assms(3)]
  have "dtls_inv t1" "IsRunning t1" using dtls_inv_cong [OF assms(1,2) f(1-3)] by auto
  then obtain ok t' es' where "SetTimeout lib t1 = Inr (ok, t', es')" "dtls_inv t'" "told (d_state t1) es' (d_state t')"
    using SetTimeout_ok by blast
  then show ?thesis using f(1) f(5) [OF assms(2)] trace_append by fastforce
qed

lemma Run_ok:
  assumes inv: "dtls_inv t" and role: "role = CLIENT \<or> role = SERVER"
  shows "\<exists>t' es. Run lib role t = Inr (t', es) \<and> dtls_inv t' \<and> told (d_state t) es (d_state t')"
proof (cases "role = d_localRole t")
  case True
  with inv role show ?thesis by (auto simp: Run_def)
next
  case False
  define t0 where "t0 = (if d_localRole t = CLIENT \<or> d_localRole t = SERVER then Reset lib t else t)"
  define t1 where "t1 = t0\<lparr>d_localRole := role, d_state := CONNECTING\<rparr>"
  have "\<not> d_handshakeDone t0"
    using inv Reset_running [of t lib] by (auto simp: t0_def dtls_inv_def IsRunning_iff)
  then have t1: "d_state t1 = CONNECTING" "d_localRole t1 = role" "\<not> d_handshakeDone t1" by (simp_all add: t1_def)
  have conn: "dtls_protocol (d_state t) OnDtlsTransportConnecting CONNECTING" by (rule connecting)
  have ok: "dtls_inv t'" "IsRunning t'" if "d_state t' = CONNECTING" "d_localRole t' = role" "\<not> d_handshakeDone t'" for t'
    using that role by (auto simp: dtls_inv_def IsRunning_iff)
  show ?thesis
  proof (cases "role = CLIENT")
    case True
    define t2 where "t2 = ssl_call lib (SSL_do_handshake lib) (t1\<lparr>d_ssl := SSL_set_connect_state lib (d_ssl t1)\<rparr>)"
    have "d_state t2 = CONNECTING" "d_localRole t2 = role" "\<not> d_handshakeDone t2" using t1 by (simp_all add: t2_def)
    moreover obtain t3 es where p: "SendPendingOutgoingDtlsData lib t2 = (t3, es)" by fastforce
    ultimately obtain t' es' where r: "rbind (SetTimeout lib t3) (\<lambda>(_, t, es'). Ok (t, es @ es')) = Inr (t', es')"
      "dtls_inv t'" "told CONNECTING es' (d_state t')"
      using send_and_set_timeout [OF ok, of t2 lib t3 es] by auto
    have "Run lib role t = rbind (SetTimeout lib t3) (\<lambda>(_, t, es'). Ok (t, [OnDtlsTransportConnecting] @ es @ es'))"
      using True False p [unfolded t2_def t1_def t0_def] by (simp add: Run_def Let_def)
    with r(1) have "Run lib role t = Inr (t', OnDtlsTransportConnecting # es')" by (auto simp: rbind_def split: sum.splits)
    with r conn show ?thesis by blast
  next
    case server: False
    with role have "role = SERVER" by simp
    then have "Run lib role t = Inr (ssl_call lib (SSL_do_handshake lib) (t1\<lparr>d_ssl := SSL_set_accept_state lib (d_ssl t1)\<rparr>),
        [OnDtlsTransportConnecting])"
      using False by (simp add: Run_def t0_def t1_def Let_def)
    moreover have "dtls_inv (ssl_call lib (SSL_do_handshake lib) (t1\<lparr>d_ssl := SSL_set_accept_state lib (d_ssl t1)\<rparr>))"
      using t1 by (intro ok) simp_all
    ultimately show ?thesis using t1 conn by (simp add: trace_single)
  qed
qed

lemma ProcessDtlsData_ok:
  assumes lib: "ssl_ok lib" and inv: "dtls_inv t" and len: "len \<le> length data"
  shows "\<exists>t' es. ProcessDtlsData lib data len t = Inr (t', es) \<and> dtls_inv t' \<and> told (d_state t) es (d_state t')"
proof (cases "IsRunning t")
  case False
  with inv show ?thesis by (auto simp: ProcessDtlsData_def)
next
  case run: True
  define ssl1 where "ssl1 = BIO_write lib (take len data) (d_ssl t)"
  obtain read buf ssl2 cs where r: "SSL_read lib SslReadBufferSize ssl1 = ((read, buf), ssl2, cs)" by (metis prod.exhaust)
  define t2 where "t2 = run_callbacks lib cs (t\<lparr>d_ssl := ssl2\<rparr>)"
  obtain t3 es1 where p: "SendPendingOutgoingDtlsData lib t2 = (t3, es1)" by fastforce
  note f = SendPending_frame [OF p]
  have t2: "dtls_inv t2 \<and> IsRunning t2" by (rule dtls_inv_cong [OF inv run]) (simp_all add: t2_def)
  then have t3: "dtls_inv t3" "IsRunning t3" using dtls_inv_cong f by blast+
  have st: "d_state t3 = d_state t" "told (d_state t) es1 (d_state t)" using f t2 by (simp_all add: t2_def)
  obtain ok t4 es2 where c: "CheckStatus lib read t3 = Inr (ok, t4, es2)" "dtls_inv t4" "told (d_state t3) es2 (d_state t4)"
    "ok = IsRunning t4" using CheckStatus_ok [OF lib t3] by blast
  have s4: "told (d_state t) (es1 @ es2) (d_state t4)" using st c(3) trace_append by metis
  have eq: "ProcessDtlsData lib data len t =
      (if \<not> ok then Ok (t4, es1 @ es2) else rbind (SetTimeout lib t4) (\<lambda>(ok, t, es3).
         if \<not> ok then Ok (t, es1 @ es2 @ es3)
         else if read > 0 then
           (if \<not> d_handshakeDone t then Ok (t, es1 @ es2 @ es3)
            else Ok (t, es1 @ es2 @ es3 @ [OnDtlsTransportApplicationDataReceived (take (nat read) buf)]))
         else Ok (t, es1 @ es2 @ es3)))"
    using run len r p c(1) by (simp add: ProcessDtlsData_def ssl1_def t2_def del: rbind_eq_Inr)
  show ?thesis
  proof (cases ok)
    case False
    with eq c(2) s4 show ?thesis by auto
  next
    case True
    then obtain ok' t5 es3 where d: "SetTimeout lib t4 = Inr (ok', t5, es3)" "dtls_inv t5" "told (d_state t4) es3 (d_state t5)"
      using SetTimeout_ok [OF c(2)] c(4) by blast
    have s5: "told (d_state t) (es1 @ es2 @ es3) (d_state t5)" using s4 d(3) trace_append by fastforce
    have "told (d_state t5) [OnDtlsTransportApplicationDataReceived b] (d_state t5)" if "d_handshakeDone t5" for b
      using that d(2) by (auto simp: dtls_inv_def dtls_protocol_simps intro!: trace_single)
    then have "told (d_state t) (es1 @ es2 @ es3 @ [OnDtlsTransportApplicationDataReceived b]) (d_state t5)"
      if "d_handshakeDone t5" for b using trace_append [OF s5] that by fastforce
    with eq True d(1,2) s5 show ?thesis by simp
  qed
qed

lemma SendApplicationData_ok:
  assumes lib: "ssl_ok lib" and inv: "dtls_inv t" and len: "len \<le> length data"
  shows "\<exists>t' es. SendApplicationData lib data len t = Inr (t', es) \<and> dtls_inv t' \<and> told (d_state t) es (d_state t')"
proof (cases "d_state t \<noteq> CONNECTED \<or> len = 0")
  case True
  with inv show ?thesis by (auto simp: SendApplicationData_def)
next
  case False
  obtain written ssl cs where w: "SSL_write lib (take len data) (d_ssl t) = (written, ssl, cs)" by (metis prod.exhaust)
  define t1 where "t1 = run_callbacks lib cs (t\<lparr>d_ssl := ssl\<rparr>)"
  have run: "IsRunning t" using False by (simp add: IsRunning_iff)
  have t1: "dtls_inv t1" "IsRunning t1" "d_state t1 = d_state t"
    using dtls_inv_cong [OF inv run, of t1] by (simp_all add: t1_def)
  have send: "\<exists>t3 es. SendPendingOutgoingDtlsData lib t2 = (t3, es) \<and> dtls_inv t3 \<and> told (d_state t2) es (d_state t3)"
    if "dtls_inv t2" "IsRunning t2" for t2
  proof -
    obtain t3 es where p: "SendPendingOutgoingDtlsData lib t2 = (t3, es)" by fastforce
    then show ?thesis using SendPending_frame [OF p] dtls_inv_cong [OF that, of t3] that by auto
  qed
  show ?thesis
  proof (cases "written < 0")
    case True
    obtain ok t2 es where c: "CheckStatus lib written t1 = Inr (ok, t2, es)" "dtls_inv t2" "told (d_state t1) es (d_state t2)"
      "ok = IsRunning t2" using CheckStatus_ok [OF lib t1(1,2)] by blast
    have eq: "SendApplicationData lib data len t =
        (if \<not> ok then Ok (t2, es) else let (t, es') = SendPendingOutgoingDtlsData lib t2 in Ok (t, es @ es'))"
      using False True len w c(1) by (simp add: SendApplicationData_def t1_def del: rbind_eq_Inr)
    show ?thesis
    proof (cases ok)
      case True
      with send c obtain t3 es' where "SendPendingOutgoingDtlsData lib t2 = (t3, es')" "dtls_inv t3"
        "told (d_state t2) es' (d_state t3)" by blast
      with True eq c(3) t1(3) show ?thesis using trace_append by fastforce
    qed (use eq c t1 in auto)
  next
    case written: False
    then have "SendApplicationData lib data len t = Inr (SendPendingOutgoingDtlsData lib t1)"
      using False len w by (simp add: SendApplicationData_def t1_def)
    then show ?thesis using send [OF t1(1,2)] t1(3) by auto
  qed
qed

text \<open>The handshake is never processed late: the branch of \<open>SetRemoteFingerprint\<close> that does so is not reached.\<close>

lemma SetRemoteFingerprint_eq:
  assumes "dtls_inv t" "fp_algorithm fp \<noteq> FingerprintAlgorithm.NONE"
  shows "SetRemoteFingerprint lib fp t = Inr (True, t\<lparr>d_remoteFingerprint := fp\<rparr>, [])"
  using assms by (auto simp: SetRemoteFingerprint_def dtls_inv_def Let_def)

lemma OnTimer_ok:
  assumes inv: "dtls_inv t" and run: "IsRunning t"
  shows "\<exists>t' es. OnTimer lib t = Inr (t', es) \<and> dtls_inv t' \<and> told (d_state t) es (d_state t')"
proof (cases "d_handshakeDone t")
  case True
  with inv show ?thesis by (auto simp: OnTimer_def)
next
  case False
  let ?t = "ssl_call lib (DTLSv1_handle_timeout lib) t"
  obtain t1 es where p: "SendPendingOutgoingDtlsData lib ?t = (t1, es)" by fastforce
  have "dtls_inv ?t \<and> IsRunning ?t" by (rule dtls_inv_cong [OF inv run]) simp_all
  with p have "\<exists>t' es'. rbind (SetTimeout lib t1) (\<lambda>(_, t, es'). Ok (t, es @ es')) = Inr (t', es') \<and>
      dtls_inv t' \<and> told (d_state ?t) es' (d_state t')" using send_and_set_timeout by blast
  moreover have "OnTimer lib t = rbind (SetTimeout lib t1) (\<lambda>(_, t, es'). Ok (t, es @ es'))"
    using False p by (simp add: OnTimer_def del: rbind_eq_Inr)
  ultimately show ?thesis by simp
qed

section \<open>The transport as a machine\<close>

text \<open>The operations a client of the transport has.\<close>

datatype dtls_op =
    DoRun Role
  | DoSetRemoteFingerprint Fingerprint
  | DoProcessDtlsData bytes nat
  | DoSendApplicationData bytes nat

fun dtls_step :: "'ssl ssl_lib \<Rightarrow> (dtls_op, 'ssl dtls_transport, dtls_event) stepper" where
  "dtls_step lib (DoRun role) t = Run lib role t"
| "dtls_step lib (DoSetRemoteFingerprint fp) t = rbind (SetRemoteFingerprint lib fp t) (\<lambda>(_, t, es). Ok (t, es))"
| "dtls_step lib (DoProcessDtlsData data len) t = ProcessDtlsData lib data len t"
| "dtls_step lib (DoSendApplicationData data len) t = SendApplicationData lib data len t"

fun dtls_good_op :: "dtls_op \<Rightarrow> bool" where
  "dtls_good_op (DoRun role) = (role = CLIENT \<or> role = SERVER)"
| "dtls_good_op (DoSetRemoteFingerprint fp) = (fp_algorithm fp \<noteq> FingerprintAlgorithm.NONE)"
| "dtls_good_op (DoProcessDtlsData data len) = (len \<le> length data)"
| "dtls_good_op (DoSendApplicationData data len) = (len \<le> length data)"

lemma dtls_step_ok:
  assumes "ssl_ok lib" "dtls_inv t" "dtls_good_op x"
  shows "\<exists>t' es. dtls_step lib x t = Inr (t', es) \<and> dtls_inv t' \<and> told (d_state t) es (d_state t')"
proof (cases x)
  case (DoSetRemoteFingerprint fp)
  moreover have "dtls_inv (t\<lparr>d_remoteFingerprint := fp\<rparr>)" using assms(2) by (simp add: dtls_inv_def IsRunning_iff)
  ultimately show ?thesis using assms by (simp add: SetRemoteFingerprint_eq)
next
  case (DoRun role)
  with assms Run_ok [of t role lib] show ?thesis by simp
qed (use assms ProcessDtlsData_ok SendApplicationData_ok in auto)

interpretation dtls: simulated_machine "dtls_step lib" dtls_good_op "\<lambda>t. ssl_ok lib \<and> dtls_inv t" d_state dtls_protocol
  for lib :: "'ssl ssl_lib"
proof
  fix t t' :: "'ssl dtls_transport" and x es
  assume a: "ssl_ok lib \<and> dtls_inv t" "dtls_good_op x"
  then show "\<exists>t' es. dtls_step lib x t = Inr (t', es)" using dtls_step_ok by blast
  assume "dtls_step lib x t = Inr (t', es)"
  with a show "ssl_ok lib \<and> dtls_inv t'" "trace dtls_protocol (d_state t) es (d_state t')"
    using dtls_step_ok [of lib t x] by fastforce+
qed

lemma new_DtlsTransport_inv:
  "new_DtlsTransport lib = Inr t \<Longrightarrow> d_state t = NEW \<and> dtls_inv t"
  by (auto simp: new_DtlsTransport_def constructor_error_def free_ptr_def dtls_inv_def IsRunning_def
      split: option.splits if_splits)

section \<open>A concrete library\<close>

text \<open>Constants as in OpenSSL; the handshake is done after the second flight that arrives.\<close>

definition example_ssl :: "nat ssl_lib" where
  "example_ssl = \<lparr>SSL_CB_LOOP = 1, SSL_CB_ALERT = 0x4000, SSL_CB_EXIT = 2, SSL_CB_HANDSHAKE_START = 16,
     SSL_CB_HANDSHAKE_DONE = 32, EVP_MAX_MD_SIZE = 64, SSL_new = Some 0, BIO_new_from_network = True,
     BIO_new_to_network = True, SSL_set_bio = (\<lambda>s. s), SSL_set_mtu = (\<lambda>_ s. s), DTLS_set_link_mtu = (\<lambda>_ s. s),
     DTLS_set_timer_cb = (\<lambda>_ s. s), SSL_set_connect_state = (\<lambda>s. s), SSL_set_accept_state = (\<lambda>s. s),
     SSL_do_handshake = (\<lambda>s. (s, [(16, 1)])), SSL_shutdown = (\<lambda>s. (s, [(0x4008, 0)])), SSL_clear = (\<lambda>_. 0),
     SSL_read = (\<lambda>_ s. ((- 1, []), s, if s = 2 then [(1, 1), (32, 1)] else [])),
     SSL_write = (\<lambda>d s. (int (length d), s, [])), SSL_get_error = (\<lambda>_ _. SSL_ERROR_WANT_READ),
     SSL_received_shutdown = (\<lambda>s. 3 \<le> s), SSL_get_selected_srtp_profile = (\<lambda>_. Some ''SRTP_AES128_CM_SHA1_80''),
     SSL_export_keying_material = (\<lambda>n _. (1, map word_of_nat [0..<n])), SSL_get_peer_certificate = (\<lambda>_. Some [1]),
     X509_digest = (\<lambda>_ c. (1, c @ [0xAB])), PEM_write_X509 = (\<lambda>c. (1, c)), BIO_write = (\<lambda>_ s. s + 1),
     BIO_eof = (\<lambda>s. s = 2), BIO_get_mem_data = (\<lambda>s. (2, [22, 254])), BIO_reset = (\<lambda>s. s),
     DTLSv1_get_timeout = (\<lambda>_. (1, 1, 500000)), DTLSv1_handle_timeout = (\<lambda>s. (s, []))\<rparr>"

definition example_transport :: "nat dtls_transport" where
  "example_transport = \<lparr>d_ssl = 0, d_state = NEW, d_localRole = Role.NONE,
     d_remoteFingerprint = \<lparr>fp_algorithm = FingerprintAlgorithm.NONE, fp_value = []\<rparr>,
     d_handshakeDone = False, d_handshakeDoneNow = False, d_remoteCert = []\<rparr>"

lemma example_ssl_ok: "ssl_ok example_ssl"
  by (simp add: ssl_ok_def example_ssl_def srtpCryptoSuites_def)

lemma new_example_transport: "new_DtlsTransport example_ssl = Inr example_transport"
  by (simp add: new_DtlsTransport_def example_ssl_def example_transport_def)

section \<open>Properties of the state machine\<close>

text \<open>C5: A new transport, driven by any sequence of \<open>Run\<close>, \<open>SetRemoteFingerprint\<close>,
  \<open>ProcessDtlsData\<close> and \<open>SendApplicationData\<close> with valid arguments and any behaviour of the peer, never
  aborts; the invariant holds at the end (a role exactly while running, the handshake flag exactly when
  connected); and its listener is told a trace of the protocol from NEW to the current state: connected
  only after connecting and with keys of the lengths of the suite, closed only after connected, data only while running, failed or closed only once
  per run.\<close>

theorem dtls_follows_protocol:
  assumes "ssl_ok lib" and "new_DtlsTransport lib = Inr t0" and "list_all dtls_good_op ops"
  shows "\<exists>t es. run_ops (dtls_step lib) ops t0 = Inr (t, es) \<and> dtls_inv t \<and> trace dtls_protocol NEW es (d_state t)"
proof -
  have t0: "d_state t0 = NEW" "dtls_inv t0" using new_DtlsTransport_inv [OF assms(2)] by simp_all
  then obtain t es where "run_ops (dtls_step lib) ops t0 = Inr (t, es)" "dtls_inv t"
    using dtls.run_safe assms(1,3) by blast
  then show ?thesis using dtls.run_simulated [of lib t0 ops t es] assms(1,3) t0 by auto
qed

theorem dtls_follows_protocol_witness:
  "\<exists>t es. run_ops (dtls_step example_ssl) [DoRun SERVER, DoProcessDtlsData [22] 1, DoProcessDtlsData [22] 1] example_transport
      = Inr (t, es) \<and> dtls_inv t \<and> trace dtls_protocol NEW es (d_state t)"
  using dtls_follows_protocol [OF example_ssl_ok new_example_transport,
      of "[DoRun SERVER, DoProcessDtlsData [22] 1, DoProcessDtlsData [22] 1]"] by simp

end
