(* ===== verification/DtlsSecurity.thy ===== *)
theory DtlsSecurity
  imports DtlsMachine
begin

text \<open>
  Keys, fingerprints and resources of the DTLS transport: both ends derive matching SRTP keys, the
  hexadecimal form of a digest determines the digest and fits its buffer, the remote fingerprint check
  decides equality of digests, and the error paths of construction.
\<close>

section \<open>Hexadecimal digests\<close>

text \<open>The text form of a digest: two digits per byte, separated by colons.\<close>

definition hex_pair :: "byte \<Rightarrow> bytes" where
  "hex_pair b = [hex_digit (unat b div 16), hex_digit (unat b mod 16)]"

fun hex_text :: "bytes \<Rightarrow> bytes" where
  "hex_text [] = []"
| "hex_text [b] = hex_pair b"
| "hex_text (b # bs) = hex_pair b @ [of_char (CHR '':'')] @ hex_text bs"

lemma hex_digit_inj: "i < 16 \<Longrightarrow> j < 16 \<Longrightarrow> hex_digit i = hex_digit j \<Longrightarrow> i = j"
proof -
  have d: "distinct (str ''0123456789ABCDEF'')" "length (str ''0123456789ABCDEF'') = 16" by (simp_all add: str_def)
  show "i < 16 \<Longrightarrow> j < 16 \<Longrightarrow> hex_digit i = hex_digit j \<Longrightarrow> i = j"
    using nth_eq_iff_index_eq [OF d(1), of i j] by (simp add: hex_digit_def d(2))
qed

lemma hex_digit_nonzero: "i < 16 \<Longrightarrow> hex_digit i \<noteq> 0"
proof -
  assume "i < 16"
  then have "hex_digit i \<in> set (str ''0123456789ABCDEF'')" unfolding hex_digit_def by (intro nth_mem) (simp add: str_def)
  moreover have "0 \<notin> set (str ''0123456789ABCDEF'')" by (simp add: str_def)
  ultimately show "hex_digit i \<noteq> 0" by metis
qed

lemma nibbles_less: "unat (b :: byte) div 16 < 16" "unat (b :: byte) mod 16 < 16"
  using unat_byte_less [of b] by simp_all

lemma hex_pair_inj: "hex_pair b = hex_pair c \<longleftrightarrow> b = c"
proof
  assume "hex_pair b = hex_pair c"
  then have "unat b div 16 = unat c div 16" "unat b mod 16 = unat c mod 16"
    using hex_digit_inj nibbles_less by (simp_all add: hex_pair_def)
  then show "b = c" by (metis div_mult_mod_eq word_unat_eq_iff)
qed simp

lemma length_hex_text: "bs \<noteq> [] \<Longrightarrow> length (hex_text bs) = 3 * length bs - 1"
  by (induction bs rule: hex_text.induct) (auto simp: hex_pair_def)

lemma hex_text_nonzero: "c \<in> set (hex_text bs) \<Longrightarrow> c \<noteq> 0"
  by (induction bs rule: hex_text.induct) (auto simp: hex_pair_def hex_digit_nonzero nibbles_less)

lemma hex_text_inj: "hex_text bs = hex_text cs \<Longrightarrow> bs = cs"
proof (induction bs arbitrary: cs rule: hex_text.induct)
  case 1
  then show ?case by (cases cs rule: hex_text.cases) (simp_all add: hex_pair_def)
next
  case (2 b)
  then show ?case by (cases cs rule: hex_text.cases) (auto simp: hex_pair_inj, auto simp: hex_pair_def)
next
  case (3 b b' bs)
  show ?case
  proof (cases cs rule: hex_text.cases)
    case (3 c c' ds)
    have "length (hex_pair b) = length (hex_pair c)" by (simp add: hex_pair_def)
    with "3.prems" 3 have "hex_pair b = hex_pair c" "hex_text (b' # bs) = hex_text (c' # ds)" by simp_all
    with "3.IH" 3 show ?thesis by (simp add: hex_pair_inj)
  qed (use "3.prems" in \<open>simp_all add: hex_pair_def\<close>)
qed

text \<open>The loop leaves every byte as its two digits and a colon, and a zero behind the last colon.\<close>

lemma hex_loop_eq:
  "length out = i * 3 \<Longrightarrow> 3 * length bs + 1 \<le> length rest \<Longrightarrow> bs \<noteq> [] \<Longrightarrow>
   hex_loop (out @ rest) i bs =
     Inr (out @ concat (map (\<lambda>b. hex_pair b @ [of_char (CHR '':'')]) bs) @ [0] @ drop (3 * length bs + 1) rest)"
proof (induction bs arbitrary: i out rest)
  case (Cons b bs)
  let ?p = "hex_pair b @ [of_char (CHR '':'')]"
  have "wr_range (out @ rest) (i * 3) (sprintf_2X_colon b) = Inr ((out @ ?p) @ (0 # drop 4 rest))"
  proof -
    have p: "sprintf_2X_colon b = ?p @ [0]" "length (?p @ [0]) = 4" by (simp_all add: sprintf_2X_colon_def hex_pair_def)
    show ?thesis unfolding p(1) Cons.prems(1) [symmetric]
      using wr_range_extend [of "?p @ [0]" rest out] Cons.prems(2) unfolding p(2) by simp
  qed
  then have step: "hex_loop (out @ rest) i (b # bs) = hex_loop ((out @ ?p) @ (0 # drop 4 rest)) (i + 1) bs" by simp
  show ?case
  proof (cases "bs = []")
    case True
    then show ?thesis unfolding step by simp
  next
    case False
    have l: "length (out @ ?p) = (i + 1) * 3" using Cons.prems by (simp add: hex_pair_def)
    have r: "3 * length bs + 1 \<le> length (0 # drop 4 rest)" using Cons.prems(2) by simp
    have d: "drop (3 * length bs + 1) (0 # drop 4 rest) = drop (3 * length (b # bs) + 1) rest" by (simp add: add.commute)
    show ?thesis unfolding step Cons.IH [OF l r False] d by simp
  qed
qed simp

lemma concat_hex_pairs:
  "bs \<noteq> [] \<Longrightarrow> concat (map (\<lambda>b. hex_pair b @ [of_char (CHR '':'')]) bs) = hex_text bs @ [of_char (CHR '':'')]"
  by (induction bs rule: hex_text.induct) simp_all

lemma hex_fingerprint_eq:
  assumes "bs \<noteq> []" "3 * length bs + 1 \<le> length buffer"
  shows "hex_fingerprint buffer bs = Inr (hex_text bs)"
proof -
  obtain post where l: "hex_loop buffer 0 bs = Inr (hex_text bs @ [of_char (CHR '':'')] @ [0] @ post)"
    using hex_loop_eq [of "[]" 0 bs buffer] assms unfolding concat_hex_pairs [OF assms(1)] by simp
  have i: "length bs * 3 - 1 = length (hex_text bs)" using assms(1) by (simp add: length_hex_text mult.commute)
  have "wr (hex_text bs @ [of_char (CHR '':'')] @ [0] @ post) (length bs * 3 - 1) 0 = Inr (hex_text bs @ [0] @ [0] @ post)"
    unfolding i by (simp add: wr_def)
  moreover have "takeWhile (\<lambda>c. c \<noteq> 0) (hex_text bs @ [0] @ [0] @ post) = hex_text bs"
    using hex_text_nonzero by (simp add: takeWhile_append)
  ultimately show ?thesis using l assms(1) by (simp add: hex_fingerprint_def Let_def)
qed

section \<open>Fingerprints\<close>

lemma GetFingerprintAlgorithm_known:
  "kv \<in> set string2FingerprintAlgorithm \<Longrightarrow> GetFingerprintAlgorithm (fst kv) = snd kv"
  by (auto simp: string2FingerprintAlgorithm_def GetFingerprintAlgorithm_def)

text \<open>Documented behaviour of \<open>X509_digest\<close>: a digest that was computed is not empty and fits \<open>EVP_MAX_MD_SIZE\<close>.\<close>

definition digest_ok :: "'ssl ssl_lib \<Rightarrow> bool" where
  "digest_ok lib \<longleftrightarrow> (\<forall>a c. fst (X509_digest lib a c) \<noteq> 0 \<longrightarrow>
     snd (X509_digest lib a c) \<noteq> [] \<and> length (snd (X509_digest lib a c)) \<le> EVP_MAX_MD_SIZE lib)"

lemma hex_fingerprint_digest:
  assumes "digest_ok lib" "X509_digest lib a c = (ret, bs)" "ret \<noteq> 0" "length buffer = EVP_MAX_MD_SIZE lib * 3 + 1"
  shows "hex_fingerprint buffer bs = Inr (hex_text bs)"
proof (rule hex_fingerprint_eq)
  have "snd (X509_digest lib a c) \<noteq> [] \<and> length (snd (X509_digest lib a c)) \<le> EVP_MAX_MD_SIZE lib"
    using assms(1-3) unfolding digest_ok_def by (metis fst_conv)
  then show "bs \<noteq> []" "3 * length bs + 1 \<le> length buffer" using assms(2,4) by auto
qed

lemma generate_loop_eq:
  assumes "digest_ok lib" "length buffer = EVP_MAX_MD_SIZE lib * 3 + 1"
    "\<forall>kv \<in> set kvs. snd kv \<noteq> FingerprintAlgorithm.NONE \<and> fst (X509_digest lib (snd kv) c) \<noteq> 0 \<and>
       GetFingerprintAlgorithm (fst kv) = snd kv"
  shows "generate_loop lib c buffer kvs fps =
    Inr (fps @ map (\<lambda>kv. \<lparr>fp_algorithm = snd kv, fp_value = hex_text (snd (X509_digest lib (snd kv) c))\<rparr>) kvs)"
  using assms(3)
proof (induction kvs arbitrary: fps)
  case (Cons kv kvs)
  obtain ret bs where d: "X509_digest lib (snd kv) c = (ret, bs)" by fastforce
  with Cons.prems have "hex_fingerprint buffer bs = Inr (hex_text bs)"
    using hex_fingerprint_digest [OF assms(1) d _ assms(2)] by simp
  with Cons d show ?case by (simp add: generate_fingerprint_def Let_def)
qed simp

text \<open>The local fingerprints: when every digest can be computed, one entry per algorithm of the table, in
  its order, appended to the list, each the colon separated upper case hexadecimal form of the digest of the
  certificate; the fixed buffer is never overrun.\<close>

theorem dtls_local_fingerprints:
  assumes "digest_ok lib" and "length buffer = EVP_MAX_MD_SIZE lib * 3 + 1"
    and "\<forall>a. fst (X509_digest lib a certificate) \<noteq> 0"
  shows "GenerateFingerprints lib certificate buffer fps = Inr (fps @
    map (\<lambda>a. \<lparr>fp_algorithm = a, fp_value = hex_text (snd (X509_digest lib a certificate))\<rparr>)
      [SHA1, SHA224, SHA256, SHA384, SHA512])"
proof -
  have "\<forall>kv \<in> set string2FingerprintAlgorithm. snd kv \<noteq> FingerprintAlgorithm.NONE \<and>
      fst (X509_digest lib (snd kv) certificate) \<noteq> 0 \<and> GetFingerprintAlgorithm (fst kv) = snd kv"
    using assms(3) GetFingerprintAlgorithm_known by (auto simp: string2FingerprintAlgorithm_def GetFingerprintAlgorithm_def)
  from generate_loop_eq [OF assms(1,2) this] show ?thesis
    by (simp add: GenerateFingerprints_def string2FingerprintAlgorithm_def)
qed

lemma example_digest_ok: "digest_ok (example_ssl\<lparr>X509_digest := \<lambda>_ c. (1, [0xAB, 7])\<rparr>)"
  by (simp add: digest_ok_def example_ssl_def)

theorem dtls_local_fingerprints_witness:
  "GenerateFingerprints (example_ssl\<lparr>X509_digest := \<lambda>_ c. (1, [0xAB, 7])\<rparr>) [1] (replicate 193 0) [] =
     Inr (map (\<lambda>a. \<lparr>fp_algorithm = a, fp_value = str ''AB:07''\<rparr>) [SHA1, SHA224, SHA256, SHA384, SHA512])"
  using dtls_local_fingerprints [OF example_digest_ok, of "replicate 193 0" "[1]" "[]"]
  by (simp add: example_ssl_def hex_pair_def hex_digit_def str_def)

text \<open>The check of the remote fingerprint (with a fingerprint set) accepts exactly when the peer sent a
  certificate whose digest, in hexadecimal form, is the value that was signalled, and the certificate can be
  written as non-empty PEM text, which is then stored; otherwise the transport is unchanged. A value that is the
  form of a digest is accepted for no other digest.\<close>

theorem dtls_remote_fingerprint_check:
  assumes "digest_ok lib" and "length buffer = EVP_MAX_MD_SIZE lib * 3 + 1"
    and "fp_algorithm (d_remoteFingerprint t) \<noteq> FingerprintAlgorithm.NONE"
    and "fp_value (d_remoteFingerprint t) = hex_text expected"
  shows "CheckRemoteFingerprint lib buffer t = Inr
    (case SSL_get_peer_certificate lib (d_ssl t) of
       None \<Rightarrow> (False, t)
     | Some c \<Rightarrow>
         let (ret, digest) = X509_digest lib (fp_algorithm (d_remoteFingerprint t)) c; (w, pem) = PEM_write_X509 lib c in
         if ret \<noteq> 0 \<and> digest = expected \<and> w = 1 \<and> pem \<noteq> [] then (True, t\<lparr>d_remoteCert := pem\<rparr>) else (False, t))"
proof (cases "SSL_get_peer_certificate lib (d_ssl t)")
  case None
  with assms(3) show ?thesis by (simp add: CheckRemoteFingerprint_def)
next
  case (Some c)
  obtain ret bs where d: "X509_digest lib (fp_algorithm (d_remoteFingerprint t)) c = (ret, bs)" by fastforce
  obtain w pem where p: "PEM_write_X509 lib c = (w, pem)" by fastforce
  show ?thesis
  proof (cases "ret = 0")
    case True
    with Some d assms(3) p show ?thesis by (simp add: CheckRemoteFingerprint_def)
  next
    case False
    have "hex_text expected = hex_text bs \<longleftrightarrow> bs = expected" using hex_text_inj by blast
    with False Some d p assms hex_fingerprint_digest [OF assms(1) d False assms(2)] show ?thesis
      by (auto simp: CheckRemoteFingerprint_def Let_def)
  qed
qed

theorem dtls_remote_fingerprint_check_witness:
  "CheckRemoteFingerprint (example_ssl\<lparr>X509_digest := \<lambda>_ c. (1, [0xAB, 7])\<rparr>) (replicate 193 0)
     (example_transport\<lparr>d_remoteFingerprint := \<lparr>fp_algorithm = SHA256, fp_value = str ''AB:07''\<rparr>\<rparr>) =
   Inr (True, example_transport\<lparr>d_remoteFingerprint := \<lparr>fp_algorithm = SHA256, fp_value = str ''AB:07''\<rparr>, d_remoteCert := [1]\<rparr>)"
  using dtls_remote_fingerprint_check [OF example_digest_ok, of "replicate 193 0"
      "example_transport\<lparr>d_remoteFingerprint := \<lparr>fp_algorithm = SHA256, fp_value = str ''AB:07''\<rparr>\<rparr>" "[0xAB, 7]"]
  by (simp add: example_ssl_def example_transport_def hex_pair_def hex_digit_def str_def)

section \<open>SRTP keys\<close>

text \<open>C20: Both ends of a handshake, the client and the server, that export the same keying material derive
  matching SRTP keys: the local key of one is the remote key of the other, each of the length that the suite
  has, and both become CONNECTED with that single event.\<close>

theorem dtls_keys_match:
  assumes "srtp_lengths suite = Inr (k, s)"
    and "d_localRole c = CLIENT" and "d_localRole sv = SERVER"
    and "SSL_export_keying_material lib ((k + s) * 2) (d_ssl c) = (ret, material)"
    and "SSL_export_keying_material lib' ((k + s) * 2) (d_ssl sv) = (ret', material)"
    and "ret \<noteq> 0" and "ret' \<noteq> 0" and "length material = (k + s) * 2"
  shows "\<exists>x y. ExtractSrtpKeys lib suite c =
        Inr (c\<lparr>d_state := CONNECTED\<rparr>, [OnDtlsTransportConnected suite x y (d_remoteCert c)]) \<and>
      ExtractSrtpKeys lib' suite sv =
        Inr (sv\<lparr>d_state := CONNECTED\<rparr>, [OnDtlsTransportConnected suite y x (d_remoteCert sv)]) \<and>
      length x = k + s \<and> length y = k + s \<and>
      (\<exists>ck sk cs ss. material = ck @ sk @ cs @ ss \<and> x = ck @ cs \<and> y = sk @ ss \<and> length ck = k \<and> length sk = k)"
proof (intro exI conjI)
  note c = ExtractSrtpKeys_eq [OF assms(1,4,6,8)] and sv = ExtractSrtpKeys_eq [OF assms(1,5,7,8)]
  show "ExtractSrtpKeys lib suite c = Inr (c\<lparr>d_state := CONNECTED\<rparr>,
      [OnDtlsTransportConnected suite (client_master k s material) (server_master k s material) (d_remoteCert c)])"
    using c assms(2) by simp
  show "ExtractSrtpKeys lib' suite sv = Inr (sv\<lparr>d_state := CONNECTED\<rparr>,
      [OnDtlsTransportConnected suite (server_master k s material) (client_master k s material) (d_remoteCert sv)])"
    using sv assms(3) by simp
  have split: "take k m @ take k (drop k m) @ take s (drop (2 * k) m) @ drop (2 * k + s) m = m" for m :: bytes
    by (metis append_take_drop_id drop_drop mult_2 add.commute)
  show "material = take k material @ take k (drop k material) @ take s (drop (2 * k) material) @ take s (drop (2 * k + s) material)"
    using split [of material] assms(8) by simp
qed (use assms(8) in \<open>simp_all add: client_master_def server_master_def\<close>)

theorem dtls_keys_match_witness:
  "\<exists>x y. ExtractSrtpKeys example_ssl AEAD_AES_128_GCM (example_transport\<lparr>d_localRole := CLIENT\<rparr>) =
        Inr (example_transport\<lparr>d_localRole := CLIENT, d_state := CONNECTED\<rparr>, [OnDtlsTransportConnected AEAD_AES_128_GCM x y []]) \<and>
      ExtractSrtpKeys example_ssl AEAD_AES_128_GCM (example_transport\<lparr>d_localRole := SERVER\<rparr>) =
        Inr (example_transport\<lparr>d_localRole := SERVER, d_state := CONNECTED\<rparr>, [OnDtlsTransportConnected AEAD_AES_128_GCM y x []]) \<and>
      length x = 28"
proof -
  have l: "srtp_lengths AEAD_AES_128_GCM = Inr (16, 12)"
    by (simp add: SrtpAesGcm128MasterKeyLength_def SrtpAesGcm128MasterSaltLength_def)
  have e: "SSL_export_keying_material example_ssl n ssl = (1, map word_of_nat [0..<n])" for n ssl
    by (simp add: example_ssl_def)
  show ?thesis
    using dtls_keys_match [OF l, of "example_transport\<lparr>d_localRole := CLIENT\<rparr>" "example_transport\<lparr>d_localRole := SERVER\<rparr>"
        example_ssl 1 "map word_of_nat [0..<(16 + 12) * 2]" example_ssl 1]
    unfolding e by (auto simp: example_transport_def)
qed

section \<open>The retransmission timer\<close>

text \<open>The intervals of the retransmission timer, started with 0 as OpenSSL does, are 100 ms doubled up to
  6.4 s and then 4 s for ever; the doubling never wraps around.\<close>

theorem dtls_timer_intervals:
  "(onSslDtlsTimer ^^ Suc n) 0 = (if n < 7 then 100000 * 2 ^ n else 4000000)"
proof (induction n)
  case 0
  then show ?case by (simp add: onSslDtlsTimer_def)
next
  case (Suc n)
  have "(onSslDtlsTimer ^^ Suc (Suc n)) 0 = onSslDtlsTimer ((onSslDtlsTimer ^^ Suc n) 0)" by simp
  also have "\<dots> = onSslDtlsTimer (if n < 7 then 100000 * 2 ^ n else 4000000)" unfolding Suc.IH ..
  also have "\<dots> = (if Suc n < 7 then 100000 * 2 ^ Suc n else 4000000)"
  proof (cases "n < 7")
    case True
    then have "n = 0 \<or> n = 1 \<or> n = 2 \<or> n = 3 \<or> n = 4 \<or> n = 5 \<or> n = 6" by arith
    then show ?thesis by (elim disjE) (simp_all add: onSslDtlsTimer_def)
  qed (simp add: onSslDtlsTimer_def)
  finally show ?case .
qed

section \<open>Timeouts outside a run\<close>

text \<open>The timer handler does nothing after the handshake and is safe while the transport is running; in
  every other state of the invariant it aborts the process.\<close>

theorem dtls_timer_handler:
  assumes "dtls_inv t"
  shows "if IsRunning t then \<exists>t' es. OnTimer lib t = Inr (t', es) \<and> dtls_inv t' \<and> trace dtls_protocol (d_state t) es (d_state t')
    else OnTimer lib t = Inl (Abort ''invalid DTLS state'')"
proof (cases "IsRunning t")
  case True
  with OnTimer_ok [OF assms] show ?thesis by simp
next
  case False
  let ?t = "ssl_call lib (DTLSv1_handle_timeout lib) t"
  obtain t1 es where p: "SendPendingOutgoingDtlsData lib ?t = (t1, es)" by fastforce
  have "\<not> IsRunning t1" using SendPending_frame(1) [OF p] False by (simp add: IsRunning_iff)
  moreover have "\<not> d_handshakeDone t" using assms False by (auto simp: dtls_inv_def IsRunning_iff)
  ultimately show ?thesis using False p SetTimeout_aborts [of t1 lib] by (simp add: OnTimer_def)
qed

theorem dtls_timer_handler_witness:
  "OnTimer example_ssl example_transport = Inl (Abort ''invalid DTLS state'')"
  using dtls_timer_handler [of example_transport example_ssl] new_DtlsTransport_inv [OF new_example_transport]
  by (simp add: example_transport_def IsRunning_def)

section \<open>Error paths of construction\<close>

lemma new_DtlsTransport_cases:
  "new_DtlsTransport lib =
     (case SSL_new lib of
        None \<Rightarrow> Inl (Throw ''DtlsTransport instance creation failed'')
      | Some ssl \<Rightarrow>
          if BIO_new_from_network lib \<and> BIO_new_to_network lib then new_DtlsTransport lib else Inl DoubleFree)"
  "SSL_new lib \<noteq> None \<Longrightarrow> BIO_new_from_network lib \<Longrightarrow> BIO_new_to_network lib \<Longrightarrow> \<exists>t. new_DtlsTransport lib = Inr t"
  by (auto simp: new_DtlsTransport_def constructor_error_def free_ptr_def split: option.split)

abbreviation no_statics :: dtls_statics where
  "no_statics \<equiv> \<lparr>st_certificate = Null, st_privateKey = Null, st_sslCtx = Null\<rparr>"

lemma certificate_outcome:
  "case GenerateCertificateAndPrivateKey clib no_statics of
     (Inr u, st) \<Rightarrow> ClassDestroy st = Inr \<lparr>st_certificate = Freed, st_privateKey = Freed, st_sslCtx = Null\<rparr>
   | (Inl f, st) \<Rightarrow> f = Throw ''DTLS certificate and private key generation failed'' \<and>
       (ClassDestroy st = Inl DoubleFree \<longleftrightarrow>
        EC_KEY_new_by_curve_name clib \<and> EC_KEY_generate_key clib \<and> EVP_PKEY_new clib)"
proof (cases "EC_KEY_new_by_curve_name clib \<and> EC_KEY_generate_key clib \<and> EVP_PKEY_new clib")
  case True
  then show ?thesis
    by (simp add: GenerateCertificateAndPrivateKey_def certificate_error_def free_ptr_def ClassDestroy_def Let_def)
next
  case False
  then show ?thesis
    by (auto simp: GenerateCertificateAndPrivateKey_def certificate_error_def free_ptr_def ClassDestroy_def)
qed

text \<open>C38: Construction of a transport either succeeds, throws (when the SSL object cannot be made), or, when a
  memory BIO cannot be made, frees the same object twice: the branch frees it and jumps to the label that frees
  it again. The class-level certificate: a failure after the key object was made leaves pointers to freed
  objects, so that releasing the class frees them twice; after a success it is released once.\<close>

theorem dtls_resource_errors:
  "(new_DtlsTransport lib = Inl DoubleFree \<longleftrightarrow> SSL_new lib \<noteq> None \<and> \<not> (BIO_new_from_network lib \<and> BIO_new_to_network lib)) \<and>
   (new_DtlsTransport lib = Inl (Throw ''DtlsTransport instance creation failed'') \<longleftrightarrow> SSL_new lib = None) \<and>
   ((\<exists>t. new_DtlsTransport lib = Inr t) \<longleftrightarrow> SSL_new lib \<noteq> None \<and> BIO_new_from_network lib \<and> BIO_new_to_network lib) \<and>
   (case GenerateCertificateAndPrivateKey clib no_statics of
      (Inr u, st) \<Rightarrow> ClassDestroy st = Inr \<lparr>st_certificate = Freed, st_privateKey = Freed, st_sslCtx = Null\<rparr>
    | (Inl f, st) \<Rightarrow> f = Throw ''DTLS certificate and private key generation failed'' \<and>
        (ClassDestroy st = Inl DoubleFree \<longleftrightarrow>
         EC_KEY_new_by_curve_name clib \<and> EC_KEY_generate_key clib \<and> EVP_PKEY_new clib))"
proof (intro conjI certificate_outcome)
  note c = new_DtlsTransport_cases [of lib]
  show "new_DtlsTransport lib = Inl DoubleFree \<longleftrightarrow> SSL_new lib \<noteq> None \<and> \<not> (BIO_new_from_network lib \<and> BIO_new_to_network lib)"
    by (cases "SSL_new lib"; cases "BIO_new_from_network lib \<and> BIO_new_to_network lib") (use c in auto)
  show "new_DtlsTransport lib = Inl (Throw ''DtlsTransport instance creation failed'') \<longleftrightarrow> SSL_new lib = None"
    by (cases "SSL_new lib"; cases "BIO_new_from_network lib \<and> BIO_new_to_network lib") (use c in auto)
  show "(\<exists>t. new_DtlsTransport lib = Inr t) \<longleftrightarrow> SSL_new lib \<noteq> None \<and> BIO_new_from_network lib \<and> BIO_new_to_network lib"
    by (cases "SSL_new lib"; cases "BIO_new_from_network lib \<and> BIO_new_to_network lib") (use c in auto)
qed

lemma hex_loop_fault: "hex_loop buf i bs = Inl f \<Longrightarrow> f = OutOfBounds"
  by (induction buf i bs rule: hex_loop.induct) (auto simp: rbind_eq_Inl wr_range_def split: if_splits)

lemma generate_loop_fault:
  "generate_loop lib c buf kvs fps = Inl f \<Longrightarrow> f \<noteq> Throw ''DTLS certificate and private key generation failed''"
proof (induction lib c buf kvs fps rule: generate_loop.induct)
  case (2 lib c buf kv kvs fps)
  have "g \<noteq> Throw ''DTLS certificate and private key generation failed''" if "generate_fingerprint lib c buf kv = Inl g" for g
    using that by (auto simp: generate_fingerprint_def hex_fingerprint_def rbind_eq_Inl wr_def Let_def
        dest: hex_loop_fault split: if_splits prod.splits)
  with 2 show ?case by (auto simp: rbind_eq_Inl)
qed simp

text \<open>After a successful start-up of the class, the three static objects are live and releasing the class
  frees each once; releasing it a second time frees an object twice, since the pointers are not reset. After a
  failed start-up, releasing the class is a double free exactly when the certificate failed after its key object
  had been made; a failure of the context or of a fingerprint leaves objects that are released once.\<close>

theorem dtls_class_lifecycle:
  "case DtlsTransport_ClassInit clib xlib lib certificate buffer (no_statics, []) of
     (Inr u, st, fps) \<Rightarrow> st = \<lparr>st_certificate = Live, st_privateKey = Live, st_sslCtx = Live\<rparr> \<and>
       rbind (ClassDestroy st) ClassDestroy = Inl DoubleFree \<and>
       ClassDestroy st = Inr \<lparr>st_certificate = Freed, st_privateKey = Freed, st_sslCtx = Freed\<rparr>
   | (Inl f, st, fps) \<Rightarrow> ClassDestroy st = Inl DoubleFree \<longleftrightarrow>
       f = Throw ''DTLS certificate and private key generation failed'' \<and>
       EC_KEY_new_by_curve_name clib \<and> EC_KEY_generate_key clib \<and> EVP_PKEY_new clib"
proof (cases "fst (GenerateCertificateAndPrivateKey clib no_statics)")
  case (Inl f)
  then obtain st where g: "GenerateCertificateAndPrivateKey clib no_statics = (Inl f, st)" by (metis prod.collapse)
  with certificate_outcome [of clib] show ?thesis by (simp add: DtlsTransport_ClassInit_def)
next
  case (Inr u)
  let ?st = "\<lparr>st_certificate = Live, st_privateKey = Live, st_sslCtx = Null\<rparr>"
  have g: "GenerateCertificateAndPrivateKey clib no_statics = (Inr u, ?st)"
    using Inr by (simp add: GenerateCertificateAndPrivateKey_def certificate_error_def free_ptr_def Let_def split: if_splits)
  have c: "CreateSslCtx xlib ?st = (Inl (Throw ''SSL context creation failed''), ?st) \<or>
      CreateSslCtx xlib ?st = (Inr (), ?st\<lparr>st_sslCtx := Live\<rparr>)"
    by (simp add: CreateSslCtx_def context_error_def free_ptr_def Let_def)
  have d: "ClassDestroy ?st = Inr \<lparr>st_certificate = Freed, st_privateKey = Freed, st_sslCtx = Null\<rparr>"
    "ClassDestroy (?st\<lparr>st_sslCtx := Live\<rparr>) = Inr \<lparr>st_certificate = Freed, st_privateKey = Freed, st_sslCtx = Freed\<rparr>"
    "ClassDestroy \<lparr>st_certificate = Freed, st_privateKey = Freed, st_sslCtx = Freed\<rparr> = Inl DoubleFree"
    by (simp_all add: ClassDestroy_def free_ptr_def)
  show ?thesis
  proof (cases "GenerateFingerprints lib certificate buffer []")
    case (Inl f)
    then have "f \<noteq> Throw ''DTLS certificate and private key generation failed''"
      unfolding GenerateFingerprints_def by (rule generate_loop_fault)
    with c d Inl show ?thesis by (auto simp: DtlsTransport_ClassInit_def g)
  next
    case (Inr fps)
    with c d show ?thesis by (auto simp: DtlsTransport_ClassInit_def g)
  qed
qed

end
