(* ===== verification/WebRtcTransport.thy ===== *)
theory WebRtcTransport
  imports IceServer DtlsSecurity RtpPacket
begin

text \<open>
  \<open>WebRtcTransport\<close> (rtc/webrtc_transport.h, rtc/webrtc_transport.cc): the object that owns an ICE
  server, a DTLS transport and an SRTP session, is the listener of the first two, and demultiplexes the
  datagrams of one peer.

  The ICE server and the DTLS transport read nothing back from their listener while an operation runs,
  so the transport handles the events an operation emitted after it, in order. What leaves the transport is
  a list of outputs: packets handed to the network transport with the address passed along, and RTP data
  handed to the channel. The three libraries, the state of the log and the memory of a new SRTP session are
  a record. The address of the peer is \<open>None\<close> while the member is not initialised. The results of
  \<open>SendPacket\<close> are ignored by every caller.
\<close>

section \<open>Data\<close>

record ('ssl, 'ss) libs =
  l_hmac :: hmac_lib
  l_ssl :: "'ssl ssl_lib"
  l_srtp :: "'ss srtp_lib"
  l_log :: bool
  l_buffer :: bytes

datatype wt_output =
    SentPacket bytes "TransportTuple option"
  | ChannelRtp bytes

record ('ssl, 'ss) webrtc_transport =
  w_ice :: ice_server
  w_stun_buffer :: bytes
  w_dtls :: "'ssl dtls_transport"
  w_srtp :: "'ss srtp_session option"
  w_transport :: bool
  w_rtp_channel :: bool
  w_is_ready :: bool
  w_ip :: bytes
  w_port :: uint16
  w_remote :: "TransportTuple option"

type_synonym ('ssl, 'ss) wt_result = "(('ssl, 'ss) webrtc_transport \<times> wt_output list) res"

section \<open>Construction\<close>

text \<open>The two random strings are arguments of one call, which may be evaluated in either order.\<close>

definition new_credentials :: "bool \<Rightarrow> uint32 \<Rightarrow> (bytes \<times> bytes) \<times> uint32" where
  "new_credentials ufrag_first seed =
     (if ufrag_first then
        let (ufrag, seed) = GetRandomString 4 seed; (pwd, seed) = GetRandomString 24 seed in ((ufrag, pwd), seed)
      else
        let (pwd, seed) = GetRandomString 24 seed; (ufrag, seed) = GetRandomString 4 seed in ((ufrag, pwd), seed))"

definition new_WebRtcTransport ::
  "('ssl, 'ss) libs \<Rightarrow> bytes \<Rightarrow> bool \<Rightarrow> bytes \<Rightarrow> uint16 \<Rightarrow> uint32 \<Rightarrow> (('ssl, 'ss) webrtc_transport \<times> uint32) res" where
  "new_WebRtcTransport l stun_buffer ufrag_first ip port seed =
     rbind (new_DtlsTransport (l_ssl l)) (\<lambda>dtls.
     let ((ufrag, pwd), seed) = new_credentials ufrag_first seed in
     Ok (\<lparr>w_ice = new_IceServer True ufrag pwd, w_stun_buffer = stun_buffer, w_dtls = dtls, w_srtp = None,
          w_transport = False, w_rtp_channel = False, w_is_ready = False, w_ip = ip, w_port = port, w_remote = None\<rparr>, seed))"

definition SetNetworkTransport :: "('ssl, 'ss) webrtc_transport \<Rightarrow> ('ssl, 'ss) webrtc_transport" where
  "SetNetworkTransport w = w\<lparr>w_transport := True\<rparr>"

definition SetRTPChannel :: "('ssl, 'ss) webrtc_transport \<Rightarrow> ('ssl, 'ss) webrtc_transport" where
  "SetRTPChannel w = w\<lparr>w_rtp_channel := True\<rparr>"

definition GetidentifyID :: "('ssl, 'ss) webrtc_transport \<Rightarrow> bytes" where
  "GetidentifyID w = i_usernameFragment (w_ice w)"

section \<open>Output\<close>

definition SendPacket ::
  "bytes \<Rightarrow> nat \<Rightarrow> TransportTuple option \<Rightarrow> ('ssl, 'ss) webrtc_transport \<Rightarrow> wt_output list res" where
  "SendPacket data len remote_address w =
     (if w_transport w then rbind (rd_range data 0 len) (\<lambda>bs. Ok [SentPacket bs remote_address]) else Ok [])"

definition EncryptAndSendRtpPacket ::
  "('ssl, 'ss) libs \<Rightarrow> bytes \<Rightarrow> nat \<Rightarrow> ('ssl, 'ss) webrtc_transport \<Rightarrow> ('ssl, 'ss) wt_result" where
  "EncryptAndSendRtpPacket l data len w =
     rbind
       (if w_is_ready w then
          (case w_srtp w of
             None \<Rightarrow> Fault NullDeref
           | Some s \<Rightarrow>
               rbind (EncryptRtp (l_srtp l) (l_log l) data len s) (\<lambda>((ret, p, tmp_len), s).
                 Ok ((p, tmp_len), w\<lparr>w_srtp := Some s\<rparr>)))
        else Ok ((data, len), w))
       (\<lambda>((p, tmp_len), w). rbind (SendPacket p tmp_len (w_remote w) w) (\<lambda>os. Ok (w, os)))"

section \<open>Listener of the DTLS transport\<close>

definition OnDtlsTransportConnected_handler ::
  "('ssl, 'ss) libs \<Rightarrow> CryptoSuite \<Rightarrow> bytes \<Rightarrow> nat \<Rightarrow> ('ssl, 'ss) webrtc_transport \<Rightarrow> ('ssl, 'ss) webrtc_transport res" where
  "OnDtlsTransportConnected_handler l srtpCryptoSuite srtpLocalKey srtpLocalKeyLen w =
     rbind (new_SrtpSession (l_srtp l) (l_buffer l) OUTBOUND srtpCryptoSuite srtpLocalKey srtpLocalKeyLen) (\<lambda>s.
     rbind (case w_srtp w of None \<Rightarrow> Ok () | Some old \<Rightarrow> delete_SrtpSession (l_srtp l) old) (\<lambda>_.
     Ok (w\<lparr>w_srtp := Some s, w_is_ready := True\<rparr>)))"

fun handle_dtls_event ::
  "('ssl, 'ss) libs \<Rightarrow> dtls_event \<Rightarrow> ('ssl, 'ss) webrtc_transport \<Rightarrow> ('ssl, 'ss) wt_result" where
  "handle_dtls_event l OnDtlsTransportConnecting w = Ok (w, [])"
| "handle_dtls_event l (OnDtlsTransportConnected suite localKey remoteKey remoteCert) w =
     rbind (OnDtlsTransportConnected_handler l suite localKey (length localKey) w) (\<lambda>w. Ok (w, []))"
| "handle_dtls_event l OnDtlsTransportFailed w = Ok (w, [])"
| "handle_dtls_event l OnDtlsTransportClosed w = Ok (w, [])"
| "handle_dtls_event l (OnDtlsTransportSendData data) w =
     rbind (SendPacket data (length data) (w_remote w) w) (\<lambda>os. Ok (w, os))"
| "handle_dtls_event l (OnDtlsTransportApplicationDataReceived data) w = Ok (w, [])"

fun handle_dtls_events ::
  "('ssl, 'ss) libs \<Rightarrow> dtls_event list \<Rightarrow> ('ssl, 'ss) webrtc_transport \<Rightarrow> ('ssl, 'ss) wt_result" where
  "handle_dtls_events l [] w = Ok (w, [])"
| "handle_dtls_events l (e # es) w =
     rbind (handle_dtls_event l e w) (\<lambda>(w, os). rbind (handle_dtls_events l es w) (\<lambda>(w, os'). Ok (w, os @ os')))"

section \<open>Listener of the ICE server\<close>

definition OnIceServerSelectedTuple_handler ::
  "('ssl, 'ss) libs \<Rightarrow> TransportTuple \<Rightarrow> ('ssl, 'ss) webrtc_transport \<Rightarrow> ('ssl, 'ss) wt_result" where
  "OnIceServerSelectedTuple_handler l tuple w =
     (let w = w\<lparr>w_remote := Some tuple\<rparr> in
      rbind (Run (l_ssl l) SERVER (w_dtls w)) (\<lambda>(dtls, es). handle_dtls_events l es (w\<lparr>w_dtls := dtls\<rparr>)))"

fun handle_ice_event ::
  "('ssl, 'ss) libs \<Rightarrow> ice_event \<Rightarrow> ('ssl, 'ss) webrtc_transport \<Rightarrow> ('ssl, 'ss) wt_result" where
  "handle_ice_event l (OnIceServerSendStunPacket packet tuple) w =
     (case p_data packet of
        None \<Rightarrow> Fault NullDeref
      | Some data \<Rightarrow> rbind (SendPacket data (p_size packet) (Some tuple) w) (\<lambda>os. Ok (w, os)))"
| "handle_ice_event l (OnIceServerSelectedTuple tuple) w = OnIceServerSelectedTuple_handler l tuple w"

fun handle_ice_events ::
  "('ssl, 'ss) libs \<Rightarrow> ice_event list \<Rightarrow> ('ssl, 'ss) webrtc_transport \<Rightarrow> ('ssl, 'ss) wt_result" where
  "handle_ice_events l [] w = Ok (w, [])"
| "handle_ice_events l (e # es) w =
     rbind (handle_ice_event l e w) (\<lambda>(w, os). rbind (handle_ice_events l es w) (\<lambda>(w, os'). Ok (w, os @ os')))"

section \<open>Input\<close>

definition receive_stun ::
  "('ssl, 'ss) libs \<Rightarrow> bytes \<Rightarrow> nat \<Rightarrow> TransportTuple \<Rightarrow> ('ssl, 'ss) webrtc_transport \<Rightarrow> ('ssl, 'ss) wt_result" where
  "receive_stun l buf len remote_address w =
     rbind (Parse buf len) (\<lambda>packet.
     case packet of
       None \<Rightarrow> Ok (w, [])
     | Some packet \<Rightarrow>
         rbind (ProcessStunPacket (l_hmac l) packet remote_address (w_ice w, w_stun_buffer w)) (\<lambda>((ice, stun_buffer), es).
         handle_ice_events l es (w\<lparr>w_ice := ice, w_stun_buffer := stun_buffer\<rparr>)))"

definition receive_dtls ::
  "('ssl, 'ss) libs \<Rightarrow> bytes \<Rightarrow> nat \<Rightarrow> ('ssl, 'ss) webrtc_transport \<Rightarrow> ('ssl, 'ss) wt_result" where
  "receive_dtls l buf len w =
     rbind (ProcessDtlsData (l_ssl l) buf len (w_dtls w)) (\<lambda>(dtls, es). handle_dtls_events l es (w\<lparr>w_dtls := dtls\<rparr>))"

definition receive_rtp ::
  "('ssl, 'ss) libs \<Rightarrow> bytes \<Rightarrow> nat \<Rightarrow> ('ssl, 'ss) webrtc_transport \<Rightarrow> ('ssl, 'ss) wt_result" where
  "receive_rtp l buf len w =
     (if w_rtp_channel w then
        (case w_srtp w of
           None \<Rightarrow> Fault NullDeref
         | Some s \<Rightarrow>
             rbind (DecryptSrtp (l_srtp l) (l_log l) buf len s) (\<lambda>((ret, buf, new_len), s).
             rbind (rd_range buf 0 new_len) (\<lambda>bs. Ok (w\<lparr>w_srtp := Some s\<rparr>, [ChannelRtp bs]))))
      else Ok (w, []))"

definition OnInputDataPacket ::
  "('ssl, 'ss) libs \<Rightarrow> bytes \<Rightarrow> nat \<Rightarrow> TransportTuple \<Rightarrow> ('ssl, 'ss) webrtc_transport \<Rightarrow> ('ssl, 'ss) wt_result" where
  "OnInputDataPacket l buf len remote_address w =
     rbind (IsStun buf len) (\<lambda>stun. if stun then receive_stun l buf len remote_address w else
     rbind (IsDtls buf len) (\<lambda>dtls. if dtls then receive_dtls l buf len w else
     rbind (IsRtcpPacket buf len) (\<lambda>rtcp. if rtcp then Ok (w, []) else
     rbind (IsRtpPacket buf len) (\<lambda>rtp. if rtp then receive_rtp l buf len w else Ok (w, [])))))"

section \<open>Session descriptions\<close>

fun decimal_digits :: "nat \<Rightarrow> bytes" where
  "decimal_digits n = (if n < 10 then [of_nat (48 + n)] else decimal_digits (n div 10) @ [of_nat (48 + n mod 10)])"

declare decimal_digits.simps [simp del]

text \<open>The text a \<open>%s\<close> conversion of \<open>c_str()\<close> prints.\<close>

definition cstr :: "bytes \<Rightarrow> bytes" where
  "cstr s = takeWhile (\<lambda>c. c \<noteq> 0) s"

definition crlf :: bytes where "crlf = [13, 10]"

fun find_sha256 :: "Fingerprint list \<Rightarrow> bytes" where
  "find_sha256 [] = []"
| "find_sha256 (f # fs) = (if fp_algorithm f = SHA256 then fp_value f else find_sha256 fs)"

text \<open>The local fingerprints are a static member of the DTLS transport.\<close>

definition GetSHA256Fingerprint :: "Fingerprint list \<Rightarrow> bytes" where
  "GetSHA256Fingerprint localFingerprints = find_sha256 localFingerprints"

definition candidate_line :: "('ssl, 'ss) webrtc_transport \<Rightarrow> bytes" where
  "candidate_line w =
     str ''a=candidate:4 1 udp '' @ decimal_digits 12345678 @ str '' '' @ cstr (w_ip w) @ str '' '' @
     decimal_digits (unat (w_port w)) @ str '' typ host'' @ crlf"

definition ice_lines :: "Fingerprint list \<Rightarrow> ('ssl, 'ss) webrtc_transport \<Rightarrow> bytes" where
  "ice_lines fps w =
     str ''a=ice-ufrag:'' @ cstr (i_usernameFragment (w_ice w)) @ crlf @
     str ''a=ice-pwd:'' @ cstr (i_password (w_ice w)) @ crlf @
     str ''a=ice-options:trickle'' @ crlf @
     str ''a=fingerprint:sha-256 '' @ cstr (GetSHA256Fingerprint fps) @ crlf @
     str ''a=setup:actpass'' @ crlf @ str ''a=connection:new'' @ crlf @
     str ''a=rtpmap:96 H264/90000'' @ crlf"

definition sdp_head :: "string \<Rightarrow> ('ssl, 'ss) webrtc_transport \<Rightarrow> bytes" where
  "sdp_head direction w =
     str ''v=0'' @ crlf @ str ''o=- 1495799811084970 1495799811084970 IN IP4 '' @ cstr (w_ip w) @ crlf @
     str ''s=Streaming Test'' @ crlf @ str ''t=0 0'' @ crlf @ str ''a=group:BUNDLE 0'' @ crlf @
     str ''a=msid-semantic: WMS janus'' @ crlf @ str ''m=video 1 RTP/SAVPF 96'' @ crlf @
     str ''c=IN IP4 '' @ cstr (w_ip w) @ crlf @ str ''a=mid:0'' @ crlf @ str ''a='' @ str direction @ crlf @
     str ''a=rtcp-mux'' @ crlf"

definition ssrc_lines :: bytes where
  "ssrc_lines =
     str ''a=ssrc:'' @ decimal_digits 12345678 @ str '' cname:janusvideo'' @ crlf @
     str ''a=ssrc:'' @ decimal_digits 12345678 @ str '' msid:janus janusv0'' @ crlf @
     str ''a=ssrc:'' @ decimal_digits 12345678 @ str '' mslabel:janus'' @ crlf @
     str ''a=ssrc:'' @ decimal_digits 12345678 @ str '' label:janusv0'' @ crlf"

text \<open>\<open>sprintf\<close> into an array of 10240 bytes writes the text and a terminating zero.\<close>

definition sdp_buffer :: "bytes \<Rightarrow> bytes res" where
  "sdp_buffer text = (if length text + 1 \<le> 1024 * 10 then Ok text else Fault OutOfBounds)"

definition GetLocalSdp :: "Fingerprint list \<Rightarrow> ('ssl, 'ss) webrtc_transport \<Rightarrow> bytes res" where
  "GetLocalSdp fps w = sdp_buffer (sdp_head ''sendonly'' w @ ice_lines fps w @ ssrc_lines @ candidate_line w)"

definition GetPublishSdp :: "Fingerprint list \<Rightarrow> ('ssl, 'ss) webrtc_transport \<Rightarrow> bytes res" where
  "GetPublishSdp fps w = sdp_buffer (sdp_head ''recvonly'' w @ ice_lines fps w @ candidate_line w)"

end
