(* ===== verification/TransportProofs.thy ===== *)
theory TransportProofs
  imports WebRtcTransport
begin

text \<open>
  The composition of ICE, DTLS and SRTP in a transport: an invariant that ties the states of the three
  together, that every operation keeps it and does not fault, which outputs go where, and when the transport
  becomes ready for media.
\<close>

section \<open>Invariant\<close>

text \<open>Behaviour of libsrtp, beyond that of the packet functions: the key lengths of the policies, that a session
  with a valid policy can be made and released, and that a packet that could not be protected keeps its length.\<close>

definition srtp_setup_ok :: "'ss srtp_lib \<Rightarrow> bool" where
  "srtp_setup_ok lib \<longleftrightarrow>
     cipher_key_len lib aes_cm_128_hmac_sha1_80 = 30 \<and> cipher_key_len lib aes_cm_128_hmac_sha1_32 = 30 \<and>
     cipher_key_len lib aes_gcm_256_16_auth = 44 \<and> cipher_key_len lib aes_gcm_128_16_auth = 28 \<and>
     (\<forall>policy. fst (srtp_create lib policy) = 0) \<and> (\<forall>ss. srtp_dealloc lib ss = 0) \<and>
     (\<forall>ss buf len. fst (srtp_protect lib ss buf len) \<noteq> 0 \<longrightarrow> snd (snd (snd (srtp_protect lib ss buf len))) = len)"

definition libs_ok :: "('ssl, 'ss) libs \<Rightarrow> bool" where
  "libs_ok l \<longleftrightarrow> hmac_ok (l_hmac l) \<and> ssl_ok (l_ssl l) \<and> srtp_ok (l_srtp l) \<and> srtp_setup_ok (l_srtp l) \<and>
     length (l_buffer l) = kEncryptBufferSize"

definition srtp_inv :: "('ssl, 'ss) webrtc_transport \<Rightarrow> bool" where
  "srtp_inv w = (case w_srtp w of None \<Rightarrow> \<not> w_is_ready w | Some s \<Rightarrow> w_is_ready w \<and> session_ok s)"

lemma srtp_inv_updates [simp]:
  "srtp_inv (w\<lparr>w_ice := ice\<rparr>) = srtp_inv w" "srtp_inv (w\<lparr>w_stun_buffer := b\<rparr>) = srtp_inv w"
  "srtp_inv (w\<lparr>w_dtls := d\<rparr>) = srtp_inv w" "srtp_inv (w\<lparr>w_remote := a\<rparr>) = srtp_inv w"
  "srtp_inv (w\<lparr>w_transport := t\<rparr>) = srtp_inv w" "srtp_inv (w\<lparr>w_rtp_channel := t\<rparr>) = srtp_inv w"
  by (simp_all add: srtp_inv_def split: option.split)

text \<open>DTLS runs only once ICE has selected an address, which is then known; media are ready exactly when there is
  an SRTP session, and always while DTLS is connected.\<close>

definition wt_inv :: "('ssl, 'ss) libs \<Rightarrow> ('ssl, 'ss) webrtc_transport \<Rightarrow> bool" where
  "wt_inv l w \<longleftrightarrow>
     ice_inv (l_hmac l, w_ice w, w_stun_buffer w) \<and> dtls_inv (w_dtls w) \<and> srtp_inv w \<and>
     (i_state (w_ice w) = COMPLETED \<longleftrightarrow> w_remote w \<noteq> None) \<and>
     (w_remote w = None \<longrightarrow> d_state (w_dtls w) = DtlsState.NEW \<and> \<not> w_is_ready w) \<and>
     (d_state (w_dtls w) = DtlsState.CONNECTED \<longrightarrow> w_is_ready w)"

fun addressed :: "wt_output \<Rightarrow> bool" where
  "addressed (SentPacket bs a) = (a \<noteq> None)"
| "addressed (ChannelRtp bs) = True"

section \<open>Events of the DTLS transport\<close>

text \<open>The parts of the transport that handling DTLS events leaves alone.\<close>

definition same_but_srtp :: "('ssl, 'ss) webrtc_transport \<Rightarrow> ('ssl, 'ss) webrtc_transport \<Rightarrow> bool" where
  "same_but_srtp w w' \<longleftrightarrow>
     w_ice w' = w_ice w \<and> w_stun_buffer w' = w_stun_buffer w \<and> w_dtls w' = w_dtls w \<and> w_remote w' = w_remote w \<and>
     w_transport w' = w_transport w \<and> w_rtp_channel w' = w_rtp_channel w \<and> w_ip w' = w_ip w \<and> w_port w' = w_port w"

lemma new_SrtpSession_ok:
  assumes "libs_ok l" "srtp_lengths suite = Inr (k, salt)"
  shows "\<exists>s. new_SrtpSession (l_srtp l) (l_buffer l) type suite key (k + salt) = Inr s \<and> session_ok s"
proof -
  have "fst (srtp_create (l_srtp l) policy) = 0" for policy using assms(1) by (simp add: libs_ok_def srtp_setup_ok_def)
  moreover obtain rtp rtcp where "suite_policy suite = Inr (rtp, rtcp)" "cipher_key_len (l_srtp l) rtp = k + salt"
    using assms by (cases suite) (auto simp: libs_ok_def srtp_setup_ok_def SrtpMasterKeyLength_def SrtpMasterSaltLength_def
        SrtpAesGcm256MasterKeyLength_def SrtpAesGcm256MasterSaltLength_def SrtpAesGcm128MasterKeyLength_def
        SrtpAesGcm128MasterSaltLength_def)
  ultimately show ?thesis using assms(1)
    by (simp add: new_SrtpSession_def Let_def split_beta IsError_def session_ok_def libs_ok_def)
qed

lemma connected_handler_ok:
  assumes l: "libs_ok l" "srtp_lengths suite = Inr (k, salt)" "length key = k + salt"
  shows "\<exists>s. OnDtlsTransportConnected_handler l suite key (length key) w = Inr (w\<lparr>w_srtp := Some s, w_is_ready := True\<rparr>) \<and> session_ok s"
proof -
  obtain s where "new_SrtpSession (l_srtp l) (l_buffer l) OUTBOUND suite key (length key) = Inr s" "session_ok s"
    using new_SrtpSession_ok [OF l(1,2)] l(3) by metis
  moreover have "(case w_srtp w of None \<Rightarrow> Ok () | Some old \<Rightarrow> delete_SrtpSession (l_srtp l) old) = Inr ()"
    using l(1) by (simp add: libs_ok_def srtp_setup_ok_def delete_SrtpSession_def IsError_def split: option.split)
  ultimately show ?thesis by (auto simp: OnDtlsTransportConnected_handler_def)
qed

text \<open>What handling DTLS events guarantees, for a listener that is told the state \<open>s'\<close> at the end.\<close>

definition dtls_handled ::
  "DtlsState \<Rightarrow> ('ssl, 'ss) webrtc_transport \<Rightarrow> ('ssl, 'ss) wt_result \<Rightarrow> bool" where
  "dtls_handled s' w r \<longleftrightarrow>
     (\<exists>w' os. r = Inr (w', os) \<and> same_but_srtp w w' \<and> srtp_inv w' \<and> (w_is_ready w \<longrightarrow> w_is_ready w') \<and>
        (s' = DtlsState.CONNECTED \<longrightarrow> w_is_ready w') \<and> list_all addressed os)"

lemma handle_dtls_event_ok:
  assumes l: "libs_ok l" and w: "srtp_inv w" "w_remote w \<noteq> None" "s = DtlsState.CONNECTED \<longrightarrow> w_is_ready w"
    and p: "dtls_protocol s e s'"
  shows "dtls_handled s' w (handle_dtls_event l e w)"
  using p
proof cases
  case (connected suite k salt lk rk cert)
  then show ?thesis using connected_handler_ok [OF l connected(4,5), of w]
    by (auto simp: dtls_handled_def srtp_inv_def same_but_srtp_def)
qed (use w in \<open>auto simp: dtls_handled_def SendPacket_def same_but_srtp_def\<close>)

lemma handle_dtls_events_ok:
  assumes "trace dtls_protocol s es s'" and l: "libs_ok l"
    and "srtp_inv w" "w_remote w \<noteq> None" "s = DtlsState.CONNECTED \<longrightarrow> w_is_ready w"
  shows "dtls_handled s' w (handle_dtls_events l es w)"
  using assms(1,3-)
proof (induction arbitrary: w rule: trace.induct)
  case (trace_Nil s)
  then show ?case by (auto simp: dtls_handled_def same_but_srtp_def)
next
  case (trace_Cons s e s' es s'')
  obtain w' os where w': "handle_dtls_event l e w = Inr (w', os)" "same_but_srtp w w'" "srtp_inv w'"
    "w_is_ready w \<longrightarrow> w_is_ready w'" "s' = DtlsState.CONNECTED \<longrightarrow> w_is_ready w'" "list_all addressed os"
    using handle_dtls_event_ok [OF l trace_Cons.prems trace_Cons.hyps(1)] by (auto simp: dtls_handled_def)
  then have "w_remote w' \<noteq> None" using trace_Cons.prems(2) by (simp add: same_but_srtp_def)
  from trace_Cons.IH [OF w'(3) this w'(5)] w' show ?case
    by (auto simp: dtls_handled_def same_but_srtp_def)
qed

section \<open>Operations\<close>

definition wt_stepped ::
  "('ssl, 'ss) libs \<Rightarrow> ('ssl, 'ss) webrtc_transport \<Rightarrow> ('ssl, 'ss) wt_result \<Rightarrow> bool" where
  "wt_stepped l w r \<longleftrightarrow>
     (\<exists>w' os. r = Inr (w', os) \<and> wt_inv l w' \<and> w_transport w' = w_transport w \<and> w_rtp_channel w' = w_rtp_channel w \<and>
        GetidentifyID w' = GetidentifyID w \<and> (w_is_ready w \<longrightarrow> w_is_ready w') \<and> (w_remote w \<noteq> None \<longrightarrow> w_remote w' = w_remote w) \<and> list_all addressed os)"

lemma GetidentifyID_updates [simp]:
  "GetidentifyID (w\<lparr>w_stun_buffer := b\<rparr>) = GetidentifyID w" "GetidentifyID (w\<lparr>w_dtls := d\<rparr>) = GetidentifyID w"
  "GetidentifyID (w\<lparr>w_srtp := x\<rparr>) = GetidentifyID w" "GetidentifyID (w\<lparr>w_remote := a\<rparr>) = GetidentifyID w"
  "GetidentifyID (w\<lparr>w_transport := t\<rparr>) = GetidentifyID w"
  "GetidentifyID (w\<lparr>w_ice := ice\<rparr>) = i_usernameFragment ice"
  by (simp_all add: GetidentifyID_def)

lemma receive_dtls_ok:
  assumes l: "libs_ok l" and inv: "wt_inv l w" and len: "len \<le> length buf"
  shows "wt_stepped l w (receive_dtls l buf len w)"
proof (cases "w_remote w = None")
  case True
  then have "\<not> IsRunning (w_dtls w)" using inv by (simp add: wt_inv_def IsRunning_iff)
  then show ?thesis using inv by (simp add: wt_stepped_def receive_dtls_def ProcessDtlsData_def)
next
  case False
  have "ssl_ok (l_ssl l)" "dtls_inv (w_dtls w)" using l inv by (simp_all add: libs_ok_def wt_inv_def)
  then obtain t es where p: "ProcessDtlsData (l_ssl l) buf len (w_dtls w) = Inr (t, es)" "dtls_inv t"
    "told (d_state (w_dtls w)) es (d_state t)" using ProcessDtlsData_ok len by blast
  let ?w = "w\<lparr>w_dtls := t\<rparr>"
  have "srtp_inv ?w" "w_remote ?w \<noteq> None" "d_state (w_dtls w) = DtlsState.CONNECTED \<longrightarrow> w_is_ready ?w"
    using inv False by (simp_all add: wt_inv_def)
  from handle_dtls_events_ok [OF p(3) l this] p(2) inv False show ?thesis
    by (auto simp: wt_stepped_def receive_dtls_def p(1) dtls_handled_def wt_inv_def same_but_srtp_def GetidentifyID_def)
qed

lemma selected_handler_ok:
  assumes l: "libs_ok l" and ice: "ice_inv (l_hmac l, w_ice w, w_stun_buffer w)" "i_state (w_ice w) = COMPLETED"
    and dtls: "dtls_inv (w_dtls w)" "d_state (w_dtls w) = DtlsState.NEW" and srtp: "srtp_inv w"
  shows "wt_stepped l (w\<lparr>w_remote := None\<rparr>) (OnIceServerSelectedTuple_handler l tuple w)"
proof -
  obtain t es where p: "Run (l_ssl l) SERVER (w_dtls w) = Inr (t, es)" "dtls_inv t" "told (d_state (w_dtls w)) es (d_state t)"
    using Run_ok [OF dtls(1)] by blast
  let ?w = "w\<lparr>w_remote := Some tuple, w_dtls := t\<rparr>"
  have "srtp_inv ?w" "w_remote ?w \<noteq> None" "d_state (w_dtls w) = DtlsState.CONNECTED \<longrightarrow> w_is_ready ?w"
    using srtp dtls(2) by simp_all
  from handle_dtls_events_ok [OF p(3) l this] p(2) ice show ?thesis
    by (auto simp: wt_stepped_def OnIceServerSelectedTuple_handler_def p(1) dtls_handled_def wt_inv_def same_but_srtp_def Let_def GetidentifyID_def)
qed

declare handle_ice_event.simps [simp del]

lemma send_stun_ok:
  assumes "hmac_ok lib" "serializable resp" "serialized_size resp \<le> length buffer"
  shows "handle_ice_event l (OnIceServerSendStunPacket (sent lib resp buffer) tuple) w =
    Inr (w, if w_transport w then [SentPacket (enc_message lib resp buffer) (Some tuple)] else [])"
  using length_enc_message(2) [OF assms(2,3,1)] by (simp add: handle_ice_event.simps sent_def SendPacket_def)

lemma wt_stepped_after_send:
  assumes "handle_ice_event l e w1 = Inr (w1, if b then [SentPacket m (Some a)] else [])"
    "wt_stepped l w (handle_ice_events l es w1)"
  shows "wt_stepped l w (handle_ice_events l (e # es) w1)"
  using assms by (auto simp: wt_stepped_def)

lemma wt_stepped_done:
  assumes "wt_inv l w'" "w_transport w' = w_transport w" "w_rtp_channel w' = w_rtp_channel w" "w_is_ready w' = w_is_ready w"
    "w_remote w' = w_remote w" "GetidentifyID w' = GetidentifyID w"
  shows "wt_stepped l w (Inr (w', []))"
  using assms by (simp add: wt_stepped_def)

text \<open>The state of the transport after a decision, before its events are handled.\<close>

lemma ice_effect_state:
  assumes inv: "wt_inv l w" and buf: "length buffer' = StunSerializeBufferSize"
    and e: "ice_effect (l_hmac l) pkt tuple (w_ice w) (w_stun_buffer w) d = (ice', es)"
  shows "ice_inv (l_hmac l, ice', buffer')" "GetidentifyID (w\<lparr>w_ice := ice', w_stun_buffer := buffer'\<rparr>) = GetidentifyID w"
    "i_state ice' = i_state (w_ice w) \<Longrightarrow> wt_stepped l w (handle_ice_events l [] (w\<lparr>w_ice := ice', w_stun_buffer := buffer'\<rparr>))"
proof -
  show i: "ice_inv (l_hmac l, ice', buffer')" using ice_effect_frame [OF e] inv buf by (auto simp: wt_inv_def)
  have "i_usernameFragment ice' = i_usernameFragment (w_ice w)" using ice_effect_frame [OF e] by simp
  then show ID: "GetidentifyID (w\<lparr>w_ice := ice', w_stun_buffer := buffer'\<rparr>) = GetidentifyID w" by (simp add: GetidentifyID_def)
  assume st: "i_state ice' = i_state (w_ice w)"
  show "wt_stepped l w (handle_ice_events l [] (w\<lparr>w_ice := ice', w_stun_buffer := buffer'\<rparr>))"
    unfolding handle_ice_events.simps by (rule wt_stepped_done) (use st inv i ID in \<open>simp_all add: wt_inv_def\<close>)
qed

lemma handle_accept_ok:
  assumes l: "libs_ok l" and inv: "wt_inv l w" and buf: "length buffer' = StunSerializeBufferSize"
    and tid: "length (p_transactionId pkt) = 12"
    and e: "ice_effect (l_hmac l) pkt tuple (w_ice w) (w_stun_buffer w) (Accept current) = (ice', es)"
  shows "wt_stepped l w (handle_ice_events l es (w\<lparr>w_ice := ice', w_stun_buffer := buffer'\<rparr>))"
proof -
  let ?w = "w\<lparr>w_ice := ice', w_stun_buffer := buffer'\<rparr>"
  note state = ice_effect_state [OF inv buf e]
  define pw where "pw = (if current then i_password (w_ice w) else i_oldPassword (w_ice w))"
  let ?send = "OnIceServerSendStunPacket (sent (l_hmac l) (success_response pkt tuple pw) (w_stun_buffer w)) tuple"
  have "hmac_ok (l_hmac l)" "serialized_size (success_response pkt tuple pw) \<le> length (w_stun_buffer w)"
    using inv response_serializable(4) [OF tid, of tuple pw] by (simp_all add: wt_inv_def StunSerializeBufferSize_def)
  note send = wt_stepped_after_send [OF send_stun_ok [OF this(1) response_serializable(3) [OF tid] this(2)]]
  have st: "i_state ice' = COMPLETED" and es: "es = ?send # (if i_state (w_ice w) = COMPLETED then [] else [OnIceServerSelectedTuple tuple])"
    using e by (auto simp: pw_def Let_def drop_old_credentials_def)
  show ?thesis
  proof (cases "i_state (w_ice w) = COMPLETED")
    case True
    then have es': "es = [?send]" using es by simp
    show ?thesis unfolding es' by (rule send, rule state(3)) (simp add: True st)
  next
    case False
    then have n: "w_remote w = None" "d_state (w_dtls w) = DtlsState.NEW" using inv by (auto simp: wt_inv_def)
    have "wt_stepped l (?w\<lparr>w_remote := None\<rparr>) (OnIceServerSelectedTuple_handler l tuple ?w)"
      by (rule selected_handler_ok [OF l]) (use state(1) st inv n in \<open>simp_all add: wt_inv_def\<close>)
    then have "wt_stepped l w (handle_ice_events l [OnIceServerSelectedTuple tuple] ?w)"
      using n state(2) by (auto simp: wt_stepped_def handle_ice_event.simps)
    then show ?thesis unfolding es using False by (simp only: if_False) (rule send)
  qed
qed

text \<open>The events of a decision, handled by the transport whose ICE server made it.\<close>

lemma handle_ice_effect_ok:
  assumes l: "libs_ok l" and inv: "wt_inv l w" and buf: "length buffer' = StunSerializeBufferSize"
    and tid: "length (p_transactionId pkt) = 12"
    and e: "ice_effect (l_hmac l) pkt tuple (w_ice w) (w_stun_buffer w) d = (ice', es)"
  shows "wt_stepped l w (handle_ice_events l es (w\<lparr>w_ice := ice', w_stun_buffer := buffer'\<rparr>))"
proof (cases d)
  case Ignore
  then show ?thesis using e ice_effect_state(3) [OF inv buf e] by auto
next
  case (Reject code)
  have "hmac_ok (l_hmac l)" "serialized_size (error_response pkt code) \<le> length (w_stun_buffer w)"
    using inv response_serializable(2) [OF tid, of code] by (simp_all add: wt_inv_def StunSerializeBufferSize_def)
  note send = wt_stepped_after_send [OF send_stun_ok [OF this(1) response_serializable(1) [OF tid] this(2)]]
  have "ice' = w_ice w" and es: "es = [OnIceServerSendStunPacket (sent (l_hmac l) (error_response pkt code) (w_stun_buffer w)) tuple]"
    using Reject e by auto
  show ?thesis unfolding es by (rule send, rule ice_effect_state(3) [OF inv buf e]) (simp add: \<open>ice' = w_ice w\<close>)
next
  case (Accept current)
  show ?thesis by (rule handle_accept_ok [OF l inv buf tid e [unfolded Accept]])
qed

lemma receive_stun_ok:
  assumes l: "libs_ok l" and inv: "wt_inv l w" and len: "len \<le> length buf" "len < 65536"
  shows "wt_stepped l w (receive_stun l buf len tuple w)"
proof -
  obtain r where r: "Parse buf len = Inr r" using Parse_total [OF len] by blast
  show ?thesis
  proof (cases r)
    case None
    then show ?thesis using inv by (simp add: receive_stun_def r wt_stepped_def)
  next
    case (Some pkt)
    have pkt: "parsed_packet buf len pkt" using Parse_parsed r Some len by blast
    then have tid: "length (p_transactionId pkt) = 12" using len(1) by (auto simp: parsed_packet_def header_ok_def)
    obtain ice' es where e: "ice_effect (l_hmac l) pkt tuple (w_ice w) (w_stun_buffer w) (ice_decide (l_hmac l) (w_ice w) pkt) = (ice', es)"
      by fastforce
    obtain buffer' where b: "length buffer' = StunSerializeBufferSize"
      "ProcessStunPacket (l_hmac l) pkt tuple (w_ice w, w_stun_buffer w) = Inr ((ice', buffer'), es)"
      using ProcessStunPacket_eq [OF pkt len(1), of "l_hmac l" "w_ice w" "w_stun_buffer w" tuple] inv
      by (auto simp: e wt_inv_def)
    from handle_ice_effect_ok [OF l inv b(1) tid e] show ?thesis by (simp add: receive_stun_def r Some b(2))
  qed
qed

lemma receive_rtp_ok:
  assumes l: "libs_ok l" and inv: "wt_inv l w" and len: "len \<le> length buf" and ch: "w_rtp_channel w \<longrightarrow> w_is_ready w"
  shows "wt_stepped l w (receive_rtp l buf len w)"
proof (cases "w_rtp_channel w")
  case False
  then show ?thesis using inv by (simp add: receive_rtp_def wt_stepped_def)
next
  case True
  with ch inv obtain s where s: "w_srtp w = Some s" "session_ok s" by (auto simp: wt_inv_def srtp_inv_def split: option.splits)
  have "srtp_call_ok 25 len (srtp_unprotect (l_srtp l) ss b len) b" for ss b using l by (simp add: libs_ok_def srtp_ok_def)
  then obtain r buf' len' s' where d: "DecryptSrtp (l_srtp l) (l_log l) buf len s = Inr ((r, buf', len'), s')" "session_ok s'"
    "length buf' = length buf" "len' \<le> len" unfolding DecryptSrtp_def using decrypt_with_ok s(2) by metis
  have "wt_inv l (w\<lparr>w_srtp := Some s'\<rparr>)" using inv ch True d(2) by (auto simp: wt_inv_def srtp_inv_def)
  then show ?thesis using True s d len by (simp add: receive_rtp_def wt_stepped_def)
qed

section \<open>Demultiplexing\<close>

lemma classifiers_total:
  assumes "len \<le> length buf"
  shows "\<exists>b. IsStun buf len = Inr b" "\<exists>b. IsDtls buf len = Inr b" "\<exists>b. IsRtcpPacket buf len = Inr b" "\<exists>b. IsRtpPacket buf len = Inr b"
  using assms
  by (auto simp: IsStun_def IsDtls_def IsRtcpPacket_def IsRtpPacket_def HasCorrectRtpVersion_def kMinRtcpPacketLen_def
      kMinRtpPacketLen_def rd_def)

lemma version_2_range: "drop_bit 6 (b :: byte) = 2 \<Longrightarrow> 128 \<le> b \<and> b < 192"
proof -
  assume "drop_bit 6 b = 2"
  from arg_cong [OF this, of unat] have "unat b div 64 = 2" by (simp add: drop_bit_eq_div unat_div_distrib)
  then show ?thesis by (simp add: word_le_nat_alt word_less_nat_alt) presburger
qed

lemma first_byte:
  assumes "len \<le> length buf"
  shows "IsStun buf len = Inr True \<Longrightarrow> buf ! 0 < 3"
    and "IsDtls buf len = Inr True \<Longrightarrow> 19 < buf ! 0 \<and> buf ! 0 < 64"
    and "IsRtcpPacket buf len = Inr True \<Longrightarrow> 128 \<le> buf ! 0 \<and> buf ! 0 < 192"
    and "IsRtpPacket buf len = Inr True \<Longrightarrow> 128 \<le> buf ! 0 \<and> buf ! 0 < 192"
    and "IsRtcpPacket buf len = Inr True \<Longrightarrow> IsRtpPacket buf len \<noteq> Inr True"
  using assms version_2_range [of "buf ! 0"]
  by (auto simp: IsStun_def IsDtls_def IsRtcpPacket_def IsRtpPacket_def HasCorrectRtpVersion_def kRtpVersion_def
      kMinRtcpPacketLen_def kMinRtpPacketLen_def rd_def split: if_splits)

text \<open>RTP for a transport with a channel but without keys yet.\<close>

lemma early_rtp_faults:
  assumes "len \<le> length buf" and "IsRtpPacket buf len = Inr True" and "w_rtp_channel w" and "w_srtp w = None"
  shows "OnInputDataPacket l buf len tuple w = Inl NullDeref"
proof -
  obtain b1 b2 b3 where b: "IsStun buf len = Inr b1" "IsDtls buf len = Inr b2" "IsRtcpPacket buf len = Inr b3"
    using classifiers_total [OF assms(1)] by blast
  have r: "128 \<le> buf ! 0" using first_byte(4) [OF assms(1,2)] by simp
  have "\<not> b1" "\<not> b2" using first_byte(1,2) [OF assms(1)] b r by (auto simp: word_less_nat_alt word_le_nat_alt)
  moreover have "\<not> b3" using first_byte(5) [OF assms(1)] b assms(2) by auto
  ultimately show ?thesis using assms b by (simp add: OnInputDataPacket_def receive_rtp_def)
qed

lemma OnInputDataPacket_ok:
  assumes "libs_ok l" "wt_inv l w" "len \<le> length buf" "len < 65536" "w_rtp_channel w \<longrightarrow> w_is_ready w"
  shows "wt_stepped l w (OnInputDataPacket l buf len tuple w)"
proof -
  obtain b1 b2 b3 b4 where b: "IsStun buf len = Inr b1" "IsDtls buf len = Inr b2" "IsRtcpPacket buf len = Inr b3" "IsRtpPacket buf len = Inr b4"
    using classifiers_total [OF assms(3)] by blast
  have "wt_stepped l w (Inr (w, []))" using assms(2) by (simp add: wt_stepped_def)
  with assms receive_stun_ok receive_dtls_ok receive_rtp_ok show ?thesis
    by (cases b1; cases b2; cases b3; cases b4) (simp_all add: OnInputDataPacket_def b)
qed

lemma encrypt_with_failed:
  "encrypt_with protect log data len s = Inr ((False, data', len'), s') \<Longrightarrow>
   \<exists>ss buf. fst (protect ss buf len) \<noteq> 0 \<and> snd (snd (snd (protect ss buf len))) = len'"
  by (auto simp: encrypt_with_def IsError_def Let_def split_beta split: option.splits if_splits) (metis neq0_conv)

lemma EncryptRtp_ok:
  assumes l: "libs_ok l" and s: "session_ok s" and len: "len \<le> length data"
  shows "\<exists>r data' len' s'. EncryptRtp (l_srtp l) log data len s = Inr ((r, data', len'), s') \<and> session_ok s' \<and>
    len' \<le> length data' \<and> (\<not> r \<longrightarrow> data' = data \<and> len' = len)"
proof (cases "\<not> ss_is_init s \<or> len + SRTP_MAX_TRAILER_LEN (l_srtp l) > kEncryptBufferSize")
  case True
  then show ?thesis using s len by (auto simp: EncryptRtp_def)
next
  case False
  have "srtp_call_ok 25 (len + SRTP_MAX_TRAILER_LEN (l_srtp l)) (srtp_protect (l_srtp l) ss buf len) buf" for ss buf
    using l by (simp add: libs_ok_def srtp_ok_def)
  then obtain r data' len' s' where e: "encrypt_with (srtp_protect (l_srtp l)) log data len s = Inr ((r, data', len'), s')"
    "session_ok s'" "if r then data' = ss_encrypt_buffer s' \<and> len' \<le> length data' else data' = data"
    using encrypt_with_ok [OF _ s len, where trailer = "SRTP_MAX_TRAILER_LEN (l_srtp l)"] False by (metis not_less)
  moreover have "len' = len" if "\<not> r"
    using encrypt_with_failed [of "srtp_protect (l_srtp l)" log data len s data' len' s'] e(1) that l
    by (auto simp: libs_ok_def srtp_setup_ok_def)
  ultimately show ?thesis using False len by (cases r) (auto simp: EncryptRtp_def)
qed

lemma EncryptAndSend_ok:
  assumes l: "libs_ok l" and inv: "wt_inv l w" and len: "len \<le> length data"
  shows "\<exists>w' os. EncryptAndSendRtpPacket l data len w = Inr (w', os) \<and> wt_inv l w' \<and> w_transport w' = w_transport w \<and>
    w_rtp_channel w' = w_rtp_channel w \<and> w_is_ready w' = w_is_ready w \<and> w_remote w' = w_remote w \<and>
    GetidentifyID w' = GetidentifyID w"
proof (cases "w_is_ready w")
  case False
  then show ?thesis using inv len by (simp add: EncryptAndSendRtpPacket_def SendPacket_def)
next
  case True
  then obtain s where s: "w_srtp w = Some s" "session_ok s" using inv by (auto simp: wt_inv_def srtp_inv_def split: option.splits)
  obtain r data' len' s' where e: "EncryptRtp (l_srtp l) (l_log l) data len s = Inr ((r, data', len'), s')" "session_ok s'"
    "len' \<le> length data'" using EncryptRtp_ok [OF l s(2) len] by metis
  have "wt_inv l (w\<lparr>w_srtp := Some s'\<rparr>)" using inv True e(2) by (auto simp: wt_inv_def srtp_inv_def)
  then show ?thesis using True s e by (simp add: EncryptAndSendRtpPacket_def SendPacket_def)
qed

section \<open>The transport as a machine\<close>

datatype wt_op =
    Receive bytes nat TransportTuple
  | Send_media bytes nat
  | Attach_network

fun wt_step :: "('ssl, 'ss) libs \<Rightarrow> (wt_op, ('ssl, 'ss) webrtc_transport, wt_output) stepper" where
  "wt_step l (Receive buf len tuple) w = OnInputDataPacket l buf len tuple w"
| "wt_step l (Send_media data len) w = EncryptAndSendRtpPacket l data len w"
| "wt_step l Attach_network w = Ok (SetNetworkTransport w, [])"

text \<open>Datagrams are shorter than 65536 bytes; the receive buffers have 4096.\<close>

fun wt_good_op :: "wt_op \<Rightarrow> bool" where
  "wt_good_op (Receive buf len tuple) \<longleftrightarrow> len \<le> length buf \<and> len < 65536"
| "wt_good_op (Send_media data len) \<longleftrightarrow> len \<le> length data"
| "wt_good_op Attach_network \<longleftrightarrow> True"

lemma wt_step_ok:
  assumes l: "libs_ok l" and w: "wt_inv l w" "w_rtp_channel w \<longrightarrow> w_is_ready w" and x: "wt_good_op x"
  shows "\<exists>w' os. wt_step l x w = Inr (w', os) \<and> wt_inv l w' \<and> w_rtp_channel w' = w_rtp_channel w \<and> (w_is_ready w \<longrightarrow> w_is_ready w')"
proof (cases x)
  case (Receive buf len tuple)
  then show ?thesis using OnInputDataPacket_ok [OF l w(1) _ _ w(2), of len buf tuple] x by (auto simp: wt_stepped_def)
next
  case (Send_media data len)
  then show ?thesis using EncryptAndSend_ok [OF l w(1)] x by fastforce
next
  case Attach_network
  then show ?thesis using w by (auto simp: SetNetworkTransport_def wt_inv_def)
qed

interpretation wt: safe_machine "wt_step l" wt_good_op
  "\<lambda>w. libs_ok l \<and> wt_inv l w \<and> (w_rtp_channel w \<longrightarrow> w_is_ready w)" for l :: "('ssl, 'ss) libs"
  by unfold_locales (use wt_step_ok in fastforce)+

lemma new_WebRtcTransport_inv:
  assumes "new_WebRtcTransport l buffer order ip port seed = Inr (w, seed')" "libs_ok l" "length buffer = StunSerializeBufferSize"
  shows "wt_inv l w \<and> \<not> w_rtp_channel w"
proof -
  obtain t where t: "new_DtlsTransport (l_ssl l) = Inr t" using assms(1) by (auto simp: new_WebRtcTransport_def)
  note new_DtlsTransport_inv [OF t]
  with assms t show ?thesis
    by (auto simp: new_WebRtcTransport_def wt_inv_def srtp_inv_def new_IceServer_def libs_ok_def Let_def split_beta)
qed

section \<open>A peer that knows the credentials\<close>

lemma accepted_request_comes_up:
  assumes "libs_ok l" and "wt_inv l w" and "len \<le> length buf" and "len < 65536" and "IsStun buf len = Inr True"
    and "Parse buf len = Inr (Some pkt)" and "ice_decide (l_hmac l) (w_ice w) pkt = Accept current" and "w_remote w = None"
    and "w_transport w"
  shows "\<exists>w' reply. OnInputDataPacket l buf len tuple w = Inr (w', [SentPacket reply (Some tuple)]) \<and> wt_inv l w' \<and>
    w_remote w' = Some tuple \<and> d_state (w_dtls w') = CONNECTING \<and> d_localRole (w_dtls w') = SERVER"
proof -
  have pkt: "parsed_packet buf len pkt" using Parse_parsed assms(3,4,6) by blast
  then have tid: "length (p_transactionId pkt) = 12" using assms(3) by (auto simp: parsed_packet_def header_ok_def)
  define pw where "pw = (if current then i_password (w_ice w) else i_oldPassword (w_ice w))"
  let ?r = "success_response pkt tuple pw"
  obtain ice' es where e: "ice_effect (l_hmac l) pkt tuple (w_ice w) (w_stun_buffer w) (Accept current) = (ice', es)" by fastforce
  obtain b where b: "ProcessStunPacket (l_hmac l) pkt tuple (w_ice w, w_stun_buffer w) = Inr ((ice', b), es)"
  proof -
    have "hmac_ok (l_hmac l)" "i_listener (w_ice w)" "length (w_stun_buffer w) = StunSerializeBufferSize"
      using assms(2) by (simp_all add: wt_inv_def)
    from ProcessStunPacket_eq [OF pkt assms(3) this, of tuple] show thesis using that unfolding assms(7) e by auto
  qed
  have "i_state (w_ice w) \<noteq> COMPLETED" using assms(2,8) by (auto simp: wt_inv_def)
  then have es: "es = [OnIceServerSendStunPacket (sent (l_hmac l) ?r (w_stun_buffer w)) tuple, OnIceServerSelectedTuple tuple]"
    using e by (auto simp: pw_def Let_def drop_old_credentials_def)
  let ?w = "w\<lparr>w_ice := ice', w_stun_buffer := b\<rparr>"
  have "hmac_ok (l_hmac l)" "serialized_size ?r \<le> length (w_stun_buffer w)"
    using assms(2) response_serializable(4) [OF tid, of tuple pw] by (auto simp: wt_inv_def StunSerializeBufferSize_def)
  note send = send_stun_ok [OF this(1) response_serializable(3) [OF tid] this(2), of l tuple ?w]
  have d: "d_localRole (w_dtls w) = Role.NONE" "d_state (w_dtls w) = DtlsState.NEW"
    using assms(2,8) by (auto simp: wt_inv_def dtls_inv_def IsRunning_iff)
  then have run: "\<exists>t. Run (l_ssl l) SERVER (w_dtls w) = Inr (t, [OnDtlsTransportConnecting]) \<and> d_state t = CONNECTING \<and> d_localRole t = SERVER"
    by (simp add: Run_def Let_def)
  then obtain t where t: "Run (l_ssl l) SERVER (w_dtls w) = Inr (t, [OnDtlsTransportConnecting])" "d_state t = CONNECTING"
    "d_localRole t = SERVER" by blast
  have eq: "OnInputDataPacket l buf len tuple w = Inr (?w\<lparr>w_remote := Some tuple, w_dtls := t\<rparr>,
      [SentPacket (enc_message (l_hmac l) ?r (w_stun_buffer w)) (Some tuple)])"
    using assms(5,6,9) b send t(1)
    by (simp add: OnInputDataPacket_def receive_stun_def es handle_ice_event.simps(2) OnIceServerSelectedTuple_handler_def del: rbind_eq_Inr)
  moreover have "wt_inv l (?w\<lparr>w_remote := Some tuple, w_dtls := t\<rparr>)"
    using receive_stun_ok [OF assms(1-4), of tuple] eq assms(5) by (auto simp: OnInputDataPacket_def wt_stepped_def)
  ultimately show ?thesis using t by simp
qed

lemma Parse_IsStun: "Parse data len = Inr (Some pkt) \<Longrightarrow> IsStun data len = Inr True"
  by (auto simp: Parse_def split: if_splits)

text \<open>A connectivity check: a Binding request for the username fragment, under the password.\<close>

definition connectivity_check :: "('ssl, 'ss) webrtc_transport \<Rightarrow> stun_packet \<Rightarrow> bool" where
  "connectivity_check w pkt \<longleftrightarrow>
     serializable pkt \<and> serialized_size pkt \<le> 65532 \<and> p_klass pkt = REQUEST \<and> p_method pkt = BINDING \<and> p_errorCode pkt = 0 \<and>
     p_priority pkt \<noteq> 0 \<and> p_password pkt = i_password (w_ice w) \<and> i_password (w_ice w) \<noteq> [] \<and>
     (\<exists>rest. p_username pkt = i_usernameFragment (w_ice w) @ str '':'' @ rest)"

lemma connectivity_check_accepted:
  assumes c: "connectivity_check w pkt" and room: "serialized_size pkt \<le> length buffer" and lib: "hmac_ok lib"
  shows "\<exists>pkt' data. Serialize lib pkt buffer = Inr pkt' \<and> p_data pkt' = Some data \<and> p_size pkt' = serialized_size pkt \<and>
    serialized_size pkt \<le> length data \<and> Parse data (p_size pkt') = Inr (Some (reparsed pkt')) \<and>
    ice_decide lib (w_ice w) (reparsed pkt') = Accept True"
proof -
  obtain rest where user: "p_username pkt = i_usernameFragment (w_ice w) @ str '':'' @ rest" using c by (auto simp: connectivity_check_def)
  have s: "serializable pkt" "serialized_size pkt \<le> 65532" "p_method pkt < 128" "p_errorCode pkt < 25600" "p_klass pkt = REQUEST \<or> p_klass pkt = INDICATION"
    "p_password pkt \<noteq> []" using c by (auto simp: connectivity_check_def BINDING_def)
  obtain pkt' data msg where a: "Serialize lib pkt buffer = Inr pkt'" "p_data pkt' = Some data"
    "Parse data (p_size pkt') = Inr (Some (reparsed pkt'))"
    "\<forall>password. CheckAuthentication lib (reparsed pkt') (i_usernameFragment (w_ice w)) password =
      Inr (if hmac_digest lib (p_password pkt) msg = hmac_digest lib password msg then AUTH_OK else UNAUTHORIZED, reparsed pkt')"
    using CheckAuthentication_Serialize [OF s(1) room lib s(2-6) user] by blast
  have p: "pkt' = pkt\<lparr>p_size := serialized_size pkt, p_data := Some data,
      p_messageIntegrity := (if addMessageIntegrity pkt then Some (length (enc_attributes pkt buffer) + 24) else None), p_hasFingerprint := True\<rparr>"
    and d: "data = enc_message lib pkt buffer @ drop (serialized_size pkt) buffer"
    using Serialize_eq [OF s(1) room lib] a(1,2) by auto
  have "authenticates lib (reparsed pkt') (i_usernameFragment (w_ice w)) (i_password (w_ice w))"
    using a(4) c by (simp add: authenticates_def connectivity_check_def)
  moreover have "addMessageIntegrity pkt" using c s(6) by (auto simp: addMessageIntegrity_def connectivity_check_def)
  then have "p_klass (reparsed pkt') = REQUEST" "p_method (reparsed pkt') = BINDING" "p_hasFingerprint (reparsed pkt')"
    "p_messageIntegrity (reparsed pkt') \<noteq> None" "p_priority (reparsed pkt') \<noteq> 0" "p_username (reparsed pkt') \<noteq> []"
    using c user by (simp_all add: reparsed_def p connectivity_check_def str_def)
  ultimately have "ice_decide lib (w_ice w) (reparsed pkt') = Accept True" by (simp add: ice_decide_def)
  then show ?thesis using a length_enc_message(2) [OF s(1) room lib] by (auto simp: p d)
qed

section \<open>Concrete libraries\<close>

definition example_libs :: "(nat, unit) libs" where
  "example_libs = \<lparr>l_hmac = example_hmac, l_ssl = example_ssl, l_srtp = example_srtp, l_log = True,
     l_buffer = replicate kEncryptBufferSize 0\<rparr>"

definition example_wt :: "(nat, unit) webrtc_transport" where
  "example_wt = \<lparr>w_ice = example_ice, w_stun_buffer = replicate StunSerializeBufferSize 0, w_dtls = example_transport,
     w_srtp = None, w_transport = True, w_rtp_channel = False, w_is_ready = False, w_ip = str ''127.0.0.1'', w_port = 10000,
     w_remote = None\<rparr>"

lemma example_libs_ok: "libs_ok example_libs"
  using example_hmac_ok example_ssl_ok example_srtp_ok
  by (simp add: libs_ok_def example_libs_def srtp_setup_ok_def example_srtp_def)

lemma example_wt_inv: "wt_inv example_libs example_wt"
  using example_hmac_ok new_DtlsTransport_inv [OF new_example_transport]
  by (simp add: wt_inv_def srtp_inv_def example_libs_def example_wt_def example_ice_def new_IceServer_def)

section \<open>Properties\<close>







text \<open>A transport comes up for every peer that knows its credentials: a serialized connectivity check under the
  transport's username fragment and password, sent to a transport that has no peer yet, is answered to its source;
  the source becomes the peer, and DTLS runs as a server and is connecting.\<close>

theorem transport_comes_up:
  assumes "libs_ok l" and "wt_inv l w" and "w_remote w = None" and "w_transport w"
    and "connectivity_check w pkt" and "serialized_size pkt \<le> length buffer"
  shows "\<exists>pkt' data w' reply. Serialize (l_hmac l) pkt buffer = Inr pkt' \<and> p_data pkt' = Some data \<and>
    OnInputDataPacket l data (p_size pkt') tuple w = Inr (w', [SentPacket reply (Some tuple)]) \<and> wt_inv l w' \<and>
    w_remote w' = Some tuple \<and> d_state (w_dtls w') = CONNECTING \<and> d_localRole (w_dtls w') = SERVER"
proof -
  have "hmac_ok (l_hmac l)" using assms(1) by (simp add: libs_ok_def)
  then obtain pkt' data where p: "Serialize (l_hmac l) pkt buffer = Inr pkt'" "p_data pkt' = Some data" "p_size pkt' = serialized_size pkt"
    "serialized_size pkt \<le> length data" "Parse data (p_size pkt') = Inr (Some (reparsed pkt'))"
    "ice_decide (l_hmac l) (w_ice w) (reparsed pkt') = Accept True"
    using connectivity_check_accepted [OF assms(5,6)] by blast
  have "p_size pkt' \<le> length data" "p_size pkt' < 65536" using p(3,4) assms(5) by (auto simp: connectivity_check_def)
  from accepted_request_comes_up [OF assms(1,2) this Parse_IsStun [OF p(5)] p(5,6) assms(3,4), of tuple] p(1,2)
  show ?thesis by blast
qed

theorem transport_comes_up_witness:
  "\<exists>pkt' data w' reply. Serialize example_hmac example_check (replicate 100 0) = Inr pkt' \<and> p_data pkt' = Some data \<and>
    OnInputDataPacket example_libs data (p_size pkt') (AF_INET 5000 1) example_wt = Inr (w', [SentPacket reply (Some (AF_INET 5000 1))]) \<and>
    wt_inv example_libs w' \<and> w_remote w' = Some (AF_INET 5000 1) \<and> d_state (w_dtls w') = CONNECTING \<and> d_localRole (w_dtls w') = SERVER"
proof -
  have "connectivity_check example_wt example_check"
    using example_check_ok example_check_size
    by (auto simp: connectivity_check_def example_wt_def example_ice_def new_IceServer_def example_check_def new_StunPacket_def str_def)
  from transport_comes_up [OF example_libs_ok example_wt_inv _ _ this, of "replicate 100 0" "AF_INET 5000 1"] show ?thesis
    by (simp add: example_wt_def example_libs_def example_check_size)
qed

section \<open>Session descriptions\<close>

lemma length_decimal_digits: "n < 10 ^ k \<Longrightarrow> 0 < k \<Longrightarrow> length (decimal_digits n) \<le> k"
proof (induction n arbitrary: k rule: decimal_digits.induct)
  case (1 n)
  show ?case
  proof (cases "n < 10")
    case True
    then show ?thesis using "1.prems" by (subst decimal_digits.simps) simp
  next
    case False
    then obtain j where k: "k = Suc j" "0 < j" using "1.prems" by (cases k; cases "k - 1") auto
    then have "n div 10 < 10 ^ j" using "1.prems"(1) by (simp add: less_mult_imp_div_less mult.commute)
    then show ?thesis using "1.IH" [OF False _ k(2)] False k(1) by (subst decimal_digits.simps) simp
  qed
qed

lemma length_cstr: "length (cstr s) \<le> length s"
  by (simp add: cstr_def length_takeWhile_le)

lemma length_find_sha256: "\<forall>f \<in> set fps. length (fp_value f) \<le> n \<Longrightarrow> length (find_sha256 fps) \<le> n"
  by (induction fps) auto

lemma random_string_length: "length (fst (GetRandomString len seed)) = min len 64"
  using random_fill_ok [of "if len > 64 then 64 else len" seed]
  by (simp add: GetRandomString_def min_def)

lemma new_WebRtcTransport_credentials:
  assumes "new_WebRtcTransport l buffer order ip port seed = Inr (w, seed')"
  shows "length (i_usernameFragment (w_ice w)) = 4" "length (i_password (w_ice w)) = 24" "w_ip w = ip"
  using assms random_string_length
  by (auto simp: new_WebRtcTransport_def new_credentials_def new_IceServer_def Let_def split_beta split: if_splits)

lemma sdp_length:
  assumes "length (i_usernameFragment (w_ice w)) \<le> 64" and "length (i_password (w_ice w)) \<le> 64"
    and "\<forall>f \<in> set fps. length (fp_value f) \<le> 192"
  shows "(length (w_ip w) \<le> 3000 \<longrightarrow> (\<exists>t. GetLocalSdp fps w = Inr t) \<and> (\<exists>t. GetPublishSdp fps w = Inr t)) \<and>
    (length (cstr (w_ip w)) \<ge> 3500 \<longrightarrow> GetLocalSdp fps w = Inl OutOfBounds \<and> GetPublishSdp fps w = Inl OutOfBounds)"
proof -
  have d: "length (decimal_digits (unat (w_port w))) \<le> 5" "length (decimal_digits 12345678) \<le> 8"
    using unat_u16_less [of "w_port w"] by (auto intro!: length_decimal_digits)
  have f: "length (cstr (GetSHA256Fingerprint fps)) \<le> 192" "length (cstr (i_usernameFragment (w_ice w))) \<le> 64"
    "length (cstr (i_password (w_ice w))) \<le> 64" "length (cstr (w_ip w)) \<le> length (w_ip w)"
    using length_find_sha256 [OF assms(3)] assms(1,2) length_cstr le_trans unfolding GetSHA256Fingerprint_def by blast+
  have c: "length (candidate_line w) \<le> 60 + length (cstr (w_ip w))" "length (cstr (w_ip w)) \<le> length (candidate_line w)"
    using d by (simp_all add: candidate_line_def str_def crlf_def)
  have i: "length (ice_lines fps w) \<le> 520" using f by (simp add: ice_lines_def str_def crlf_def)
  have h: "length (sdp_head dir w) \<le> 220 + length dir + 2 * length (cstr (w_ip w))" "2 * length (cstr (w_ip w)) \<le> length (sdp_head dir w)" for dir
    by (simp_all add: sdp_head_def str_def crlf_def)
  have s: "length ssrc_lines \<le> 200" using d by (simp add: ssrc_lines_def str_def crlf_def)
  show ?thesis
  proof (intro conjI impI)
    assume "length (w_ip w) \<le> 3000"
    then have "length (cstr (w_ip w)) \<le> 3000" using f(4) by simp
    then show "\<exists>t. GetLocalSdp fps w = Inr t" "\<exists>t. GetPublishSdp fps w = Inr t"
      using c i s h(1) [of "''sendonly''"] h(1) [of "''recvonly''"] by (simp_all add: GetLocalSdp_def GetPublishSdp_def sdp_buffer_def)
  next
    assume "length (cstr (w_ip w)) \<ge> 3500"
    then show "GetLocalSdp fps w = Inl OutOfBounds" "GetPublishSdp fps w = Inl OutOfBounds"
      using c(2) h(2) [of "''sendonly''"] h(2) [of "''recvonly''"] by (simp_all add: GetLocalSdp_def GetPublishSdp_def sdp_buffer_def)
  qed
qed

end
