(* ===== verification/Session.thy ===== *)
theory Session
  imports TransportProofs "HOL-Library.List_Lexorder"
begin

text \<open>
  The server around the transports: \<open>WebRTCSession\<close>, \<open>WebRTCSessionFactory\<close>, \<open>NetworkTransport\<close>
  (session/webrtc_session.h, session/webrtc_session.cc), \<open>UdpServer\<close> and \<open>UdpConnection\<close> (net/).

  A \<open>std::map\<close> keyed by strings is an association list in ascending order of the keys (the order of the
  bytes as unsigned values, as \<open>char_traits\<close> compares). Sessions and connections are shared objects; they
  are numbered and kept in lists, and the maps, members and callbacks hold numbers. The muduo library is a
  parameter: the text form of an address and the choice of the next event loop. A task handed to the event
  loop of a session is emitted; running it is an operation of its own. Socket calls of the connections
  (bind, connect, reuse options) have no effect on the model.
\<close>

section \<open>Ordered maps\<close>

text \<open>\<open>std::map::insert\<close> keeps an entry that is there; \<open>operator[]\<close> with an assignment replaces it.\<close>

fun map_insert :: "'k::linorder \<Rightarrow> 'v \<Rightarrow> ('k \<times> 'v) list \<Rightarrow> ('k \<times> 'v) list" where
  "map_insert k v [] = [(k, v)]"
| "map_insert k v ((k', v') # m) =
     (if k < k' then (k, v) # (k', v') # m else if k = k' then (k', v') # m else (k', v') # map_insert k v m)"

fun map_assign :: "'k::linorder \<Rightarrow> 'v \<Rightarrow> ('k \<times> 'v) list \<Rightarrow> ('k \<times> 'v) list" where
  "map_assign k v [] = [(k, v)]"
| "map_assign k v ((k', v') # m) =
     (if k < k' then (k, v) # (k', v') # m else if k = k' then (k, v) # m else (k', v') # map_assign k v m)"

definition map_ok :: "('k::linorder \<times> 'v) list \<Rightarrow> bool" where
  "map_ok m \<longleftrightarrow> sorted_wrt (<) (map fst m)"

text \<open>What both stores promise: a stored key is found, other keys are not touched, and the order is kept.\<close>

locale keyed_store =
  fixes find :: "'m \<Rightarrow> 'k \<Rightarrow> 'v option"
    and store :: "'k \<Rightarrow> 'v \<Rightarrow> 'm \<Rightarrow> 'm"
    and ok :: "'m \<Rightarrow> bool"
  assumes find_fresh: "ok m \<Longrightarrow> find m k = None \<Longrightarrow> find (store k v m) k = Some v"
    and find_other: "ok m \<Longrightarrow> k \<noteq> k' \<Longrightarrow> find (store k v m) k' = find m k'"
    and ok_store: "ok m \<Longrightarrow> ok (store k v m)"
begin

lemma store_keeps: "ok m \<Longrightarrow> find m k = None \<Longrightarrow> find m k' = Some v' \<Longrightarrow> find (store k v m) k' = Some v'"
  by (cases "k = k'") (simp_all add: find_other)

lemma stored_iff: "ok m \<Longrightarrow> find m k = None \<Longrightarrow> find (store k v m) k' = (if k' = k then Some v else find m k')"
  by (simp add: find_fresh find_other)

lemma stored_inj:
  assumes "ok m" "find m k = None" "\<forall>k v. find m k = Some v \<longrightarrow> v \<in> V" "v \<notin> V"
    and "\<forall>k1 k2 x. find m k1 = Some x \<longrightarrow> find m k2 = Some x \<longrightarrow> k1 = k2"
  shows "find (store k v m) k1 = Some x \<Longrightarrow> find (store k v m) k2 = Some x \<Longrightarrow> k1 = k2"
  using assms by (auto simp: stored_iff split: if_splits)

end

lemma map_of_smaller: "map_ok ((k', v') # m) \<Longrightarrow> k < k' \<Longrightarrow> map_of m k = None"
  by (induction m) (auto simp: map_ok_def)

lemma set_map_insert: "fst ` set (map_insert k v m) = insert k (fst ` set m)"
  by (induction k v m rule: map_insert.induct) auto

lemma set_map_assign: "fst ` set (map_assign k v m) = insert k (fst ` set m)"
  by (induction k v m rule: map_assign.induct) auto

lemma map_ok_Cons: "map_ok ((k, v) # m) \<longleftrightarrow> map_ok m \<and> (\<forall>k' \<in> fst ` set m. k < k')"
  by (auto simp: map_ok_def)

lemma map_ok_insert: "map_ok m \<Longrightarrow> map_ok (map_insert k v m)"
  by (induction k v m rule: map_insert.induct) (auto simp: map_ok_Cons set_map_insert map_ok_def [of "[]"])

lemma map_ok_assign: "map_ok m \<Longrightarrow> map_ok (map_assign k v m)"
  by (induction k v m rule: map_assign.induct) (auto simp: map_ok_Cons set_map_assign map_ok_def [of "[]"])

lemma map_of_insert: "map_ok m \<Longrightarrow> map_of (map_insert k v m) k' = (if k' = k \<and> map_of m k = None then Some v else map_of m k')"
  by (induction k v m rule: map_insert.induct) (auto simp: map_ok_Cons dest: map_of_smaller [rotated])

lemma map_of_assign: "map_ok m \<Longrightarrow> map_of (map_assign k v m) k' = (if k' = k then Some v else map_of m k')"
  by (induction k v m rule: map_assign.induct) (auto simp: map_ok_Cons)

interpretation sessions: keyed_store map_of map_insert "map_ok :: (bytes \<times> nat) list \<Rightarrow> bool"
  by unfold_locales (auto simp: map_of_insert map_ok_insert)

interpretation connections: keyed_store map_of map_assign "map_ok :: (bytes \<times> nat) list \<Rightarrow> bool"
  by unfold_locales (auto simp: map_of_assign map_ok_assign)

section \<open>Splitting strings\<close>

text \<open>\<open>std::string::find\<close>: the first position at or after \<open>pos\<close> where \<open>d\<close> occurs.\<close>

function string_find :: "bytes \<Rightarrow> bytes \<Rightarrow> nat \<Rightarrow> nat option" where
  "string_find s d pos =
     (if pos + length d > length s then None
      else if take (length d) (drop pos s) = d then Some pos
      else string_find s d (pos + 1))"
  by pat_completeness auto
termination
  by (relation "measure (\<lambda>(s, d, pos). Suc (length s) - pos)") auto

declare string_find.simps [simp del]

text \<open>The loop of \<open>Split\<close>; both tests of unsigned differences against 0 hold. With an empty delimiter the
  loop does not end.\<close>

partial_function (option) split_loop :: "bytes \<Rightarrow> bytes \<Rightarrow> nat \<Rightarrow> nat option \<Rightarrow> bytes list \<Rightarrow> bytes list option" where
  "split_loop s delim lst index ret =
     (case index of
        Some index \<Rightarrow>
          let ret = ret @ [take (index - lst) (drop lst s)]; lst = index + length delim
          in split_loop s delim lst (string_find s delim lst) ret
      | None \<Rightarrow> Some (ret @ [drop lst s]))"

definition Split :: "bytes \<Rightarrow> bytes \<Rightarrow> bytes list option" where
  "Split s delim = split_loop s delim 0 (string_find s delim 0) []"

section \<open>Data\<close>

record connection =
  c_name :: bytes
  c_loop :: nat
  c_local_addr :: TransportTuple
  c_peer :: TransportTuple
  c_callback :: "nat option"
  c_started :: bool

record ('ssl, 'ss) session =
  s_transport :: "('ssl, 'ss) webrtc_transport"
  s_network :: "nat option"
  s_loop :: "nat option"
  s_is_ready :: bool

text \<open>The factory and the UDP server with the objects they own: \<open>sv_sessions\<close> and \<open>sv_connections\<close> are the
  maps, \<open>sv_session\<close> and \<open>sv_connection\<close> the objects by number.\<close>

record ('ssl, 'ss, 'pool) server =
  sv_sessions :: "(bytes \<times> nat) list"
  sv_session :: "('ssl, 'ss) session list"
  sv_connections :: "(bytes \<times> nat) list"
  sv_connection :: "connection list"
  sv_pool :: 'pool
  sv_seed :: uint32
  sv_listen_addr :: TransportTuple

record 'pool muduo =
  toIpPort :: "TransportTuple \<Rightarrow> bytes"
  getNextLoop :: "'pool \<Rightarrow> nat \<times> 'pool"

text \<open>A task for the event loop of a session: a datagram for its transport, or a media packet to send.\<close>

datatype task =
    Input_task nat bytes nat TransportTuple
  | Send_task nat bytes nat

section \<open>Connections (UdpServer, UdpConnection)\<close>

definition new_UdpConnection :: "nat \<Rightarrow> bytes \<Rightarrow> TransportTuple \<Rightarrow> TransportTuple \<Rightarrow> connection" where
  "new_UdpConnection loop name local_addr peer_addr =
     \<lparr>c_name = name, c_loop = loop, c_local_addr = local_addr, c_peer = peer_addr, c_callback = None, c_started = False\<rparr>"

definition GetOrCreatConnection ::
  "'pool muduo \<Rightarrow> TransportTuple \<Rightarrow> ('ssl, 'ss, 'pool) server \<Rightarrow> nat \<times> ('ssl, 'ss, 'pool) server" where
  "GetOrCreatConnection mu remote_addr sv =
     (let key = toIpPort mu remote_addr in
      case map_of (sv_connections sv) key of
        Some c \<Rightarrow> (c, sv)
      | None \<Rightarrow>
          let (io_loop, pool) = getNextLoop mu (sv_pool sv);
              c = length (sv_connection sv)
          in (c, sv\<lparr>sv_pool := pool, sv_connection := sv_connection sv @ [new_UdpConnection io_loop key (sv_listen_addr sv) remote_addr],
                sv_connections := map_assign key c (sv_connections sv)\<rparr>))"

text \<open>\<open>NetworkTransport::SendPacket\<close>: what is written, and to whom. The address argument is ignored; the socket of
  the connection is connected to the peer it was made for.\<close>

definition NetworkTransport_SendPacket :: "connection \<Rightarrow> bytes \<Rightarrow> nat \<Rightarrow> TransportTuple option \<Rightarrow> (TransportTuple \<times> bytes) res" where
  "NetworkTransport_SendPacket con data len remote_address = rbind (rd_range data 0 len) (\<lambda>bs. Ok (c_peer con, bs))"

text \<open>The length \<open>recvfrom\<close> returns is converted to an unsigned 64-bit value; -1 becomes the largest one.\<close>

definition recv_len :: "int \<Rightarrow> nat" where
  "recv_len r = nat (r mod 2 ^ 64)"

section \<open>Sessions (WebRTCSession, WebRTCSessionFactory)\<close>

definition new_WebRTCSession :: "('ssl, 'ss) webrtc_transport \<Rightarrow> ('ssl, 'ss) session" where
  "new_WebRTCSession w = \<lparr>s_transport = w, s_network = None, s_loop = None, s_is_ready = False\<rparr>"

definition WebRTCSession_SetNetworkTransport ::
  "nat \<Rightarrow> nat \<Rightarrow> ('ssl, 'ss, 'pool) server \<Rightarrow> ('ssl, 'ss, 'pool) server" where
  "WebRTCSession_SetNetworkTransport sid c sv =
     (let s = sv_session sv ! sid; con = sv_connection sv ! c in
      sv\<lparr>sv_session := (sv_session sv)[sid := s\<lparr>s_network := Some c, s_transport := SetNetworkTransport (s_transport s),
             s_loop := Some (c_loop con), s_is_ready := True\<rparr>],
         sv_connection := (sv_connection sv)[c := con\<lparr>c_callback := Some sid, c_started := True\<rparr>]\<rparr>)"

definition CreateWebRTCSession ::
  "('ssl, 'ss) libs \<Rightarrow> bytes \<Rightarrow> bool \<Rightarrow> bytes \<Rightarrow> uint16 \<Rightarrow> ('ssl, 'ss, 'pool) server \<Rightarrow> (nat \<times> ('ssl, 'ss, 'pool) server) res" where
  "CreateWebRTCSession l stun_buffer order ip port sv =
     rbind (new_WebRtcTransport l stun_buffer order ip port (sv_seed sv)) (\<lambda>(w, seed).
     let sid = length (sv_session sv) in
     Ok (sid, sv\<lparr>sv_seed := seed, sv_session := sv_session sv @ [new_WebRTCSession w],
           sv_sessions := map_insert (GetidentifyID w) sid (sv_sessions sv)\<rparr>))"

definition GetWebRTCSession :: "bytes \<Rightarrow> ('ssl, 'ss, 'pool) server \<Rightarrow> nat option" where
  "GetWebRTCSession key sv = map_of (sv_sessions sv) key"

definition GetAllReadyWebRTCSession :: "('ssl, 'ss, 'pool) server \<Rightarrow> nat list \<Rightarrow> nat list" where
  "GetAllReadyWebRTCSession sv sessions =
     sessions @ filter (\<lambda>sid. s_is_ready (sv_session sv ! sid)) (map snd (sv_sessions sv))"

text \<open>The handler of datagrams that arrive on the listening socket. A split that does not end is the fault
  \<open>Diverges\<close>.\<close>

definition HandlePacket ::
  "'pool muduo \<Rightarrow> bytes \<Rightarrow> nat \<Rightarrow> TransportTuple \<Rightarrow> ('ssl, 'ss, 'pool) server \<Rightarrow> (('ssl, 'ss, 'pool) server \<times> task list) res" where
  "HandlePacket mu buf len peer_addr sv =
     rbind (IsStun buf len) (\<lambda>stun. if \<not> stun then Ok (sv, []) else
     rbind (Parse buf len) (\<lambda>packet.
     case packet of
       None \<Rightarrow> Ok (sv, [])
     | Some packet \<Rightarrow>
         (case Split (p_username packet) (str '':'') of
            None \<Rightarrow> Fault Diverges
          | Some vec \<Rightarrow>
              rbind (if vec = [] then Fault OutOfBounds else Ok (vec ! 0)) (\<lambda>use_name.
              case GetWebRTCSession use_name sv of
                None \<Rightarrow> Ok (sv, [])
              | Some sid \<Rightarrow>
                  let (c, sv) = GetOrCreatConnection mu peer_addr sv;
                      sv = WebRTCSession_SetNetworkTransport sid c sv
                  in rbind (rd_range buf 0 len) (\<lambda>shared_buf. Ok (sv, [Input_task sid shared_buf len peer_addr]))))))"

text \<open>The callback of a connection: its session's transport gets the datagram.\<close>

definition on_connection_packet ::
  "('ssl, 'ss) libs \<Rightarrow> nat \<Rightarrow> bytes \<Rightarrow> nat \<Rightarrow> TransportTuple \<Rightarrow> ('ssl, 'ss, 'pool) server \<Rightarrow> (('ssl, 'ss, 'pool) server \<times> wt_output list) res" where
  "on_connection_packet l sid buf len peer_addr sv =
     rbind (OnInputDataPacket l buf len peer_addr (s_transport (sv_session sv ! sid))) (\<lambda>(w, os).
     Ok (sv\<lparr>sv_session := (sv_session sv)[sid := (sv_session sv ! sid)\<lparr>s_transport := w\<rparr>]\<rparr>, os))"

text \<open>The read handlers: \<open>buf\<close> is the receive buffer after the call of \<open>recvfrom\<close>, \<open>r\<close> its result.\<close>

type_synonym ('ssl, 'ss, 'pool) packet_callback =
  "bytes \<Rightarrow> nat \<Rightarrow> TransportTuple \<Rightarrow> ('ssl, 'ss, 'pool) server \<Rightarrow> (('ssl, 'ss, 'pool) server \<times> task list) res"

definition UdpServer_HandleRead ::
  "('ssl, 'ss, 'pool) packet_callback option \<Rightarrow> bytes \<Rightarrow> int \<Rightarrow> TransportTuple \<Rightarrow> ('ssl, 'ss, 'pool) server
     \<Rightarrow> (('ssl, 'ss, 'pool) server \<times> task list) res" where
  "UdpServer_HandleRead callback buf r remote_addr sv =
     (case callback of None \<Rightarrow> Ok (sv, []) | Some f \<Rightarrow> f buf (recv_len r) remote_addr sv)"

definition UdpConnection_HandleRead ::
  "('ssl, 'ss) libs \<Rightarrow> nat \<Rightarrow> bytes \<Rightarrow> int \<Rightarrow> TransportTuple \<Rightarrow> ('ssl, 'ss, 'pool) server \<Rightarrow> (('ssl, 'ss, 'pool) server \<times> wt_output list) res" where
  "UdpConnection_HandleRead l c buf r remote_addr sv =
     (case c_callback (sv_connection sv ! c) of
        None \<Rightarrow> Ok (sv, [])
      | Some sid \<Rightarrow> on_connection_packet l sid buf (recv_len r) remote_addr sv)"

definition send_to_session ::
  "('ssl, 'ss) libs \<Rightarrow> nat \<Rightarrow> bytes \<Rightarrow> nat \<Rightarrow> ('ssl, 'ss, 'pool) server \<Rightarrow> (('ssl, 'ss, 'pool) server \<times> wt_output list) res" where
  "send_to_session l sid buf len sv =
     rbind (EncryptAndSendRtpPacket l buf len (s_transport (sv_session sv ! sid))) (\<lambda>(w, os).
     Ok (sv\<lparr>sv_session := (sv_session sv)[sid := (sv_session sv ! sid)\<lparr>s_transport := w\<rparr>]\<rparr>, os))"

fun run_task ::
  "('ssl, 'ss) libs \<Rightarrow> task \<Rightarrow> ('ssl, 'ss, 'pool) server \<Rightarrow> (('ssl, 'ss, 'pool) server \<times> wt_output list) res" where
  "run_task l (Input_task sid buf len addr) sv = on_connection_packet l sid buf len addr sv"
| "run_task l (Send_task sid buf len) sv = send_to_session l sid buf len sv"

text \<open>The muxer callback of the sending example: a task for every ready session, in the order of the map.\<close>

definition WriteRtpCallback :: "bytes \<Rightarrow> nat \<Rightarrow> ('ssl, 'ss, 'pool) server \<Rightarrow> (nat \<times> task list) res" where
  "WriteRtpCallback buf buf_size sv =
     rbind (rd_range buf 0 buf_size) (\<lambda>shared_buf.
     Ok (buf_size, map (\<lambda>sid. Send_task sid shared_buf buf_size) (GetAllReadyWebRTCSession sv [])))"

text \<open>The HTTP handlers of the two examples: a request for \<open>/webrtc\<close> makes a session and is answered with its session
  description; the handler of the publishing example gives the session an RTP channel. The static fingerprints are an
  argument. The map that keeps the channels alive has no other effect.\<close>

definition rtp_src_http ::
  "('ssl, 'ss) libs \<Rightarrow> Fingerprint list \<Rightarrow> bytes \<Rightarrow> bool \<Rightarrow> bytes \<Rightarrow> uint16 \<Rightarrow> bytes \<Rightarrow> ('ssl, 'ss, 'pool) server
     \<Rightarrow> (bytes option \<times> ('ssl, 'ss, 'pool) server) res" where
  "rtp_src_http l fps stun_buffer order ip port path sv =
     (if path = str ''/webrtc'' then
        rbind (CreateWebRTCSession l stun_buffer order ip port sv) (\<lambda>(sid, sv).
        rbind (GetLocalSdp fps (s_transport (sv_session sv ! sid))) (\<lambda>sdp. Ok (Some sdp, sv)))
      else Ok (None, sv))"

definition publish_http ::
  "('ssl, 'ss) libs \<Rightarrow> Fingerprint list \<Rightarrow> bytes \<Rightarrow> bool \<Rightarrow> bytes \<Rightarrow> uint16 \<Rightarrow> bytes \<Rightarrow> ('ssl, 'ss, 'pool) server
     \<Rightarrow> (bytes option \<times> ('ssl, 'ss, 'pool) server) res" where
  "publish_http l fps stun_buffer order ip port path sv =
     (if path = str ''/webrtc'' then
        rbind (CreateWebRTCSession l stun_buffer order ip port sv) (\<lambda>(sid, sv).
        rbind (GetPublishSdp fps (s_transport (sv_session sv ! sid))) (\<lambda>sdp.
        let s = sv_session sv ! sid in
        Ok (Some sdp, sv\<lparr>sv_session := (sv_session sv)[sid := s\<lparr>s_transport := SetRTPChannel (s_transport s)\<rparr>]\<rparr>)))
      else Ok (None, sv))"

text \<open>What the outputs of the transport of a session put on the wire: its network transport writes them to the
  socket of its connection.\<close>

fun deliver :: "('ssl, 'ss, 'pool) server \<Rightarrow> nat \<Rightarrow> wt_output list \<Rightarrow> (TransportTuple \<times> bytes) list res" where
  "deliver sv sid [] = Ok []"
| "deliver sv sid (SentPacket bs a # os) =
     (case s_network (sv_session sv ! sid) of
        None \<Rightarrow> Fault NullDeref
      | Some c \<Rightarrow>
          rbind (NetworkTransport_SendPacket (sv_connection sv ! c) bs (length bs) a) (\<lambda>p.
          rbind (deliver sv sid os) (\<lambda>ps. Ok (p # ps))))"
| "deliver sv sid (ChannelRtp bs # os) = deliver sv sid os"

section \<open>Splitting at a character\<close>

fun split_on :: "byte \<Rightarrow> bytes \<Rightarrow> bytes list" where
  "split_on c [] = [[]]"
| "split_on c (x # xs) = (if x = c then [] # split_on c xs else (x # hd (split_on c xs)) # tl (split_on c xs))"

fun join_with :: "byte \<Rightarrow> bytes list \<Rightarrow> bytes" where
  "join_with c [] = []"
| "join_with c [p] = p"
| "join_with c (p # ps) = p @ c # join_with c ps"

lemma split_on_nonempty [simp]: "split_on c s \<noteq> []"
  by (induction s) auto

lemma split_on_unfold:
  "split_on c s = (if c \<in> set s then takeWhile (\<lambda>x. x \<noteq> c) s # split_on c (tl (dropWhile (\<lambda>x. x \<noteq> c) s)) else [s])"
  by (induction s) auto

lemma hd_split_on: "hd (split_on c s) = takeWhile (\<lambda>x. x \<noteq> c) s"
  by (induction s) auto

lemma split_on_parts: "p \<in> set (split_on c s) \<Longrightarrow> c \<notin> set p"
proof (induction s arbitrary: p)
  case (Cons x s)
  have "c \<notin> set (hd (split_on c s))" using Cons.IH [of "hd (split_on c s)"] by simp
  moreover have "q \<in> set (tl (split_on c s)) \<Longrightarrow> c \<notin> set q" for q using Cons.IH [of q] by (cases "split_on c s") auto
  ultimately show ?case using Cons.prems Cons.IH [of p] by (auto split: if_splits)
qed simp

lemma join_split_on: "join_with c (split_on c s) = s"
proof (induction s)
  case (Cons x s)
  obtain p ps where "split_on c s = p # ps" by (cases "split_on c s") auto
  with Cons show ?case by (cases ps) auto
qed simp

lemma string_find_char:
  "pos \<le> length s \<Longrightarrow> string_find s [c] pos =
     (if c \<in> set (drop pos s) then Some (pos + length (takeWhile (\<lambda>x. x \<noteq> c) (drop pos s))) else None)"
proof (induction s "[c]" pos rule: string_find.induct)
  case (1 s pos)
  show ?case
  proof (cases "pos < length s")
    case True
    then have d: "drop pos s = s ! pos # drop (Suc pos) s" by (simp add: Cons_nth_drop_Suc)
    show ?thesis
    proof (cases "s ! pos = c")
      case True
      then show ?thesis using d \<open>pos < length s\<close> by (subst string_find.simps) simp
    next
      case False
      then show ?thesis using "1.hyps" d \<open>pos < length s\<close> by (subst string_find.simps) auto
    qed
  qed (use "1.prems" in \<open>subst string_find.simps, simp\<close>)
qed

lemma takeWhile_shorter: "c \<in> set d \<Longrightarrow> length (takeWhile (\<lambda>x. x \<noteq> c) d) < length d"
  by (induction d) auto

lemma split_loop_char:
  "lst \<le> length s \<Longrightarrow> split_loop s [c] lst (string_find s [c] lst) ret = Some (ret @ split_on c (drop lst s))"
proof (induction "length s - lst" arbitrary: lst ret rule: less_induct)
  case less
  let ?d = "drop lst s"
  show ?case
  proof (cases "c \<in> set ?d")
    case False
    then show ?thesis using less.prems
      by (subst split_loop.simps) (simp add: string_find_char split_on_unfold [of c ?d])
  next
    case True
    let ?n = "length (takeWhile (\<lambda>x. x \<noteq> c) ?d)"
    have n: "?n < length ?d" using True by (rule takeWhile_shorter)
    then have l: "lst + ?n + 1 \<le> length s" "length s - (lst + ?n + 1) < length s - lst" by auto
    have "tl (dropWhile (\<lambda>x. x \<noteq> c) ?d) = drop (lst + ?n + 1) s"
      by (simp add: dropWhile_eq_drop tl_drop drop_Suc [symmetric] add.commute)
    moreover have "take ?n ?d = takeWhile (\<lambda>x. x \<noteq> c) ?d" by (metis takeWhile_eq_take)
    ultimately show ?thesis using less.hyps [OF l(2,1)] True less.prems
      by (subst split_loop.simps) (simp add: string_find_char split_on_unfold [of c ?d] Let_def)
  qed
qed

lemma Split_char: "Split s [c] = Some (split_on c s)"
  by (simp add: Split_def split_loop_char)

end
