(* ===== verification/Server.thy ===== *)
theory Server
  imports Session
begin

text \<open>
  The server as a whole: a machine whose operations are datagrams on the listening socket and on the
  sockets of the connections, tasks of the event loops, requests for new sessions and media packets to send.
  An invariant ties the maps, the connections, the sessions and their transports together; no operation
  faults. Then what the listening socket does with a datagram, and whom a session sends to.
\<close>

section \<open>Invariant\<close>

text \<open>The sessions that exist and have a network transport.\<close>

definition is_bound :: "('ssl, 'ss, 'pool) server \<Rightarrow> nat \<Rightarrow> bool" where
  "is_bound sv sid \<longleftrightarrow> sid < length (sv_session sv) \<and> s_is_ready (sv_session sv ! sid)"

definition connection_ok :: "'pool muduo \<Rightarrow> (nat \<Rightarrow> bool) \<Rightarrow> connection \<Rightarrow> bool" where
  "connection_ok mu bound con \<longleftrightarrow>
     toIpPort mu (c_peer con) = c_name con \<and>
     (case c_callback con of None \<Rightarrow> \<not> c_started con | Some sid \<Rightarrow> c_started con \<and> bound sid)"

definition session_inv :: "('ssl, 'ss) libs \<Rightarrow> nat list \<Rightarrow> ('ssl, 'ss) session \<Rightarrow> bool" where
  "session_inv l loops s \<longleftrightarrow>
     wt_inv l (s_transport s) \<and> \<not> w_rtp_channel (s_transport s) \<and>
     (case s_network s of
        None \<Rightarrow> \<not> w_transport (s_transport s) \<and> \<not> s_is_ready s \<and> s_loop s = None
      | Some c \<Rightarrow> w_transport (s_transport s) \<and> s_is_ready s \<and> c < length loops \<and> s_loop s = Some (loops ! c))"

text \<open>OpenSSL can make the objects of a DTLS transport.\<close>

definition can_create :: "('ssl, 'ss) libs \<Rightarrow> bool" where
  "can_create l \<longleftrightarrow> (\<exists>t. new_DtlsTransport (l_ssl l) = Inr t)"

definition server_inv :: "('ssl, 'ss) libs \<Rightarrow> 'pool muduo \<Rightarrow> ('ssl, 'ss, 'pool) server \<Rightarrow> bool" where
  "server_inv l mu sv \<longleftrightarrow>
     libs_ok l \<and> can_create l \<and> map_ok (sv_sessions sv) \<and> map_ok (sv_connections sv) \<and>
     (\<forall>k i. map_of (sv_sessions sv) k = Some i \<longrightarrow>
        i < length (sv_session sv) \<and> GetidentifyID (s_transport (sv_session sv ! i)) = k) \<and>
     (\<forall>k c. map_of (sv_connections sv) k = Some c \<longrightarrow> c < length (sv_connection sv) \<and> c_name (sv_connection sv ! c) = k) \<and>
     (\<forall>i < length (sv_session sv). session_inv l (map c_loop (sv_connection sv)) (sv_session sv ! i)) \<and>
     (\<forall>c < length (sv_connection sv). connection_ok mu (is_bound sv) (sv_connection sv ! c))"

fun task_session :: "task \<Rightarrow> nat" where
  "task_session (Input_task sid buf len addr) = sid"
| "task_session (Send_task sid buf len) = sid"

fun task_ok :: "(nat \<Rightarrow> bool) \<Rightarrow> task \<Rightarrow> bool" where
  "task_ok bound (Input_task sid buf len addr) \<longleftrightarrow> bound sid \<and> len \<le> length buf \<and> len < 65536"
| "task_ok bound (Send_task sid buf len) \<longleftrightarrow> bound sid \<and> len \<le> length buf"

lemma task_ok_more: "task_ok B t \<Longrightarrow> (\<And>i. B i \<Longrightarrow> B' i) \<Longrightarrow> task_ok B' t"
  by (cases t) auto

lemma tasks_ok_more: "list_all (task_ok B) ts \<Longrightarrow> (\<And>i. B i \<Longrightarrow> B' i) \<Longrightarrow> list_all (task_ok B') ts"
  by (auto simp: list_all_iff intro: task_ok_more)

lemma session_inv_more: "session_inv l loops s \<Longrightarrow> session_inv l (loops @ loops') s"
  by (auto simp: session_inv_def nth_append split: option.splits)

lemma connection_ok_more: "connection_ok mu B con \<Longrightarrow> (\<And>i. B i \<Longrightarrow> B' i) \<Longrightarrow> connection_ok mu B' con"
  by (auto simp: connection_ok_def split: option.splits)

lemma server_inv_parts:
  assumes "server_inv l mu sv"
  shows "libs_ok l" "can_create l" "map_ok (sv_sessions sv)" "map_ok (sv_connections sv)"
    and server_inv_session: "map_of (sv_sessions sv) k = Some i \<Longrightarrow> i < length (sv_session sv) \<and> GetidentifyID (s_transport (sv_session sv ! i)) = k"
    and server_inv_connection: "map_of (sv_connections sv) k = Some c \<Longrightarrow> c < length (sv_connection sv) \<and> c_name (sv_connection sv ! c) = k"
    and server_inv_session_inv: "i < length (sv_session sv) \<Longrightarrow> session_inv l (map c_loop (sv_connection sv)) (sv_session sv ! i)"
    and server_inv_connection_ok: "c < length (sv_connection sv) \<Longrightarrow> connection_ok mu (is_bound sv) (sv_connection sv ! c)"
  using assms by (simp_all add: server_inv_def)

lemma is_bound_updates [simp]:
  "is_bound (sv\<lparr>sv_pool := p\<rparr>) = is_bound sv" "is_bound (sv\<lparr>sv_connection := cs\<rparr>) = is_bound sv"
  "is_bound (sv\<lparr>sv_connections := m\<rparr>) = is_bound sv"
  by (simp_all add: is_bound_def fun_eq_iff)

section \<open>Operations keep the invariant\<close>

lemma GetOrCreatConnection_ok:
  assumes inv: "server_inv l mu sv" and g: "GetOrCreatConnection mu addr sv = (c, sv')"
  shows "server_inv l mu sv'" "c < length (sv_connection sv')" "sv_session sv' = sv_session sv" "sv_sessions sv' = sv_sessions sv"
    "toIpPort mu (c_peer (sv_connection sv' ! c)) = toIpPort mu addr" "map_of (sv_connections sv') (toIpPort mu addr) = Some c"
proof -
  have "server_inv l mu sv' \<and> c < length (sv_connection sv') \<and> sv_session sv' = sv_session sv \<and> sv_sessions sv' = sv_sessions sv \<and>
    toIpPort mu (c_peer (sv_connection sv' ! c)) = toIpPort mu addr \<and> map_of (sv_connections sv') (toIpPort mu addr) = Some c"
  proof (cases "map_of (sv_connections sv) (toIpPort mu addr)")
    case (Some d)
    then have "sv' = sv" "c = d" using g by (simp_all add: GetOrCreatConnection_def)
    with Some inv show ?thesis by (auto simp: server_inv_def connection_ok_def)
  next
    case None
    obtain io_loop pool where n: "getNextLoop mu (sv_pool sv) = (io_loop, pool)" by fastforce
    have sv': "c = length (sv_connection sv)" "sv' = sv\<lparr>sv_pool := pool,
        sv_connection := sv_connection sv @ [new_UdpConnection io_loop (toIpPort mu addr) (sv_listen_addr sv) addr],
        sv_connections := map_assign (toIpPort mu addr) c (sv_connections sv)\<rparr>"
      using g None n by (auto simp: GetOrCreatConnection_def Let_def)
    have m: "map_ok (sv_connections sv)" using inv by (simp add: server_inv_def)
    have "server_inv l mu sv'"
      unfolding server_inv_def
    proof (intro conjI allI impI)
      fix k d assume "map_of (sv_connections sv') k = Some d"
      then show "d < length (sv_connection sv')" "c_name (sv_connection sv' ! d) = k"
        using server_inv_connection [OF inv, of k d]
        by (auto simp: sv' connections.stored_iff [OF m None] nth_append new_UdpConnection_def split: if_splits)
    next
      fix i assume "i < length (sv_session sv')"
      then show "session_inv l (map c_loop (sv_connection sv')) (sv_session sv' ! i)"
        using server_inv_session_inv [OF inv] by (simp add: sv' session_inv_more)
    next
      fix d assume "d < length (sv_connection sv')"
      then show "connection_ok mu (is_bound sv') (sv_connection sv' ! d)"
        using server_inv_connection_ok [OF inv, of d]
        by (auto simp: sv' nth_append less_Suc_eq new_UdpConnection_def connection_ok_def)
    qed (use server_inv_parts [OF inv] connections.ok_store in \<open>simp_all add: sv'\<close>)
    then show ?thesis using connections.find_fresh [OF m None] by (simp add: sv' new_UdpConnection_def)
  qed
  then show "server_inv l mu sv'" "c < length (sv_connection sv')" "sv_session sv' = sv_session sv" "sv_sessions sv' = sv_sessions sv"
    "toIpPort mu (c_peer (sv_connection sv' ! c)) = toIpPort mu addr" "map_of (sv_connections sv') (toIpPort mu addr) = Some c"
    by blast+
qed

lemma bound_kept: "is_bound sv i \<Longrightarrow> is_bound (WebRTCSession_SetNetworkTransport sid c sv) i"
  by (cases "sid = i") (auto simp: is_bound_def WebRTCSession_SetNetworkTransport_def Let_def)

lemma bound_now: "sid < length (sv_session sv) \<Longrightarrow> c < length (sv_connection sv) \<Longrightarrow> is_bound (WebRTCSession_SetNetworkTransport sid c sv) sid"
  by (simp add: is_bound_def WebRTCSession_SetNetworkTransport_def Let_def)

lemma SetNetworkTransport_ok:
  assumes inv: "server_inv l mu sv" and b: "sid < length (sv_session sv)" "c < length (sv_connection sv)"
  shows "server_inv l mu (WebRTCSession_SetNetworkTransport sid c sv)"
proof -
  let ?s = "sv_session sv ! sid"
  have loops: "map c_loop ((sv_connection sv)[c := (sv_connection sv ! c)\<lparr>c_callback := Some sid, c_started := True\<rparr>]) = map c_loop (sv_connection sv)"
    using b(2) by (simp add: map_update list_update_same_conv)
  have "session_inv l (map c_loop (sv_connection sv)) ?s" using inv b by (simp add: server_inv_def)
  then have "session_inv l (map c_loop (sv_connection sv)) (?s\<lparr>s_network := Some c, s_transport := SetNetworkTransport (s_transport ?s),
      s_loop := Some (c_loop (sv_connection sv ! c)), s_is_ready := True\<rparr>)"
    using b by (auto simp: session_inv_def SetNetworkTransport_def wt_inv_def)
  moreover have "is_bound sv i \<Longrightarrow> is_bound (WebRTCSession_SetNetworkTransport sid c sv) i" for i
    by (rule bound_kept)
  moreover have "is_bound (WebRTCSession_SetNetworkTransport sid c sv) sid" using b by (rule bound_now)
  ultimately show ?thesis using inv b unfolding server_inv_def
    by (auto simp: WebRTCSession_SetNetworkTransport_def Let_def loops nth_list_update connection_ok_def SetNetworkTransport_def
        split: option.splits)
qed

lemma set_transport_ok:
  assumes inv: "server_inv l mu sv" and sid: "sid < length (sv_session sv)" and w: "wt_inv l w"
    "w_transport w = w_transport (s_transport (sv_session sv ! sid))" "\<not> w_rtp_channel w"
    "GetidentifyID w = GetidentifyID (s_transport (sv_session sv ! sid))"
  shows "server_inv l mu (sv\<lparr>sv_session := (sv_session sv)[sid := (sv_session sv ! sid)\<lparr>s_transport := w\<rparr>]\<rparr>)"
proof -
  have "session_inv l (map c_loop (sv_connection sv)) (sv_session sv ! sid)" using inv sid by (simp add: server_inv_def)
  then have "session_inv l (map c_loop (sv_connection sv)) ((sv_session sv ! sid)\<lparr>s_transport := w\<rparr>)"
    using w by (auto simp: session_inv_def split: option.splits)
  moreover have "is_bound (sv\<lparr>sv_session := (sv_session sv)[sid := (sv_session sv ! sid)\<lparr>s_transport := w\<rparr>]\<rparr>) = is_bound sv"
    using sid by (auto simp: is_bound_def nth_list_update fun_eq_iff)
  ultimately show ?thesis using inv sid w(4) by (auto simp: server_inv_def nth_list_update)
qed

text \<open>What an operation on the transport of one session leaves alone.\<close>

definition same_routes :: "('ssl, 'ss, 'pool) server \<Rightarrow> ('ssl, 'ss, 'pool) server \<Rightarrow> bool" where
  "same_routes sv sv' \<longleftrightarrow>
     sv_sessions sv' = sv_sessions sv \<and> sv_connections sv' = sv_connections sv \<and> sv_connection sv' = sv_connection sv \<and>
     length (sv_session sv') = length (sv_session sv) \<and>
     map s_network (sv_session sv') = map s_network (sv_session sv) \<and> map s_is_ready (sv_session sv') = map s_is_ready (sv_session sv)"

lemma same_routes_set_transport:
  "sid < length (sv_session sv) \<Longrightarrow>
   same_routes sv (sv\<lparr>sv_session := (sv_session sv)[sid := (sv_session sv ! sid)\<lparr>s_transport := w\<rparr>]\<rparr>)"
  by (simp add: same_routes_def map_update list_update_same_conv)

lemma same_routes_bound: "same_routes sv sv' \<Longrightarrow> is_bound sv' = is_bound sv"
  by (auto simp: same_routes_def is_bound_def fun_eq_iff list_eq_iff_nth_eq)

lemma session_transport:
  assumes "server_inv l mu sv" "sid < length (sv_session sv)"
  shows "libs_ok l" "wt_inv l (s_transport (sv_session sv ! sid))" "\<not> w_rtp_channel (s_transport (sv_session sv ! sid))"
    "w_transport (s_transport (sv_session sv ! sid)) \<longleftrightarrow> s_network (sv_session sv ! sid) \<noteq> None"
  using assms by (auto simp: server_inv_def session_inv_def split: option.splits)

lemma on_connection_packet_ok:
  assumes inv: "server_inv l mu sv" and b: "sid < length (sv_session sv)" "len \<le> length buf" "len < 65536"
  shows "\<exists>sv' os. on_connection_packet l sid buf len addr sv = Inr (sv', os) \<and> server_inv l mu sv' \<and> same_routes sv sv'"
proof -
  note t = session_transport [OF inv b(1)]
  obtain w os where w: "OnInputDataPacket l buf len addr (s_transport (sv_session sv ! sid)) = Inr (w, os)" "wt_inv l w"
    "w_transport w = w_transport (s_transport (sv_session sv ! sid))" "\<not> w_rtp_channel w"
    "GetidentifyID w = GetidentifyID (s_transport (sv_session sv ! sid))"
    using OnInputDataPacket_ok [OF t(1,2) b(2,3), of addr] t(3) by (auto simp: wt_stepped_def)
  from set_transport_ok [OF inv b(1) w(2-)] same_routes_set_transport [OF b(1)] show ?thesis
    by (simp add: on_connection_packet_def w(1))
qed

lemma send_to_session_ok:
  assumes inv: "server_inv l mu sv" and b: "sid < length (sv_session sv)" "len \<le> length buf"
  shows "\<exists>sv' os. send_to_session l sid buf len sv = Inr (sv', os) \<and> server_inv l mu sv' \<and> same_routes sv sv'"
proof -
  note t = session_transport [OF inv b(1)]
  obtain w os where w: "EncryptAndSendRtpPacket l buf len (s_transport (sv_session sv ! sid)) = Inr (w, os)" "wt_inv l w"
    "w_transport w = w_transport (s_transport (sv_session sv ! sid))" "\<not> w_rtp_channel w"
    "GetidentifyID w = GetidentifyID (s_transport (sv_session sv ! sid))"
    using EncryptAndSend_ok [OF t(1,2) b(2)] t(3) by auto
  from set_transport_ok [OF inv b(1) w(2-)] same_routes_set_transport [OF b(1)] show ?thesis
    by (simp add: send_to_session_def w(1))
qed

lemma CreateWebRTCSession_ok:
  assumes inv: "server_inv l mu sv" and b: "length stun_buffer = StunSerializeBufferSize"
  shows "\<exists>w seed. CreateWebRTCSession l stun_buffer order ip port sv =
      Inr (length (sv_session sv), sv\<lparr>sv_seed := seed, sv_session := sv_session sv @ [new_WebRTCSession w],
        sv_sessions := map_insert (GetidentifyID w) (length (sv_session sv)) (sv_sessions sv)\<rparr>) \<and>
    server_inv l mu (sv\<lparr>sv_seed := seed, sv_session := sv_session sv @ [new_WebRTCSession w],
        sv_sessions := map_insert (GetidentifyID w) (length (sv_session sv)) (sv_sessions sv)\<rparr>)"
proof -
  obtain w seed where w: "new_WebRtcTransport l stun_buffer order ip port (sv_seed sv) = Inr (w, seed)"
    using server_inv_parts(2) [OF inv] by (auto simp: can_create_def new_WebRtcTransport_def Let_def split_beta)
  let ?n = "length (sv_session sv)"
  let ?sv = "sv\<lparr>sv_seed := seed, sv_session := sv_session sv @ [new_WebRTCSession w],
        sv_sessions := map_insert (GetidentifyID w) ?n (sv_sessions sv)\<rparr>"
  have i: "wt_inv l w" "\<not> w_rtp_channel w" using new_WebRtcTransport_inv [OF w server_inv_parts(1) [OF inv] b] by simp_all
  have t: "\<not> w_transport w" using w by (auto simp: new_WebRtcTransport_def Let_def split_beta)
  note m = server_inv_parts(3) [OF inv]
  have "server_inv l mu ?sv"
    unfolding server_inv_def
  proof (intro conjI allI impI)
    fix k i assume "map_of (sv_sessions ?sv) k = Some i"
    then have "k = GetidentifyID w \<and> i = ?n \<or> map_of (sv_sessions sv) k = Some i"
      by (simp add: map_of_insert [OF m] split: if_splits)
    then show "i < length (sv_session ?sv)" "GetidentifyID (s_transport (sv_session ?sv ! i)) = k"
      using server_inv_session [OF inv, of k i] by (auto simp: new_WebRTCSession_def nth_append)
  next
    fix i assume "i < length (sv_session ?sv)"
    then consider "i = ?n" | "i < ?n" by fastforce
    then show "session_inv l (map c_loop (sv_connection ?sv)) (sv_session ?sv ! i)"
      using i t server_inv_session_inv [OF inv, of i] by cases (simp_all add: nth_append session_inv_def new_WebRTCSession_def)
  next
    fix c assume "c < length (sv_connection ?sv)"
    then show "connection_ok mu (is_bound ?sv) (sv_connection ?sv ! c)"
      using connection_ok_more [OF server_inv_connection_ok [OF inv, of c]] by (simp add: is_bound_def nth_append)
  qed (use server_inv_parts [OF inv] sessions.ok_store in simp_all)
  then show ?thesis by (auto simp: CreateWebRTCSession_def w Let_def)
qed

section \<open>The listening socket\<close>

text \<open>The part of a STUN username that selects the session.\<close>

definition ufrag_of :: "stun_packet \<Rightarrow> bytes" where
  "ufrag_of pkt = takeWhile (\<lambda>x. x \<noteq> 58) (p_username pkt)"

lemma Split_username:
  "\<exists>vec. Split (p_username pkt) (str '':'') = Some vec \<and> vec \<noteq> [] \<and> vec ! 0 = ufrag_of pkt"
  using hd_split_on [of 58 "p_username pkt"] by (simp add: Split_char str_def ufrag_of_def hd_conv_nth)

text \<open>A failed read passes the largest length; the header of the datagram, whatever the buffer holds, does not match
  it. The classifiers do not read further than the header.\<close>

lemma Parse_failed_read:
  assumes "20 \<le> length buf"
  shows "(\<exists>b. IsStun buf (2 ^ 64 - 1) = Inr b) \<and> Parse buf (2 ^ 64 - 1) = Inr None"
proof -
  have "IsStun buf (2 ^ 64 - 1) = IsStun buf 20" by (simp add: IsStun_def)
  then have "\<exists>b. IsStun buf (2 ^ 64 - 1) = Inr b" using classifiers_total(1) [OF assms] by simp
  moreover have "unat x \<noteq> 2 ^ 64 - 1 - 20" for x :: uint16
  proof -
    have "unat x < 65536" by (rule order.strict_trans2 [OF unsigned_less]) simp
    then show ?thesis by auto
  qed
  ultimately show ?thesis using assms by (auto simp: Parse_def u16.get_in_bounds)
qed

definition bind_session :: "'pool muduo \<Rightarrow> nat \<Rightarrow> TransportTuple \<Rightarrow> ('ssl, 'ss, 'pool) server \<Rightarrow> ('ssl, 'ss, 'pool) server" where
  "bind_session mu sid addr sv = (case GetOrCreatConnection mu addr sv of (c, sv') \<Rightarrow> WebRTCSession_SetNetworkTransport sid c sv')"

lemma HandlePacket_eq:
  assumes "IsStun buf len = Inr stun" "Parse buf len = Inr r"
  shows "HandlePacket mu buf len addr sv =
    (case r of
       None \<Rightarrow> Inr (sv, [])
     | Some pkt \<Rightarrow>
         (case GetWebRTCSession (ufrag_of pkt) sv of
            None \<Rightarrow> Inr (sv, [])
          | Some sid \<Rightarrow> rbind (rd_range buf 0 len) (\<lambda>d. Inr (bind_session mu sid addr sv, [Input_task sid d len addr]))))"
proof (cases stun)
  case False
  then have "r = None" using assms by (auto simp: Parse_def)
  then show ?thesis using False assms by (simp add: HandlePacket_def)
next
  case True
  show ?thesis
  proof (cases r)
    case (Some pkt)
    obtain vec where "Split (p_username pkt) (str '':'') = Some vec" "vec \<noteq> []" "vec ! 0 = ufrag_of pkt"
      using Split_username by blast
    then show ?thesis using True Some assms
      by (simp add: HandlePacket_def bind_session_def Let_def split_beta del: rbind_eq_Inr split: option.split)
  qed (use True assms in \<open>simp add: HandlePacket_def\<close>)
qed

lemma bind_session_ok:
  assumes "server_inv l mu sv" "sid < length (sv_session sv)"
  shows "server_inv l mu (bind_session mu sid addr sv)" "sv_sessions (bind_session mu sid addr sv) = sv_sessions sv"
    "is_bound sv i \<Longrightarrow> is_bound (bind_session mu sid addr sv) i" "is_bound (bind_session mu sid addr sv) sid"
proof -
  obtain c sv' where g: "GetOrCreatConnection mu addr sv = (c, sv')" by fastforce
  note ok = GetOrCreatConnection_ok [OF assms(1) g]
  have b: "bind_session mu sid addr sv = WebRTCSession_SetNetworkTransport sid c sv'" by (simp add: bind_session_def g)
  from SetNetworkTransport_ok [OF ok(1) _ ok(2)] assms(2) ok(2,3,4) bound_now [OF _ ok(2), of sid]
  show "server_inv l mu (bind_session mu sid addr sv)" "sv_sessions (bind_session mu sid addr sv) = sv_sessions sv"
    "is_bound (bind_session mu sid addr sv) sid"
    unfolding b by (simp_all add: WebRTCSession_SetNetworkTransport_def Let_def)
  show "is_bound (bind_session mu sid addr sv) i" if "is_bound sv i"
    unfolding b by (rule bound_kept) (use that ok(3) in \<open>simp add: is_bound_def\<close>)
qed

lemma recv_len_cases: "-1 \<le> r \<Longrightarrow> r \<le> 4096 \<Longrightarrow> recv_len r = 2 ^ 64 - 1 \<or> recv_len r = nat r \<and> nat r \<le> 4096"
proof (cases "r = -1")
  case True
  then show ?thesis by (simp add: recv_len_def)
next
  case False
  assume "-1 \<le> r" "r \<le> 4096"
  with False show ?thesis by (simp add: recv_len_def nat_le_iff)
qed

lemma listen_ok:
  assumes inv: "server_inv l mu sv" and b: "length buf = 4096" "-1 \<le> r" "r \<le> 4096"
  shows "\<exists>sv' ts. UdpServer_HandleRead (Some (HandlePacket mu)) buf r addr sv = Inr (sv', ts) \<and> server_inv l mu sv' \<and>
    (\<forall>i. is_bound sv i \<longrightarrow> is_bound sv' i) \<and> list_all (task_ok (is_bound sv')) ts"
  using recv_len_cases [OF b(2,3)]
proof
  assume "recv_len r = 2 ^ 64 - 1"
  then show ?thesis using Parse_failed_read [of buf] HandlePacket_eq [of buf "2 ^ 64 - 1"] inv b(1)
    by (fastforce simp: UdpServer_HandleRead_def)
next
  assume n: "recv_len r = nat r \<and> nat r \<le> 4096"
  then have len: "nat r \<le> length buf" "nat r < 65536" using b(1) by auto
  obtain stun p where p: "IsStun buf (nat r) = Inr stun" "Parse buf (nat r) = Inr p"
    using classifiers_total(1) [OF len(1)] Parse_total [OF len] by blast
  show ?thesis using n len inv bind_session_ok [OF inv] server_inv_session [OF inv]
    by (auto simp: UdpServer_HandleRead_def HandlePacket_eq [OF p] GetWebRTCSession_def split: option.split)
qed

section \<open>The server as a machine\<close>

datatype server_op =
    Listen bytes int TransportTuple
  | Read nat bytes int TransportTuple
  | Run_task nat
  | Create bytes bool bytes uint16
  | Media bytes nat

text \<open>The state of a run is the server with the tasks that wait in event loops. The loops run in threads of their own,
  so any waiting task may be the next one. A connection is read once it is started. The outputs are the
  packets on the wire.\<close>

type_synonym ('ssl, 'ss, 'pool) world = "('ssl, 'ss, 'pool) server \<times> task list"

fun server_step ::
  "('ssl, 'ss) libs \<Rightarrow> 'pool muduo \<Rightarrow> (server_op, ('ssl, 'ss, 'pool) world, TransportTuple \<times> bytes) stepper" where
  "server_step l mu (Listen buf r addr) (sv, ts) =
     rbind (UdpServer_HandleRead (Some (HandlePacket mu)) buf r addr sv) (\<lambda>(sv, ts'). Ok ((sv, ts @ ts'), []))"
| "server_step l mu (Read c buf r addr) (sv, ts) =
     (if c < length (sv_connection sv) \<and> c_started (sv_connection sv ! c) then
        rbind (UdpConnection_HandleRead l c buf r addr sv) (\<lambda>(sv', os).
        case c_callback (sv_connection sv ! c) of
          None \<Rightarrow> Ok ((sv', ts), [])
        | Some sid \<Rightarrow> rbind (deliver sv' sid os) (\<lambda>ps. Ok ((sv', ts), ps)))
      else Ok ((sv, ts), []))"
| "server_step l mu (Run_task i) (sv, ts) =
     (if i < length ts then
        rbind (run_task l (ts ! i) sv) (\<lambda>(sv, os).
        rbind (deliver sv (task_session (ts ! i)) os) (\<lambda>ps. Ok ((sv, take i ts @ drop (Suc i) ts), ps)))
      else Ok ((sv, ts), []))"
| "server_step l mu (Create stun_buffer order ip port) (sv, ts) =
     rbind (CreateWebRTCSession l stun_buffer order ip port sv) (\<lambda>(sid, sv). Ok ((sv, ts), []))"
| "server_step l mu (Media buf len) (sv, ts) =
     rbind (WriteRtpCallback buf len sv) (\<lambda>(n, ts'). Ok ((sv, ts @ ts'), []))"

text \<open>The receive buffers have 4096 bytes. A read of the listening socket may fail.\<close>

fun server_good_op :: "server_op \<Rightarrow> bool" where
  "server_good_op (Listen buf r addr) \<longleftrightarrow> length buf = 4096 \<and> -1 \<le> r \<and> r \<le> 4096"
| "server_good_op (Read c buf r addr) \<longleftrightarrow> length buf = 4096 \<and> 0 \<le> r \<and> r \<le> 4096"
| "server_good_op (Run_task i) \<longleftrightarrow> True"
| "server_good_op (Create stun_buffer order ip port) \<longleftrightarrow> length stun_buffer = StunSerializeBufferSize"
| "server_good_op (Media buf len) \<longleftrightarrow> len \<le> length buf"

fun world_inv :: "('ssl, 'ss) libs \<Rightarrow> 'pool muduo \<Rightarrow> ('ssl, 'ss, 'pool) world \<Rightarrow> bool" where
  "world_inv l mu (sv, ts) \<longleftrightarrow> server_inv l mu sv \<and> list_all (task_ok (is_bound sv)) ts"

lemma deliver_ok:
  assumes "s_network (sv_session sv ! sid) = Some c"
  shows "\<exists>ps. deliver sv sid os = Inr ps \<and> (\<forall>p \<in> set ps. fst p = c_peer (sv_connection sv ! c))"
proof (induction os)
  case (Cons out os)
  then show ?case using assms by (cases out) (auto simp: NetworkTransport_SendPacket_def)
qed simp

lemma bound_network:
  assumes "server_inv l mu sv" "is_bound sv sid"
  shows "sid < length (sv_session sv)" "\<exists>c. s_network (sv_session sv ! sid) = Some c"
  using assms server_inv_session_inv [OF assms(1), of sid] by (auto simp: is_bound_def session_inv_def split: option.splits)

lemma run_task_ok:
  assumes inv: "server_inv l mu sv" and t: "task_ok (is_bound sv) t"
  shows "\<exists>sv' os ps. run_task l t sv = Inr (sv', os) \<and> server_inv l mu sv' \<and> is_bound sv' = is_bound sv \<and>
    deliver sv' (task_session t) os = Inr ps"
proof -
  have b: "is_bound sv (task_session t)" using t by (cases t) simp_all
  note sid = bound_network [OF inv b]
  obtain sv' os where s: "run_task l t sv = Inr (sv', os)" "server_inv l mu sv'" "same_routes sv sv'"
    using t sid(1) on_connection_packet_ok [OF inv] send_to_session_ok [OF inv] by (cases t) (simp, blast)+
  from bound_network(2) [OF s(2), of "task_session t"] b same_routes_bound [OF s(3)] deliver_ok s show ?thesis by metis
qed

lemma GetAllReady_bound:
  assumes "server_inv l mu sv" "sid \<in> set (GetAllReadyWebRTCSession sv [])"
  shows "is_bound sv sid"
proof -
  obtain k where "(k, sid) \<in> set (sv_sessions sv)" "s_is_ready (sv_session sv ! sid)"
    using assms(2) by (auto simp: GetAllReadyWebRTCSession_def)
  moreover then have "map_of (sv_sessions sv) k = Some sid"
    using server_inv_parts(3) [OF assms(1)] by (auto simp: map_ok_def strict_sorted_iff intro: map_of_is_SomeI)
  ultimately show ?thesis using server_inv_session [OF assms(1)] by (auto simp: is_bound_def)
qed

lemma server_step_ok:
  assumes w: "world_inv l mu w" and x: "server_good_op x"
  shows "\<exists>w' ps. server_step l mu x w = Inr (w', ps) \<and> world_inv l mu w'"
proof -
  obtain sv ts where sv: "w = (sv, ts)" by fastforce
  have inv: "server_inv l mu sv" and t: "list_all (task_ok (is_bound sv)) ts" using w by (simp_all add: sv)
  show ?thesis
  proof (cases x)
    case (Listen buf r addr)
    with listen_ok [OF inv, of buf r addr] x tasks_ok_more [OF t] show ?thesis by (fastforce simp: sv)
  next
    case (Read c buf r addr)
    show ?thesis
    proof (cases "c < length (sv_connection sv) \<and> c_started (sv_connection sv ! c)")
      case True
      then obtain sid where sid: "c_callback (sv_connection sv ! c) = Some sid" "is_bound sv sid"
        using server_inv_connection_ok [OF inv, of c] by (auto simp: connection_ok_def split: option.splits)
      have r: "recv_len r \<le> length buf" "recv_len r < 65536" using x Read by (auto simp: recv_len_def)
      then have "task_ok (is_bound sv) (Input_task sid buf (recv_len r) addr)" using sid by simp
      from run_task_ok [OF inv this] True sid t show ?thesis by (auto simp: sv Read UdpConnection_HandleRead_def)
    qed (use w in \<open>auto simp: Read sv\<close>)
  next
    case (Run_task i)
    show ?thesis
    proof (cases "i < length ts")
      case True
      then have "task_ok (is_bound sv) (ts ! i)" using t by (simp add: list_all_length)
      moreover have "list_all (task_ok (is_bound sv)) (take i ts @ drop (Suc i) ts)"
        using t by (auto simp: list_all_iff dest: in_set_takeD in_set_dropD)
      ultimately show ?thesis using run_task_ok [OF inv] True by (fastforce simp: sv Run_task)
    qed (use w in \<open>simp add: sv Run_task\<close>)
  next
    case (Create stun_buffer order ip port)
    then have "length stun_buffer = StunSerializeBufferSize" using x by simp
    from CreateWebRTCSession_ok [OF inv this, of order ip port] show ?thesis using tasks_ok_more [OF t]
      by (auto simp: sv Create is_bound_def nth_append)
  next
    case (Media buf len)
    then show ?thesis using inv t x GetAllReady_bound [OF inv] by (auto simp: sv WriteRtpCallback_def list_all_iff)
  qed
qed

interpretation server: safe_machine "server_step l mu" server_good_op "world_inv l mu"
  for l :: "('ssl, 'ss) libs" and mu :: "'pool muduo"
  by unfold_locales (use server_step_ok in fastforce)+

section \<open>Routes\<close>

lemma bind_session_effect:
  assumes inv: "server_inv l mu sv" and sid: "sid < length (sv_session sv)"
  shows "\<exists>c. map_of (sv_connections (bind_session mu sid addr sv)) (toIpPort mu addr) = Some c \<and>
    (\<forall>d. map_of (sv_connections sv) (toIpPort mu addr) = Some d \<longrightarrow> c = d) \<and>
    c_callback (sv_connection (bind_session mu sid addr sv) ! c) = Some sid \<and>
    sv_session (bind_session mu sid addr sv) = (sv_session sv)[sid := (sv_session sv ! sid)\<lparr>s_network := Some c,
      s_transport := SetNetworkTransport (s_transport (sv_session sv ! sid)),
      s_loop := Some (c_loop (sv_connection (bind_session mu sid addr sv) ! c)), s_is_ready := True\<rparr>]"
proof -
  obtain c sv' where g: "GetOrCreatConnection mu addr sv = (c, sv')" by fastforce
  note ok = GetOrCreatConnection_ok [OF inv g]
  have "map_of (sv_connections sv) (toIpPort mu addr) = Some d \<Longrightarrow> c = d" for d
    using g by (simp add: GetOrCreatConnection_def)
  then show ?thesis using ok(2,3,6)
    by (auto simp: bind_session_def g WebRTCSession_SetNetworkTransport_def Let_def intro!: exI [of _ c])
qed

lemma EncryptAndSend_output:
  "EncryptAndSendRtpPacket l data len w = Inr (w', os) \<Longrightarrow> w_transport w \<Longrightarrow> \<exists>bs. os = [SentPacket bs (w_remote w)]"
  by (auto simp: EncryptAndSendRtpPacket_def SendPacket_def split: if_splits option.splits)

text \<open>Media for a session go to the peer of the connection it is bound to.\<close>

lemma media_to_bound_peer:
  assumes inv: "server_inv l mu sv" and c: "is_bound sv sid" "s_network (sv_session sv ! sid) = Some c" and len: "len \<le> length data"
  shows "\<exists>sv' os bs. send_to_session l sid data len sv = Inr (sv', os) \<and>
    deliver sv' sid os = Inr [(c_peer (sv_connection sv ! c), bs)]"
proof -
  note sid = bound_network(1) [OF inv c(1)]
  obtain sv' os where s: "send_to_session l sid data len sv = Inr (sv', os)" "same_routes sv sv'"
    using send_to_session_ok [OF inv sid len] by blast
  have "w_transport (s_transport (sv_session sv ! sid))" using session_transport(4) [OF inv sid] c(2) by simp
  then obtain bs a where "os = [SentPacket bs a]" using s(1) EncryptAndSend_output by (fastforce simp: send_to_session_def)
  moreover have "s_network (sv_session sv' ! sid) = Some c" "sv_connection sv' = sv_connection sv"
    using s(2) c(2) sid by (auto simp: same_routes_def list_eq_iff_nth_eq)
  ultimately show ?thesis using s(1) by (auto simp: NetworkTransport_SendPacket_def)
qed

lemma filter_map_insert:
  "map_of m k = None \<Longrightarrow> \<not> P v \<Longrightarrow> filter P (map snd (map_insert k v m)) = filter P (map snd m)"
  by (induction k v m rule: map_insert.induct) auto

lemma map_insert_present: "map_ok m \<Longrightarrow> map_of m k \<noteq> None \<Longrightarrow> map_insert k v m = m"
  by (induction k v m rule: map_insert.induct) (auto simp: map_ok_Cons dest: map_of_smaller [rotated] split: if_splits)

section \<open>Properties\<close>

text \<open>A server that has just been made, and a library for the examples: addresses print as their port, and there is one loop.\<close>

definition new_server :: "'pool \<Rightarrow> uint32 \<Rightarrow> TransportTuple \<Rightarrow> ('ssl, 'ss, 'pool) server" where
  "new_server pool seed listen_addr =
     \<lparr>sv_sessions = [], sv_session = [], sv_connections = [], sv_connection = [], sv_pool = pool, sv_seed = seed,
      sv_listen_addr = listen_addr\<rparr>"

fun example_ip_port :: "TransportTuple \<Rightarrow> bytes" where
  "example_ip_port (AF_INET port addr) = decimal_digits (unat addr) @ str '':'' @ decimal_digits (unat port)"
| "example_ip_port _ = []"

definition example_muduo :: "unit muduo" where
  "example_muduo = \<lparr>toIpPort = example_ip_port, getNextLoop = (\<lambda>p. (0, p))\<rparr>"

lemma new_server_inv: "libs_ok l \<Longrightarrow> can_create l \<Longrightarrow> world_inv l mu (new_server pool seed listen_addr, [])"
  by (simp add: new_server_def server_inv_def map_ok_def)

lemma example_can_create: "can_create example_libs"
  using new_example_transport by (simp add: can_create_def example_libs_def)

definition example_server :: "(nat, unit, unit) server" where
  "example_server = (new_server () 1 (AF_INET 10000 1))\<lparr>
     sv_sessions := [(str ''ab'', 0)], sv_session := [new_WebRTCSession (example_wt\<lparr>w_transport := False\<rparr>)]\<rparr>"

lemma example_server_inv: "server_inv example_libs example_muduo example_server"
proof -
  have "wt_inv example_libs (example_wt\<lparr>w_transport := False\<rparr>)" using example_wt_inv by (auto simp: wt_inv_def)
  moreover have "GetidentifyID example_wt = str ''ab''" "\<not> w_rtp_channel example_wt"
    by (simp_all add: GetidentifyID_def example_wt_def example_ice_def new_IceServer_def)
  ultimately show ?thesis using example_libs_ok example_can_create
    by (simp add: server_inv_def example_server_def new_server_def map_ok_def session_inv_def new_WebRTCSession_def)
qed

lemma received_check_ufrag: "takeWhile (\<lambda>x. x \<noteq> 58) (p_username received_check) = str ''ab''"
  by (simp add: received_check_def reparsed_def sent_def example_check_def new_StunPacket_def str_def)



text \<open>C8: What the listening socket does with any datagram. A datagram that is not a STUN packet the parser accepts, or whose
  username up to the first colon is not the username fragment of a session, changes nothing. Otherwise the session
  is bound to the connection of the sender: the one there was for its address, or a new one; it becomes ready,
  runs in the loop of the connection and gets its packets, and a copy of the datagram waits for its transport. Nothing else
  about the sessions changes.\<close>

theorem listener_routes:
  assumes "server_inv l mu sv" and "len \<le> length buf" and "len < 65536"
  shows "\<exists>r. Parse buf len = Inr r \<and>
    (case r of
       None \<Rightarrow> HandlePacket mu buf len addr sv = Inr (sv, [])
     | Some pkt \<Rightarrow>
         (case GetWebRTCSession (takeWhile (\<lambda>x. x \<noteq> 58) (p_username pkt)) sv of
            None \<Rightarrow> HandlePacket mu buf len addr sv = Inr (sv, [])
          | Some sid \<Rightarrow>
              (\<exists>sv' c. HandlePacket mu buf len addr sv = Inr (sv', [Input_task sid (take len buf) len addr]) \<and>
                 map_of (sv_connections sv') (toIpPort mu addr) = Some c \<and>
                 (\<forall>d. map_of (sv_connections sv) (toIpPort mu addr) = Some d \<longrightarrow> c = d) \<and>
                 c_callback (sv_connection sv' ! c) = Some sid \<and> sv_sessions sv' = sv_sessions sv \<and>
                 sv_session sv' = (sv_session sv)[sid := (sv_session sv ! sid)\<lparr>s_network := Some c,
                   s_transport := SetNetworkTransport (s_transport (sv_session sv ! sid)),
                   s_loop := Some (c_loop (sv_connection sv' ! c)), s_is_ready := True\<rparr>])))"
proof -
  obtain stun r where p: "IsStun buf len = Inr stun" "Parse buf len = Inr r"
    using classifiers_total(1) [OF assms(2)] Parse_total [OF assms(2,3)] by blast
  have "sid < length (sv_session sv)" if "GetWebRTCSession k sv = Some sid" for k sid
    using server_inv_session [OF assms(1)] that by (simp add: GetWebRTCSession_def)
  then show ?thesis using bind_session_effect [OF assms(1)] bind_session_ok(2) [OF assms(1)] assms(2)
    by (auto simp: HandlePacket_eq [OF p] p(2) ufrag_of_def split: option.split)
qed

theorem listener_routes_witness:
  "\<exists>buf sv' c. Parse buf 72 = Inr (Some received_check) \<and>
    HandlePacket example_muduo buf 72 (AF_INET 5000 1) example_server = Inr (sv', [Input_task 0 (take 72 buf) 72 (AF_INET 5000 1)]) \<and>
    map_of (sv_connections sv') (toIpPort example_muduo (AF_INET 5000 1)) = Some c \<and> c_callback (sv_connection sv' ! c) = Some 0"
proof -
  obtain buf where b: "Parse buf 72 = Inr (Some received_check)" "72 \<le> length buf" using received_check_parsed by blast
  have g: "GetWebRTCSession (str ''ab'') example_server = Some 0" by (simp add: GetWebRTCSession_def example_server_def)
  from listener_routes [OF example_server_inv b(2), of "AF_INET 5000 1"] b(1) show ?thesis
    by (auto simp: received_check_ufrag g)
qed

text \<open>C13: The binding happens before any authentication: any parsed STUN packet, without a valid message integrity, from any
  address, that names the username fragment of a session takes over its output. The next media packet of the
  session goes to the sender of that packet, although the transport still has the peer ICE selected and its keys.\<close>

theorem session_hijack:
  assumes "server_inv l mu sv" and "len \<le> length buf" and "len < 65536" and "Parse buf len = Inr (Some pkt)"
    and "GetWebRTCSession (takeWhile (\<lambda>x. x \<noteq> 58) (p_username pkt)) sv = Some sid" and "n \<le> length media"
  shows "\<exists>sv' ts sv'' os peer bs. HandlePacket mu buf len attacker sv = Inr (sv', ts) \<and>
    s_transport (sv_session sv' ! sid) = SetNetworkTransport (s_transport (sv_session sv ! sid)) \<and>
    send_to_session l sid media n sv' = Inr (sv'', os) \<and> deliver sv'' sid os = Inr [(peer, bs)] \<and>
    toIpPort mu peer = toIpPort mu attacker"
proof -
  let ?sv = "bind_session mu sid attacker sv"
  have sid: "sid < length (sv_session sv)" using server_inv_session [OF assms(1)] assms(5) by (simp add: GetWebRTCSession_def)
  obtain stun where st: "IsStun buf len = Inr stun" using classifiers_total(1) [OF assms(2)] by blast
  have h: "HandlePacket mu buf len attacker sv = Inr (?sv, [Input_task sid (take len buf) len attacker])"
    using assms(2,5) by (simp add: HandlePacket_eq [OF st assms(4)] ufrag_of_def)
  obtain c where c: "map_of (sv_connections ?sv) (toIpPort mu attacker) = Some c" "s_network (sv_session ?sv ! sid) = Some c"
    "s_transport (sv_session ?sv ! sid) = SetNetworkTransport (s_transport (sv_session sv ! sid))"
    using bind_session_effect [OF assms(1) sid, of attacker] sid by auto
  note ok = bind_session_ok [OF assms(1) sid, where addr = attacker]
  have "toIpPort mu (c_peer (sv_connection ?sv ! c)) = toIpPort mu attacker"
    using server_inv_connection [OF ok(1) c(1)] server_inv_connection_ok [OF ok(1), of c] by (simp add: connection_ok_def)
  with media_to_bound_peer [OF ok(1,4) c(2) assms(6)] h c(3) show ?thesis by metis
qed

theorem session_hijack_witness:
  "\<exists>buf sv' ts sv'' os peer bs. Parse buf 72 = Inr (Some received_check) \<and>
    HandlePacket example_muduo buf 72 (AF_INET 6000 9) example_server = Inr (sv', ts) \<and>
    send_to_session example_libs 0 [1, 2, 3] 3 sv' = Inr (sv'', os) \<and> deliver sv'' 0 os = Inr [(peer, bs)] \<and>
    toIpPort example_muduo peer = toIpPort example_muduo (AF_INET 6000 9)"
proof -
  obtain buf where b: "Parse buf 72 = Inr (Some received_check)" "72 \<le> length buf" using received_check_parsed by blast
  have "GetWebRTCSession (takeWhile (\<lambda>x. x \<noteq> 58) (p_username received_check)) example_server = Some 0"
    by (simp add: GetWebRTCSession_def example_server_def received_check_ufrag)
  from session_hijack [OF example_server_inv b(2) _ b(1) this, of 3 "[1, 2, 3]" "AF_INET 6000 9"] b(1) show ?thesis by auto
qed

text \<open>C23: The registry of sessions. A new session has its username fragment as key; if the fragment is new the session is found under
  it, and if an older session has the same fragment, that one stays and the new session cannot be found at all. Other keys are
  not affected, nor are the ready sessions, which are listed without repetition and are those that can be found and
  are bound to a connection.\<close>

theorem session_registry:
  assumes "server_inv l mu sv" and "length stun_buffer = StunSerializeBufferSize"
  shows "\<exists>sid sv'. CreateWebRTCSession l stun_buffer order ip port sv = Inr (sid, sv') \<and> server_inv l mu sv' \<and>
    (\<forall>key. GetWebRTCSession key sv' =
       (if key = GetidentifyID (s_transport (sv_session sv' ! sid)) \<and> GetWebRTCSession key sv = None then Some sid
        else GetWebRTCSession key sv)) \<and>
    (\<forall>key. GetWebRTCSession key sv \<noteq> Some sid) \<and>
    GetAllReadyWebRTCSession sv' [] = GetAllReadyWebRTCSession sv [] \<and> distinct (GetAllReadyWebRTCSession sv []) \<and>
    set (GetAllReadyWebRTCSession sv []) = {i. \<exists>key. GetWebRTCSession key sv = Some i \<and> s_is_ready (sv_session sv ! i)}"
proof -
  let ?n = "length (sv_session sv)"
  obtain w seed sv' where c: "CreateWebRTCSession l stun_buffer order ip port sv = Inr (?n, sv')" "server_inv l mu sv'"
    and sv': "sv' = sv\<lparr>sv_seed := seed, sv_session := sv_session sv @ [new_WebRTCSession w],
        sv_sessions := map_insert (GetidentifyID w) ?n (sv_sessions sv)\<rparr>"
    using CreateWebRTCSession_ok [OF assms, of order ip port] by blast
  note m = server_inv_parts(3) [OF assms(1)]
  have range: "\<And>key i. map_of (sv_sessions sv) key = Some i \<Longrightarrow> i < ?n" using server_inv_session [OF assms(1)] by blast
  have found: "i \<in> snd ` set (sv_sessions sv) \<longleftrightarrow> (\<exists>key. map_of (sv_sessions sv) key = Some i)" for i
    using m by (force simp: map_ok_def strict_sorted_iff)
  have "filter P (map snd (map_insert (GetidentifyID w) ?n (sv_sessions sv))) = filter P (map snd (sv_sessions sv))" if "\<not> P ?n" for P
    using filter_map_insert map_insert_present [OF m] that by metis
  then have "GetAllReadyWebRTCSession sv' [] = GetAllReadyWebRTCSession sv []"
    using range found
    by (auto simp: GetAllReadyWebRTCSession_def sv' new_WebRTCSession_def nth_append intro!: filter_cong)
  moreover have "distinct (map snd (sv_sessions sv))"
  proof -
    have "map fst (sv_sessions sv) = map (\<lambda>i. GetidentifyID (s_transport (sv_session sv ! i))) (map snd (sv_sessions sv))"
      using m server_inv_session [OF assms(1)] by (auto simp: map_ok_def strict_sorted_iff)
    moreover have "distinct (map fst (sv_sessions sv))" using m by (simp add: map_ok_def strict_sorted_iff)
    ultimately show ?thesis by (metis distinct_map)
  qed
  then have "distinct (GetAllReadyWebRTCSession sv [])" by (simp add: GetAllReadyWebRTCSession_def)
  moreover have "set (GetAllReadyWebRTCSession sv []) = {i. \<exists>key. GetWebRTCSession key sv = Some i \<and> s_is_ready (sv_session sv ! i)}"
    using found by (auto simp: GetAllReadyWebRTCSession_def GetWebRTCSession_def)
  ultimately show ?thesis using c range
    by (intro exI [of _ ?n] exI [of _ sv']) (auto simp: sv' GetWebRTCSession_def map_of_insert [OF m] new_WebRTCSession_def)
qed

theorem session_registry_witness:
  "\<exists>sid sv'. CreateWebRTCSession example_libs (replicate StunSerializeBufferSize 0) True (str ''10.0.0.1'') 10000 example_server = Inr (sid, sv') \<and>
    GetWebRTCSession (str ''ab'') sv' = Some 0 \<and> GetAllReadyWebRTCSession sv' [] = []"
proof -
  have g: "GetWebRTCSession (str ''ab'') example_server = Some 0" "GetAllReadyWebRTCSession example_server [] = []"
    by (simp_all add: GetWebRTCSession_def example_server_def GetAllReadyWebRTCSession_def new_WebRTCSession_def)
  from session_registry [OF example_server_inv, of "replicate StunSerializeBufferSize 0" True "str ''10.0.0.1''" 10000]
  show ?thesis by (simp only: length_replicate g option.distinct if_False simp_thms) (metis g option.distinct(1))
qed

text \<open>C24: A session of the publishing example has an RTP channel from the start, but no SRTP session before the handshake ends.
  Once a STUN packet has bound it to a connection, the first datagram on that connection that looks like RTP makes the
  transport dereference a null pointer: a publisher, or anybody who sends from its address, that sends media too early
  ends the process.\<close>

theorem publish_early_rtp:
  assumes "publish_http l fps stun_buffer order ip port (str ''/webrtc'') sv = Inr (Some sdp, sv')"
    and "c < length (sv_connection sv')" and "length buf = 4096" and "len \<le> 4096" and "IsRtpPacket buf len = Inr True"
  shows "\<exists>sid < length (sv_session sv').
    UdpConnection_HandleRead l c buf (int len) addr (WebRTCSession_SetNetworkTransport sid c sv') = Inl NullDeref"
proof -
  obtain sid sv1 where c: "CreateWebRTCSession l stun_buffer order ip port sv = Inr (sid, sv1)"
    and sv': "sv' = sv1\<lparr>sv_session := (sv_session sv1)[sid := (sv_session sv1 ! sid)\<lparr>s_transport := SetRTPChannel (s_transport (sv_session sv1 ! sid))\<rparr>]\<rparr>"
    using assms(1) by (auto simp: publish_http_def Let_def)
  obtain w seed where w: "new_WebRtcTransport l stun_buffer order ip port (sv_seed sv) = Inr (w, seed)" "sid = length (sv_session sv)"
    "sv_session sv1 = sv_session sv @ [new_WebRTCSession w]"
    using c by (auto simp: CreateWebRTCSession_def Let_def)
  have "w_srtp w = None" using w(1) by (auto simp: new_WebRtcTransport_def Let_def split_beta)
  then have t: "sid < length (sv_session sv')" "w_rtp_channel (s_transport (sv_session sv' ! sid))" "w_srtp (s_transport (sv_session sv' ! sid)) = None"
    using w(2,3) by (simp_all add: sv' SetRTPChannel_def new_WebRTCSession_def)
  let ?sv = "WebRTCSession_SetNetworkTransport sid c sv'"
  have "w_rtp_channel (s_transport (sv_session ?sv ! sid))" "w_srtp (s_transport (sv_session ?sv ! sid)) = None"
    "c_callback (sv_connection ?sv ! c) = Some sid"
    using t assms(2) by (simp_all add: WebRTCSession_SetNetworkTransport_def SetNetworkTransport_def Let_def)
  moreover have "len \<le> length buf" "recv_len (int len) = len" using assms(3,4) by (simp_all add: recv_len_def)
  ultimately have "UdpConnection_HandleRead l c buf (int len) addr ?sv = Inl NullDeref"
    by (simp add: UdpConnection_HandleRead_def on_connection_packet_def early_rtp_faults [OF _ assms(5)] del: rbind_eq_Inr)
  with t(1) show ?thesis by blast
qed

theorem publish_early_rtp_witness:
  "\<exists>sdp sv' sid. publish_http example_libs [] (replicate StunSerializeBufferSize 0) True (str ''10.0.0.1'') 10000 (str ''/webrtc'')
      (example_server\<lparr>sv_connection := [new_UdpConnection 0 (str ''a'') (AF_INET 10000 1) (AF_INET 5000 1)]\<rparr>) = Inr (Some sdp, sv') \<and>
    sid < length (sv_session sv') \<and>
    UdpConnection_HandleRead example_libs 0 (0x80 # replicate 4095 0) 12 (AF_INET 5000 1) (WebRTCSession_SetNetworkTransport sid 0 sv') = Inl NullDeref"
proof -
  let ?sv = "example_server\<lparr>sv_connection := [new_UdpConnection 0 (str ''a'') (AF_INET 10000 1) (AF_INET 5000 1)]\<rparr>"
  obtain w seed where w: "new_WebRtcTransport example_libs (replicate StunSerializeBufferSize 0) True (str ''10.0.0.1'') 10000 1 = Inr (w, seed)"
    using new_example_transport by (auto simp: new_WebRtcTransport_def example_libs_def Let_def split_beta)
  then obtain sdp where "GetPublishSdp [] w = Inr sdp"
    using sdp_length [of w "[]"] by (auto simp: new_WebRtcTransport_credentials [OF w] str_def)
  then obtain sv' where p: "publish_http example_libs [] (replicate StunSerializeBufferSize 0) True (str ''10.0.0.1'') 10000 (str ''/webrtc'') ?sv = Inr (Some sdp, sv')"
    "sv_connection sv' = sv_connection ?sv"
    using w by (auto simp: publish_http_def CreateWebRTCSession_def example_server_def new_server_def new_WebRTCSession_def Let_def nth_append)
  have "IsRtpPacket (0x80 # replicate 4095 0) 12 = Inr True"
    by (simp add: IsRtpPacket_def kMinRtpPacketLen_def HasCorrectRtpVersion_def kRtpVersion_def PayloadTypeIsReservedForRtcp_def rd_def)
  from publish_early_rtp [OF p(1) _ _ _ this, of 0 "AF_INET 5000 1"] p show ?thesis by auto
qed

end
