(* ===== verification/Sdp.thy ===== *)
theory Sdp
  imports Session TransportProofs "HOL-Library.Sublist"
begin

text \<open>
  The session descriptions of \<open>WebRtcTransport::GetLocalSdp\<close> and \<open>GetPublishSdp\<close> (rtc/webrtc_transport.cc), read the way
  a browser reads them: as lines that end in CRLF, each of which may start with the name of an attribute. The
  reader is the specification; the printer is the model of the code. Together they show that what the program
  prints gives a peer the credentials, the certificate fingerprint and the address of the transport.
\<close>

section \<open>A reader of session descriptions\<close>

definition strip_cr :: "bytes \<Rightarrow> bytes" where
  "strip_cr l = (if l \<noteq> [] \<and> last l = 13 then butlast l else l)"

definition sdp_lines :: "bytes \<Rightarrow> bytes list" where
  "sdp_lines sdp = map strip_cr (split_on 10 sdp)"

text \<open>The values of all lines that start with a given text.\<close>

definition sdp_values :: "string \<Rightarrow> bytes \<Rightarrow> bytes list" where
  "sdp_values key sdp = map (drop (length key)) (filter (prefix (str key)) (sdp_lines sdp))"

definition decimal_value :: "bytes \<Rightarrow> nat" where
  "decimal_value ds = foldl (\<lambda>a d. 10 * a + unat (d - 48)) 0 ds"

text \<open>What a peer takes from a description: the username fragment, the password, the fingerprint of the certificate, and the
  address and the port of the candidate.\<close>

record peer_view =
  v_ufrag :: bytes
  v_pwd :: bytes
  v_fingerprint :: bytes
  v_ip :: bytes
  v_port :: nat

definition read_candidate :: "bytes \<Rightarrow> (bytes \<times> nat) option" where
  "read_candidate value =
     (case split_on 32 value of
        [foundation, component, protocol, priority, ip, port, typ, kind] \<Rightarrow>
          if protocol = str ''udp'' \<and> typ = str ''typ'' \<and> kind = str ''host'' then Some (ip, decimal_value port) else None
      | _ \<Rightarrow> None)"

definition read_sdp :: "bytes \<Rightarrow> peer_view option" where
  "read_sdp sdp =
     (case (sdp_values ''a=ice-ufrag:'' sdp, sdp_values ''a=ice-pwd:'' sdp, sdp_values ''a=fingerprint:sha-256 '' sdp,
            sdp_values ''a=candidate:'' sdp) of
        ([ufrag], [pwd], [fp], [candidate]) \<Rightarrow>
          (case read_candidate candidate of
             Some (ip, port) \<Rightarrow> Some \<lparr>v_ufrag = ufrag, v_pwd = pwd, v_fingerprint = fp, v_ip = ip, v_port = port\<rparr>
           | None \<Rightarrow> None)
      | _ \<Rightarrow> None)"

section \<open>Reading what was printed\<close>

definition print_lines :: "bytes list \<Rightarrow> bytes" where
  "print_lines ls = concat (map (\<lambda>l. l @ crlf) ls)"

lemma print_lines_simps [simp]:
  "print_lines [] = []"
  "print_lines (l # ls) = l @ crlf @ print_lines ls"
  "print_lines (ls @ ms) = print_lines ls @ print_lines ms"
  by (simp_all add: print_lines_def)

lemma split_on_append: "c \<notin> set l \<Longrightarrow> split_on c (l @ c # s) = l # split_on c s"
  by (induction l) auto

lemma split_on_none: "c \<notin> set l \<Longrightarrow> split_on c l = [l]"
  by (induction l) auto

lemma sdp_lines_print: "\<forall>l \<in> set ls. 10 \<notin> set l \<Longrightarrow> sdp_lines (print_lines ls) = ls @ [[]]"
proof (induction ls)
  case (Cons l ls)
  have "split_on 10 (l @ 13 # 10 # print_lines ls) = (l @ [13]) # split_on 10 (print_lines ls)"
    using split_on_append [of 10 "l @ [13]"] Cons.prems by simp
  with Cons show ?case by (simp add: sdp_lines_def crlf_def strip_cr_def)
qed (simp add: sdp_lines_def strip_cr_def)

lemma decimal_value_append: "decimal_value (ds @ [d]) = 10 * decimal_value ds + unat (d - 48)"
  by (simp add: decimal_value_def)

lemma unat_digit: "n < 10 \<Longrightarrow> unat (word_of_nat (48 + n) - 48 :: byte) = n"
  by (simp add: unat_of_nat)

lemma decimal_value_digits: "decimal_value (decimal_digits n) = n"
proof (induction n rule: decimal_digits.induct)
  case (1 n)
  show ?case
  proof (cases "n < 10")
    case True
    then show ?thesis using unat_digit [of n] by (subst decimal_digits.simps) (simp add: decimal_value_def)
  next
    case False
    then show ?thesis using 1 unat_digit [of "n mod 10"] by (subst decimal_digits.simps) (simp add: decimal_value_append)
  qed
qed

lemma decimal_digits_range: "set (decimal_digits n) \<subseteq> {48..57}"
proof (induction n rule: decimal_digits.induct)
  case (1 n)
  have "word_of_nat (48 + k) \<in> {48 .. 57 :: byte}" if "k < 10" for k
    using that by (simp add: word_le_nat_alt unat_of_nat del: of_nat_add)
  from this [of n] this [of "n mod 10"] 1 show ?case by (subst decimal_digits.simps) auto
qed

text \<open>Text that fits on a line: no zero, no line break.\<close>

definition line_text :: "bytes \<Rightarrow> bool" where
  "line_text s \<longleftrightarrow> 0 \<notin> set s \<and> 10 \<notin> set s \<and> 13 \<notin> set s"

lemma cstr_line_text [simp]: "line_text s \<Longrightarrow> cstr s = s"
  by (auto simp: cstr_def line_text_def takeWhile_eq_all_conv)

lemma line_text_digits: "line_text (decimal_digits n)"
  using decimal_digits_range [of n] by (auto simp: line_text_def subset_iff)

definition candidate_text :: "('ssl, 'ss) webrtc_transport \<Rightarrow> bytes" where
  "candidate_text w = str ''4 1 udp '' @ decimal_digits 12345678 @ str '' '' @ w_ip w @ str '' '' @
     decimal_digits (unat (w_port w)) @ str '' typ host''"

lemma read_candidate_text:
  assumes "32 \<notin> set (w_ip w)"
  shows "read_candidate (candidate_text w) = Some (w_ip w, unat (w_port w))"
proof -
  have d: "32 \<notin> set (decimal_digits n)" for n using decimal_digits_range [of n] by (auto simp: subset_iff)
  have "split_on 32 (candidate_text w) = split_on 32 ([52] @ 32 # [49] @ 32 # str ''udp'' @ 32 # decimal_digits 12345678 @ 32 # w_ip w @ 32 #
      decimal_digits (unat (w_port w)) @ 32 # str ''typ'' @ 32 # str ''host'')"
    by (simp only: candidate_text_def) (simp add: str_def del: split_on.simps)
  then have "split_on 32 (candidate_text w) =
      [[52], [49], str ''udp'', decimal_digits 12345678, w_ip w, decimal_digits (unat (w_port w)), str ''typ'', str ''host'']"
    using assms d by (simp add: split_on_append split_on_none str_def)
  then show ?thesis by (simp add: read_candidate_def decimal_value_digits del: split_on.simps)
qed

text \<open>The descriptions as lists of lines.\<close>

definition head_lines :: "string \<Rightarrow> ('ssl, 'ss) webrtc_transport \<Rightarrow> bytes list" where
  "head_lines direction w =
     [str ''v=0'', str ''o=- 1495799811084970 1495799811084970 IN IP4 '' @ w_ip w, str ''s=Streaming Test'', str ''t=0 0'',
      str ''a=group:BUNDLE 0'', str ''a=msid-semantic: WMS janus'', str ''m=video 1 RTP/SAVPF 96'', str ''c=IN IP4 '' @ w_ip w,
      str ''a=mid:0'', str ''a='' @ str direction, str ''a=rtcp-mux'']"

definition credential_lines :: "Fingerprint list \<Rightarrow> ('ssl, 'ss) webrtc_transport \<Rightarrow> bytes list" where
  "credential_lines fps w =
     [str ''a=ice-ufrag:'' @ i_usernameFragment (w_ice w), str ''a=ice-pwd:'' @ i_password (w_ice w), str ''a=ice-options:trickle'',
      str ''a=fingerprint:sha-256 '' @ GetSHA256Fingerprint fps, str ''a=setup:actpass'', str ''a=connection:new'',
      str ''a=rtpmap:96 H264/90000'']"

definition media_lines :: "bytes list" where
  "media_lines = map (\<lambda>s. str ''a=ssrc:'' @ decimal_digits 12345678 @ str s)
     ['' cname:janusvideo'', '' msid:janus janusv0'', '' mslabel:janus'', '' label:janusv0'']"

definition printable :: "Fingerprint list \<Rightarrow> ('ssl, 'ss) webrtc_transport \<Rightarrow> bool" where
  "printable fps w \<longleftrightarrow>
     line_text (w_ip w) \<and> line_text (i_usernameFragment (w_ice w)) \<and> line_text (i_password (w_ice w)) \<and> line_text (GetSHA256Fingerprint fps)"

lemma printed_lines:
  assumes "printable fps w"
  shows "sdp_head direction w = print_lines (head_lines direction w)" "ice_lines fps w = print_lines (credential_lines fps w)"
    "ssrc_lines = print_lines media_lines" "candidate_line w = print_lines [str ''a=candidate:'' @ candidate_text w]"
  using assms
  by (simp_all add: printable_def sdp_head_def head_lines_def ice_lines_def credential_lines_def ssrc_lines_def media_lines_def
      candidate_line_def candidate_text_def str_def)

lemma one_line:
  assumes "printable fps w" and "direction = ''sendonly'' \<or> direction = ''recvonly''"
  shows "l \<in> set (head_lines direction w) \<union> set (credential_lines fps w) \<union> set media_lines \<Longrightarrow> 10 \<notin> set l"
    "10 \<notin> set (str ''a=candidate:'' @ candidate_text w)"
  using assms line_text_digits
  by (auto simp: printable_def line_text_def head_lines_def credential_lines_def media_lines_def candidate_text_def str_def)

text \<open>No line of the other groups starts with one of the four attribute names.\<close>

lemma filter_groups:
  assumes "key \<in> {''a=ice-ufrag:'', ''a=ice-pwd:'', ''a=fingerprint:sha-256 '', ''a=candidate:''}"
    and "direction = ''sendonly'' \<or> direction = ''recvonly''"
  shows "filter (prefix (str key)) (head_lines direction w) = []" "filter (prefix (str key)) media_lines = []"
  using assms by (auto simp: head_lines_def media_lines_def str_def)

lemma filter_credentials:
  "filter (prefix (str ''a=ice-ufrag:'')) (credential_lines fps w) = [str ''a=ice-ufrag:'' @ i_usernameFragment (w_ice w)]"
  "filter (prefix (str ''a=ice-pwd:'')) (credential_lines fps w) = [str ''a=ice-pwd:'' @ i_password (w_ice w)]"
  "filter (prefix (str ''a=fingerprint:sha-256 '')) (credential_lines fps w) = [str ''a=fingerprint:sha-256 '' @ GetSHA256Fingerprint fps]"
  "filter (prefix (str ''a=candidate:'')) (credential_lines fps w) = []"
  by (simp_all add: credential_lines_def str_def)

lemma filter_candidate:
  "key \<in> {''a=ice-ufrag:'', ''a=ice-pwd:'', ''a=fingerprint:sha-256 ''} \<Longrightarrow> \<not> prefix (str key) (str ''a=candidate:'' @ t)"
  "\<not> prefix (str key) [] \<longleftrightarrow> key \<noteq> []"
  by (auto simp: str_def)

definition view_of :: "Fingerprint list \<Rightarrow> ('ssl, 'ss) webrtc_transport \<Rightarrow> peer_view" where
  "view_of fps w = \<lparr>v_ufrag = i_usernameFragment (w_ice w), v_pwd = i_password (w_ice w), v_fingerprint = GetSHA256Fingerprint fps,
     v_ip = w_ip w, v_port = unat (w_port w)\<rparr>"

lemma read_sdp_printed:
  assumes p: "printable fps w" "32 \<notin> set (w_ip w)" and d: "direction = ''sendonly'' \<or> direction = ''recvonly''"
    and m: "ms = [] \<or> ms = media_lines"
  shows "read_sdp (print_lines (head_lines direction w @ credential_lines fps w @ ms @ [str ''a=candidate:'' @ candidate_text w])) =
    Some (view_of fps w)" (is "read_sdp (print_lines ?ls) = _")
proof -
  have ls: "sdp_lines (print_lines ?ls) = ?ls @ [[]]"
    using one_line [OF p(1) d] m by (intro sdp_lines_print) auto
  have f: "filter (prefix (str key)) ms = []" if "key \<in> {''a=ice-ufrag:'', ''a=ice-pwd:'', ''a=fingerprint:sha-256 '', ''a=candidate:''}" for key
    using filter_groups(2) [OF that d] m by auto
  have "sdp_values ''a=ice-ufrag:'' (print_lines ?ls) = [i_usernameFragment (w_ice w)]"
    "sdp_values ''a=ice-pwd:'' (print_lines ?ls) = [i_password (w_ice w)]"
    "sdp_values ''a=fingerprint:sha-256 '' (print_lines ?ls) = [GetSHA256Fingerprint fps]"
    "sdp_values ''a=candidate:'' (print_lines ?ls) = [candidate_text w]"
    unfolding sdp_values_def ls
    by (simp_all add: f filter_groups [OF _ d] filter_credentials filter_candidate) (simp_all add: str_def)
  then show ?thesis by (simp add: read_sdp_def read_candidate_text [OF p(2)] view_of_def)
qed

lemma credentials_alphabet:
  assumes "new_WebRtcTransport l buffer order ip port seed = Inr (w, seed')"
  shows "set (i_usernameFragment (w_ice w)) \<subseteq> set random_chars" "set (i_password (w_ice w)) \<subseteq> set random_chars" "w_port w = port"
proof -
  have r: "set (fst (GetRandomString len sd)) \<subseteq> set random_chars" for len sd
    by (simp add: GetRandomString_def random_fill_ok)
  show "set (i_usernameFragment (w_ice w)) \<subseteq> set random_chars" "set (i_password (w_ice w)) \<subseteq> set random_chars" "w_port w = port"
    using assms by (auto intro: subsetD [OF r] simp: new_WebRtcTransport_def new_credentials_def new_IceServer_def Let_def split_beta split: if_splits)
qed

lemma alphabet_line_text: "set s \<subseteq> set random_chars \<Longrightarrow> line_text s \<and> 58 \<notin> set s"
proof -
  have "0 \<notin> set random_chars" "10 \<notin> set random_chars" "13 \<notin> set random_chars" "58 \<notin> set random_chars"
    by (simp_all add: random_chars_def str_def)
  then show "set s \<subseteq> set random_chars \<Longrightarrow> line_text s \<and> 58 \<notin> set s" by (auto simp: line_text_def)
qed

definition fingerprints_ok :: "Fingerprint list \<Rightarrow> bool" where
  "fingerprints_ok fps \<longleftrightarrow> (\<forall>f \<in> set fps. length (fp_value f) \<le> 192 \<and> line_text (fp_value f))"

lemma sha256_line_text: "fingerprints_ok fps \<Longrightarrow> line_text (GetSHA256Fingerprint fps)"
  unfolding GetSHA256Fingerprint_def by (induction fps) (auto simp: fingerprints_ok_def line_text_def)

lemma new_transport_printable:
  assumes "new_WebRtcTransport l buffer order ip port seed = Inr (w, seed')" "line_text ip" "fingerprints_ok fps"
  shows "printable fps w"
  using assms(2,3) credentials_alphabet [OF assms(1)] new_WebRtcTransport_credentials(3) [OF assms(1)]
  by (simp add: printable_def alphabet_line_text sha256_line_text)

lemma new_transport_sdp:
  assumes w: "new_WebRtcTransport l buffer order ip port seed = Inr (w, seed')" and fps: "fingerprints_ok fps"
    and ip: "line_text ip" "32 \<notin> set ip" "length ip \<le> 3000"
  shows "\<exists>s t. GetLocalSdp fps w = Inr s \<and> GetPublishSdp fps w = Inr t \<and>
    read_sdp s = Some (view_of fps w) \<and> read_sdp t = Some (view_of fps w)"
proof -
  note c = new_WebRtcTransport_credentials [OF w]
  note p = new_transport_printable [OF w ip(1) fps]
  obtain s t where st: "GetLocalSdp fps w = Inr s" "GetPublishSdp fps w = Inr t"
    using sdp_length [of w fps] fps ip(3) by (auto simp: c fingerprints_ok_def)
  then have "s = print_lines (head_lines ''sendonly'' w @ credential_lines fps w @ media_lines @ [str ''a=candidate:'' @ candidate_text w])"
    "t = print_lines (head_lines ''recvonly'' w @ credential_lines fps w @ [] @ [str ''a=candidate:'' @ candidate_text w])"
    by (auto simp: GetLocalSdp_def GetPublishSdp_def sdp_buffer_def printed_lines [OF p] split: if_splits)
  then have "read_sdp s = Some (view_of fps w)" "read_sdp t = Some (view_of fps w)"
    using read_sdp_printed [OF p, of "''sendonly''" media_lines] read_sdp_printed [OF p, of "''recvonly''" "[]"] ip(2)
    by (simp_all only: c append_Nil simp_thms)
  with st show ?thesis by blast
qed

section \<open>Property\<close>

text \<open>C29: A session description says what a peer needs. With an IP string of at most 3000 characters that has no space and
  fits on a line, both descriptions of a new transport fit their arrays of 10240 bytes, and a reader gets back from either of
  them exactly the username fragment, the password, the SHA-256 fingerprint, the address and the port of the transport. With an
  IP string of 3500 characters or more (up to a zero) both overrun the array, since it is printed three times.\<close>

theorem sdp_roundtrip:
  assumes "new_WebRtcTransport l buffer order ip port seed = Inr (w, seed')" and "fingerprints_ok fps"
  shows "(line_text ip \<and> 32 \<notin> set ip \<and> length ip \<le> 3000 \<longrightarrow>
      (\<exists>s t. GetLocalSdp fps w = Inr s \<and> GetPublishSdp fps w = Inr t \<and> read_sdp s = read_sdp t \<and>
        read_sdp s = Some \<lparr>v_ufrag = i_usernameFragment (w_ice w), v_pwd = i_password (w_ice w),
          v_fingerprint = GetSHA256Fingerprint fps, v_ip = ip, v_port = unat port\<rparr>)) \<and>
    (length (cstr ip) \<ge> 3500 \<longrightarrow> GetLocalSdp fps w = Inl OutOfBounds \<and> GetPublishSdp fps w = Inl OutOfBounds)"
proof (intro conjI [OF impI impI])
  assume "line_text ip \<and> 32 \<notin> set ip \<and> length ip \<le> 3000"
  then show "\<exists>s t. GetLocalSdp fps w = Inr s \<and> GetPublishSdp fps w = Inr t \<and> read_sdp s = read_sdp t \<and>
        read_sdp s = Some \<lparr>v_ufrag = i_usernameFragment (w_ice w), v_pwd = i_password (w_ice w),
          v_fingerprint = GetSHA256Fingerprint fps, v_ip = ip, v_port = unat port\<rparr>"
    using new_transport_sdp [OF assms] credentials_alphabet(3) [OF assms(1)] new_WebRtcTransport_credentials(3) [OF assms(1)]
    by (auto simp: view_of_def)
next
  assume "length (cstr ip) \<ge> 3500"
  then show "GetLocalSdp fps w = Inl OutOfBounds \<and> GetPublishSdp fps w = Inl OutOfBounds"
    using sdp_length [of w fps] assms(2) by (simp add: new_WebRtcTransport_credentials [OF assms(1)] fingerprints_ok_def)
qed

theorem sdp_roundtrip_witness:
  "\<exists>w seed s. new_WebRtcTransport example_libs (replicate 10 0) True (str ''10.0.0.1'') 10000 1 = Inr (w, seed) \<and>
    GetLocalSdp [\<lparr>fp_algorithm = SHA256, fp_value = str ''AB:07''\<rparr>] w = Inr s \<and>
    read_sdp s = Some \<lparr>v_ufrag = i_usernameFragment (w_ice w), v_pwd = i_password (w_ice w),
      v_fingerprint = str ''AB:07'', v_ip = str ''10.0.0.1'', v_port = 10000\<rparr>"
proof -
  obtain w seed where w: "new_WebRtcTransport example_libs (replicate 10 0) True (str ''10.0.0.1'') 10000 1 = Inr (w, seed)"
    using new_example_transport by (auto simp: new_WebRtcTransport_def example_libs_def Let_def split_beta)
  have "fingerprints_ok [\<lparr>fp_algorithm = SHA256, fp_value = str ''AB:07''\<rparr>]" "line_text (str ''10.0.0.1'')" "32 \<notin> set (str ''10.0.0.1'')"
    "length (str ''10.0.0.1'') = 8"
    by (simp_all add: fingerprints_ok_def line_text_def str_def)
  with sdp_roundtrip [OF w this(1)] w show ?thesis
    by (auto simp: GetSHA256Fingerprint_def)
qed

end
