(* ===== verification/EndToEnd.thy ===== *)
theory EndToEnd
  imports Server Sdp
begin

text \<open>
  How a peer joins, through all components: the HTTP handler of an example program makes a session and answers with its
  session description; the peer reads it, sends a connectivity check under the credentials it found there to the UDP
  port; the listening socket routes the datagram to the session, the session's event loop gives it to the transport, and
  the reply leaves through the connection of the sender.
\<close>

section \<open>The peer\<close>

text \<open>The connectivity checks of a peer that has read the description: a Binding request, its username the fragment from the
  description, a colon and the peer's own fragment, protected with the password from the description.\<close>

definition check_for :: "peer_view \<Rightarrow> stun_packet \<Rightarrow> bool" where
  "check_for v pkt \<longleftrightarrow>
     serializable pkt \<and> serialized_size pkt \<le> 4096 \<and> p_klass pkt = REQUEST \<and> p_method pkt = BINDING \<and> p_errorCode pkt = 0 \<and>
     p_priority pkt \<noteq> 0 \<and> p_password pkt = v_pwd v \<and> (\<exists>rest. p_username pkt = v_ufrag v @ str '':'' @ rest)"

lemma check_for_connectivity_check:
  "check_for (view_of fps w) pkt \<Longrightarrow> i_password (w_ice w) \<noteq> [] \<Longrightarrow> connectivity_check w pkt"
  by (auto simp: check_for_def connectivity_check_def view_of_def)

section \<open>From a request to a session\<close>

text \<open>What a successful request leaves behind: a session without a network transport, found under its own fragment.\<close>

definition fresh_session :: "('ssl, 'ss) libs \<Rightarrow> 'pool muduo \<Rightarrow> ('ssl, 'ss, 'pool) server \<Rightarrow> nat \<Rightarrow> bool" where
  "fresh_session l mu sv sid \<longleftrightarrow>
     server_inv l mu sv \<and> sid < length (sv_session sv) \<and> w_remote (s_transport (sv_session sv ! sid)) = None \<and>
     length (i_password (w_ice (s_transport (sv_session sv ! sid)))) = 24 \<and>
     58 \<notin> set (i_usernameFragment (w_ice (s_transport (sv_session sv ! sid)))) \<and>
     GetWebRTCSession (i_usernameFragment (w_ice (s_transport (sv_session sv ! sid)))) sv = Some sid"

lemma created_session:
  assumes inv: "server_inv l mu sv" and b: "length stun_buffer = StunSerializeBufferSize"
    and new: "GetWebRTCSession (fst (fst (new_credentials order (sv_seed sv)))) sv = None"
  shows "\<exists>w seed sv'. new_WebRtcTransport l stun_buffer order ip port (sv_seed sv) = Inr (w, seed) \<and>
    CreateWebRTCSession l stun_buffer order ip port sv = Inr (length (sv_session sv), sv') \<and>
    s_transport (sv_session sv' ! length (sv_session sv)) = w \<and> fresh_session l mu sv' (length (sv_session sv))"
proof -
  let ?n = "length (sv_session sv)"
  obtain w seed where w: "new_WebRtcTransport l stun_buffer order ip port (sv_seed sv) = Inr (w, seed)"
    using server_inv_parts(2) [OF inv] by (auto simp: can_create_def new_WebRtcTransport_def Let_def split_beta)
  let ?sv = "sv\<lparr>sv_seed := seed, sv_session := sv_session sv @ [new_WebRTCSession w],
        sv_sessions := map_insert (GetidentifyID w) ?n (sv_sessions sv)\<rparr>"
  have c: "CreateWebRTCSession l stun_buffer order ip port sv = Inr (?n, ?sv)"
    by (simp add: CreateWebRTCSession_def w Let_def)
  have i: "server_inv l mu ?sv" using CreateWebRTCSession_ok [OF inv b, of order ip port] c by auto
  have u: "i_usernameFragment (w_ice w) = fst (fst (new_credentials order (sv_seed sv)))" "w_remote w = None"
    using w by (auto simp: new_WebRtcTransport_def new_IceServer_def Let_def split_beta)
  have "58 \<notin> set (i_usernameFragment (w_ice w))" using alphabet_line_text credentials_alphabet(1) [OF w] by blast
  moreover have "GetWebRTCSession (i_usernameFragment (w_ice w)) ?sv = Some ?n"
    using new u(1) by (simp add: GetWebRTCSession_def map_of_insert [OF server_inv_parts(3) [OF inv]] GetidentifyID_def)
  ultimately have "fresh_session l mu ?sv ?n"
    using i u(2) new_WebRtcTransport_credentials(2) [OF w] by (simp add: fresh_session_def new_WebRTCSession_def)
  then show ?thesis using w c by (intro exI [of _ w] exI [of _ seed] exI [of _ ?sv]) (simp add: new_WebRTCSession_def)
qed

section \<open>From a check to a running handshake\<close>

text \<open>The listening socket passes on a copy of the datagram without the rest of the receive buffer, which the parser
  accepts as it accepts the original.\<close>

lemma enc_message_take:
  assumes "serializable pkt" "serialized_size pkt \<le> length buffer"
  shows "enc_message lib pkt (take (serialized_size pkt) buffer) = enc_message lib pkt buffer"
proof -
  have "p_username pkt \<noteq> [] \<Longrightarrow> 24 + (length (p_username pkt) + pad_len pkt) \<le> serialized_size pkt"
    using usernamePaddedLen_facts(1) [of pkt] assms(1) by (simp add: serialized_size_def serializable_def)
  then have "enc_username pkt (drop 20 (take (serialized_size pkt) buffer)) = enc_username pkt (drop 20 buffer)"
    by (auto simp: enc_username_def drop_take min_def)
  then show ?thesis by (simp add: enc_message_def enc_body_def enc_attributes_def)
qed

lemma connectivity_check_copied:
  assumes c: "connectivity_check w pkt" and room: "serialized_size pkt \<le> length buffer" and lib: "hmac_ok lib"
  shows "\<exists>pkt' data q. Serialize lib pkt buffer = Inr pkt' \<and> p_data pkt' = Some data \<and> p_size pkt' = serialized_size pkt \<and>
    serialized_size pkt \<le> length data \<and> Parse data (p_size pkt') = Inr (Some (reparsed pkt')) \<and> p_username (reparsed pkt') = p_username pkt \<and>
    Parse (take (p_size pkt') data) (p_size pkt') = Inr (Some q) \<and> ice_decide lib (w_ice w) q = Accept True"
proof -
  let ?n = "serialized_size pkt"
  have s: "serializable pkt" using c by (simp add: connectivity_check_def)
  obtain pkt' data where p: "Serialize lib pkt buffer = Inr pkt'" "p_data pkt' = Some data" "p_size pkt' = ?n"
    "?n \<le> length data" "Parse data ?n = Inr (Some (reparsed pkt'))"
    using connectivity_check_accepted [OF c room lib] by auto
  obtain pkt2 data2 where p2: "Serialize lib pkt (take ?n buffer) = Inr pkt2" "p_data pkt2 = Some data2" "p_size pkt2 = ?n"
    "Parse data2 ?n = Inr (Some (reparsed pkt2))" "ice_decide lib (w_ice w) (reparsed pkt2) = Accept True"
    using connectivity_check_accepted [OF c _ lib, of "take ?n buffer"] room by auto
  have d: "data = enc_message lib pkt buffer @ drop ?n buffer" "p_username (reparsed pkt') = p_username pkt"
    using Serialize_eq [OF s room lib] p(1,2) by (auto simp: reparsed_def)
  moreover have "data2 = enc_message lib pkt buffer"
    using Serialize_eq [OF s _ lib, of "take ?n buffer"] room p2(1,2) enc_message_take [OF s room] by auto
  ultimately have "data2 = take ?n data" using length_enc_message(2) [OF s room lib] by simp
  with p p2 d(2) show ?thesis by auto
qed

lemma username_fragment: "58 \<notin> set u \<Longrightarrow> takeWhile (\<lambda>x. x \<noteq> 58) (u @ str '':'' @ rest) = u"
  by (induction u) (simp_all add: str_def)

text \<open>A connectivity check is served: it is serialized into a datagram, which the listening socket routes to a task for the session's
  loop; the task answers to the sender and leaves the session bound, with the sender as its peer and DTLS connecting
  as a server.\<close>

definition check_served ::
  "('ssl, 'ss) libs \<Rightarrow> 'pool muduo \<Rightarrow> ('ssl, 'ss, 'pool) server \<Rightarrow> nat \<Rightarrow> stun_packet \<Rightarrow> bytes \<Rightarrow> TransportTuple \<Rightarrow> bool" where
  "check_served l mu sv sid pkt buffer addr \<longleftrightarrow>
    (\<exists>pkt' data sv1 task sv2 os peer reply. Serialize (l_hmac l) pkt buffer = Inr pkt' \<and> p_data pkt' = Some data \<and>
    UdpServer_HandleRead (Some (HandlePacket mu)) data (int (p_size pkt')) addr sv = Inr (sv1, [task]) \<and>
    run_task l task sv1 = Inr (sv2, os) \<and> deliver sv2 sid os = Inr [(peer, reply)] \<and> toIpPort mu peer = toIpPort mu addr \<and>
    server_inv l mu sv2 \<and> is_bound sv2 sid \<and> w_remote (s_transport (sv_session sv2 ! sid)) = Some addr \<and>
    d_state (w_dtls (s_transport (sv_session sv2 ! sid))) = CONNECTING \<and>
    d_localRole (w_dtls (s_transport (sv_session sv2 ! sid))) = SERVER)"

lemma fresh_session_joins:
  assumes fresh: "fresh_session l mu sv sid" and check: "connectivity_check (s_transport (sv_session sv ! sid)) pkt"
    and room: "serialized_size pkt \<le> 4096" "length buffer = 4096"
  shows "check_served l mu sv sid pkt buffer addr"
proof -
  let ?w = "s_transport (sv_session sv ! sid)"
  have inv: "server_inv l mu sv" and sid: "sid < length (sv_session sv)" and none: "w_remote ?w = None"
    using fresh by (simp_all add: fresh_session_def)
  note lib = session_transport(1) [OF inv sid]
  obtain pkt' data q where p: "Serialize (l_hmac l) pkt buffer = Inr pkt'" "p_data pkt' = Some data" "p_size pkt' = serialized_size pkt"
    "serialized_size pkt \<le> length data" "Parse data (p_size pkt') = Inr (Some (reparsed pkt'))" "p_username (reparsed pkt') = p_username pkt"
    "Parse (take (p_size pkt') data) (p_size pkt') = Inr (Some q)" "ice_decide (l_hmac l) (w_ice ?w) q = Accept True"
    using connectivity_check_copied [OF check, of buffer "l_hmac l"] lib room by (auto simp: libs_ok_def)
  let ?n = "p_size pkt'"
  have len: "?n \<le> length data" "?n < 65536" "recv_len (int ?n) = ?n" using p(3,4) room(1) by (simp_all add: recv_len_def)
  obtain rest where user: "p_username pkt = i_usernameFragment (w_ice ?w) @ str '':'' @ rest"
    using check by (auto simp: connectivity_check_def)
  have g: "GetWebRTCSession (ufrag_of (reparsed pkt')) sv = Some sid"
    using fresh user p(6) by (simp add: ufrag_of_def username_fragment fresh_session_def)
  let ?sv1 = "bind_session mu sid addr sv"
  have h: "UdpServer_HandleRead (Some (HandlePacket mu)) data (int ?n) addr sv = Inr (?sv1, [Input_task sid (take ?n data) ?n addr])"
    using len(1) g by (simp add: UdpServer_HandleRead_def len(3) HandlePacket_eq [OF Parse_IsStun [OF p(5)] p(5)])
  note b = bind_session_ok [OF inv sid, where addr = addr]
  obtain c where c: "map_of (sv_connections ?sv1) (toIpPort mu addr) = Some c" "s_network (sv_session ?sv1 ! sid) = Some c"
    "s_transport (sv_session ?sv1 ! sid) = SetNetworkTransport ?w"
    using bind_session_effect [OF inv sid, of addr] sid by auto
  have sid1: "sid < length (sv_session ?sv1)" using b(4) by (simp add: is_bound_def)
  let ?w1 = "SetNetworkTransport ?w" and ?d = "take ?n data"
  have w1: "wt_inv l ?w1" "w_remote ?w1 = None" "w_transport ?w1" "ice_decide (l_hmac l) (w_ice ?w1) q = Accept True"
    using session_transport(2) [OF b(1) sid1] c(3) none p(8) by (simp_all add: SetNetworkTransport_def)
  have "?n \<le> length ?d" using len(1) by simp
  then obtain w' reply where w': "OnInputDataPacket l ?d ?n addr ?w1 = Inr (w', [SentPacket reply (Some addr)])"
    "w_remote w' = Some addr" "d_state (w_dtls w') = CONNECTING" "d_localRole (w_dtls w') = SERVER"
    using accepted_request_comes_up [OF lib w1(1) _ len(2) Parse_IsStun [OF p(7)] p(7) w1(4,2,3), of addr] by blast
  let ?sv2 = "?sv1\<lparr>sv_session := (sv_session ?sv1)[sid := (sv_session ?sv1 ! sid)\<lparr>s_transport := w'\<rparr>]\<rparr>"
  have r: "run_task l (Input_task sid ?d ?n addr) ?sv1 = Inr (?sv2, [SentPacket reply (Some addr)])"
    using w'(1) c(3) by (simp add: on_connection_packet_def)
  then have "server_inv l mu ?sv2" "is_bound ?sv2 sid"
    using on_connection_packet_ok [OF b(1) sid1 \<open>?n \<le> length ?d\<close> len(2), of addr] same_routes_bound b(4) by fastforce+
  moreover have "deliver ?sv2 sid [SentPacket reply (Some addr)] = Inr [(c_peer (sv_connection ?sv1 ! c), reply)]"
    using c(2) sid1 by (simp add: NetworkTransport_SendPacket_def)
  moreover have "toIpPort mu (c_peer (sv_connection ?sv1 ! c)) = toIpPort mu addr"
    using server_inv_connection [OF b(1) c(1)] server_inv_connection_ok [OF b(1), of c] by (simp add: connection_ok_def)
  moreover have "s_transport (sv_session ?sv2 ! sid) = w'" using sid1 by simp
  ultimately show ?thesis unfolding check_served_def using p(1,2) h r w'(2-4) by metis
qed

section \<open>Properties\<close>


definition example_join :: "peer_view \<Rightarrow> stun_packet" where
  "example_join v = (new_StunPacket REQUEST BINDING (replicate 12 7) None 0)
     \<lparr>p_username := v_ufrag v @ str '':x'', p_password := v_pwd v, p_priority := 1\<rparr>"

lemma example_join_ok: "length (v_ufrag v) = 4 \<Longrightarrow> check_for v (example_join v)"
proof -
  assume u: "length (v_ufrag v) = 4"
  have "unat (usernamePaddedLen (example_join v)) = 8"
    using u by (subst unat_usernamePaddedLen) (simp_all add: example_join_def new_StunPacket_def str_def)
  then have "serialized_size (example_join v) \<le> 4096"
    by (simp add: serialized_size_def example_join_def new_StunPacket_def addXorMappedAddress_def)
  then show ?thesis using u
    by (simp add: check_for_def serializable_def) (simp add: example_join_def new_StunPacket_def str_def)
qed


end
