(* ===== verification/MediaFlow.thy ===== *)
theory MediaFlow
  imports EndToEnd
begin

text \<open>
  From the end of the handshake to protected media, through the connection, the DTLS transport, the listener of the DTLS transport,
  the SRTP session and the network transport. What OpenSSL has to do for the handshake to end with a datagram is a
  predicate on the library; all steps of the program after it are derived.
\<close>

section \<open>A datagram that ends the handshake\<close>

text \<open>The information callback for the end of the handshake.\<close>

definition signals_done :: "'ssl ssl_lib \<Rightarrow> uint32 \<Rightarrow> bool" where
  "signals_done lib whr \<longleftrightarrow>
     whr AND SSL_CB_LOOP lib = 0 \<and> whr AND SSL_CB_ALERT lib = 0 \<and> whr AND SSL_CB_EXIT lib = 0 \<and>
     whr AND SSL_CB_HANDSHAKE_START lib = 0 \<and> whr AND SSL_CB_HANDSHAKE_DONE lib \<noteq> 0"

definition timeout_short :: "'ssl ssl_lib \<Rightarrow> 'ssl \<Rightarrow> bool" where
  "timeout_short lib ssl =
     (case DTLSv1_get_timeout lib ssl of (ret, sec, usec) \<Rightarrow> ret = 0 \<or> 0 \<le> sec \<and> sec < 30 \<and> 0 \<le> usec \<and> usec < 1000000)"

text \<open>The state of OpenSSL after the pending data were taken, and the data.\<close>

definition after_send :: "'ssl ssl_lib \<Rightarrow> 'ssl \<Rightarrow> 'ssl \<times> dtls_event list" where
  "after_send lib ssl =
     (if BIO_eof lib ssl \<or> fst (BIO_get_mem_data lib ssl) \<le> 0 then (ssl, [])
      else (BIO_reset lib ssl, [OnDtlsTransportSendData (take (nat (fst (BIO_get_mem_data lib ssl))) (snd (BIO_get_mem_data lib ssl)))]))"

text \<open>OpenSSL, given the datagram, reports the end of the handshake; an SRTP profile is selected, and no timer of 30 seconds or
  more runs. \<open>ssl'\<close> is its state then.\<close>

definition completes :: "'ssl ssl_lib \<Rightarrow> bytes \<Rightarrow> 'ssl \<Rightarrow> string \<Rightarrow> 'ssl \<Rightarrow> bool" where
  "completes lib received ssl name ssl' \<longleftrightarrow>
     (\<exists>r ssl1 cs. SSL_read lib SslReadBufferSize (BIO_write lib received ssl) = (r, ssl1, cs) \<and>
        (\<exists>c \<in> set cs. signals_done lib (fst c)) \<and> ssl' = fst (after_send lib ssl1)) \<and>
     SSL_get_selected_srtp_profile lib ssl' = Some name \<and> timeout_short lib ssl'"

lemma run_callbacks_eq:
  "run_callbacks lib cs t = t\<lparr>d_handshakeDoneNow := d_handshakeDoneNow t \<or> (\<exists>c \<in> set cs. signals_done lib (fst c))\<rparr>"
  by (induction lib cs t rule: run_callbacks.induct) (auto simp: OnSslInfo_def signals_done_def)

lemma SendPending_eq:
  "SendPendingOutgoingDtlsData lib t = (t\<lparr>d_ssl := fst (after_send lib (d_ssl t))\<rparr>, snd (after_send lib (d_ssl t)))"
  by (simp add: SendPendingOutgoingDtlsData_def after_send_def split_beta)

lemma SetTimeout_short:
  assumes "d_state t = CONNECTED" "timeout_short lib (d_ssl t)"
  shows "SetTimeout lib t = Inr (True, t, [])"
proof -
  obtain ret sec usec where g: "DTLSv1_get_timeout lib (d_ssl t) = (ret, sec, usec)" by (metis prod_cases3)
  show ?thesis
  proof (cases "ret = 0")
    case False
    then have b: "0 \<le> sec" "sec < 30" "0 \<le> usec" "usec < 1000000" using assms(2) g by (simp_all add: timeout_short_def)
    let ?n = "sec * 1000 + usec div 1000"
    have n: "0 \<le> ?n" "?n < 30000" using b by auto
    have "(word_of_int n :: uint64) < 30000" if "0 \<le> n" "n < 30000" for n
      using that by (simp add: word_less_iff_unsigned [where ?'a = int] uint_word_of_int_eq take_bit_int_eq_self)
    from this [OF n] have "(word_of_int ?n :: uint64) < 30000" .
    moreover define x where "x = (word_of_int sec * 1000 + word_of_int (usec div 1000) :: uint64)"
    ultimately have "x < 30000" by simp
    moreover have "(if 0 \<le> usec then usec div 1000 else - ((- usec) div 1000)) = usec div 1000" using b(3) by simp
    ultimately show ?thesis unfolding SetTimeout_def g Let_def prod.case by (simp only: x_def [symmetric]) (simp add: False assms(1))
  qed (simp add: SetTimeout_def assms(1) g)
qed

text \<open>The suite of a profile.\<close>

abbreviation suite_of :: "string \<Rightarrow> CryptoSuite" where
  "suite_of name \<equiv> find_suite name srtpCryptoSuites CryptoSuite.NONE"

lemma handshake_completes:
  assumes lib: "ssl_ok lib" and t: "d_state t = CONNECTING" "d_localRole t = SERVER" "\<not> d_handshakeDone t"
    and c: "completes lib (take len data) (d_ssl t) name ssl'" and len: "len \<le> length data"
  shows "\<exists>k s sends tail. srtp_lengths (suite_of name) = Inr (k, s) \<and>
    length (snd (SSL_export_keying_material lib ((k + s) * 2) ssl')) = (k + s) * 2 \<and>
    ProcessDtlsData lib data len t =
      Inr (t\<lparr>d_ssl := ssl', d_handshakeDoneNow := False, d_handshakeDone := True, d_state := CONNECTED\<rparr>,
        sends @ OnDtlsTransportConnected (suite_of name) (server_master k s (snd (SSL_export_keying_material lib ((k + s) * 2) ssl')))
          (client_master k s (snd (SSL_export_keying_material lib ((k + s) * 2) ssl'))) (d_remoteCert t) # tail) \<and>
    (\<forall>e \<in> set sends. \<exists>d. e = OnDtlsTransportSendData d) \<and> (\<forall>e \<in> set tail. \<exists>d. e = OnDtlsTransportApplicationDataReceived d)"
proof -
  obtain r ssl1 cs where r: "SSL_read lib SslReadBufferSize (BIO_write lib (take len data) (d_ssl t)) = (r, ssl1, cs)"
    "\<exists>c \<in> set cs. signals_done lib (fst c)" "ssl' = fst (after_send lib ssl1)"
    and p: "SSL_get_selected_srtp_profile lib ssl' = Some name" "timeout_short lib ssl'"
    using c unfolding completes_def by blast
  have name: "name \<in> set (map snd srtpCryptoSuites)"
    and mat: "\<And>n. fst (SSL_export_keying_material lib n ssl') \<noteq> 0 \<and> length (snd (SSL_export_keying_material lib n ssl')) = n"
    using lib p(1) unfolding ssl_ok_def by blast+
  then have suite: "suite_of name \<noteq> CryptoSuite.NONE" using find_suite_none by blast
  then obtain k s where ks: "srtp_lengths (suite_of name) = Inr (k, s)" using srtp_lengths_ok by blast
  let ?m = "snd (SSL_export_keying_material lib ((k + s) * 2) ssl')"
  let ?t = "t\<lparr>d_ssl := ssl', d_handshakeDoneNow := False, d_handshakeDone := True\<rparr>"
  let ?ev = "OnDtlsTransportConnected (suite_of name) (server_master k s ?m) (client_master k s ?m) (d_remoteCert t)"
  have "ExtractSrtpKeys lib (suite_of name) ?t = Inr (?t\<lparr>d_state := CONNECTED\<rparr>, [?ev])"
    using ExtractSrtpKeys_eq [OF ks, of lib ?t "fst (SSL_export_keying_material lib ((k + s) * 2) ssl')" ?m] mat t(2) by simp
  then have h: "ProcessHandshake lib ?t = Inr (True, ?t\<lparr>d_state := CONNECTED\<rparr>, [?ev])"
    using suite p(1) by (simp add: ProcessHandshake_def GetNegotiatedSrtpCryptoSuite_def Let_def)
  let ?t1 = "t\<lparr>d_ssl := ssl', d_handshakeDoneNow := True\<rparr>"
  have send: "SendPendingOutgoingDtlsData lib (run_callbacks lib cs (t\<lparr>d_ssl := ssl1\<rparr>)) = (?t1, snd (after_send lib ssl1))"
    using r(2,3) by (simp add: SendPending_eq run_callbacks_eq)
  have status: "CheckStatus lib (fst r) ?t1 = Inr (True, ?t\<lparr>d_state := CONNECTED\<rparr>, [?ev])"
    using h t(3) by (simp add: CheckStatus_def Let_def)
  have time: "SetTimeout lib (?t\<lparr>d_state := CONNECTED\<rparr>) = Inr (True, ?t\<lparr>d_state := CONNECTED\<rparr>, [])"
    using p(2) by (intro SetTimeout_short) simp_all
  let ?tail = "if fst r > 0 then [OnDtlsTransportApplicationDataReceived (take (nat (fst r)) (snd r))] else []"
  have "ProcessDtlsData lib data len t = Inr (?t\<lparr>d_state := CONNECTED\<rparr>, snd (after_send lib ssl1) @ ?ev # ?tail)"
    using len t(1) status time send r(1)
    by (simp add: ProcessDtlsData_def IsRunning_iff Let_def split_beta del: rbind_eq_Inr)
  moreover have "\<forall>e \<in> set (snd (after_send lib ssl1)). \<exists>d. e = OnDtlsTransportSendData d" by (simp add: after_send_def)
  ultimately show ?thesis using ks mat by (intro exI [of _ k] exI [of _ s] exI [of _ "snd (after_send lib ssl1)"] exI [of _ ?tail]) simp
qed

section \<open>The listener\<close>

lemma handle_sends:
  assumes "\<forall>e \<in> set sends. \<exists>d. e = OnDtlsTransportSendData d"
  shows "\<exists>os. handle_dtls_events l (sends @ es) w = rbind (handle_dtls_events l es w) (\<lambda>(w, os'). Ok (w, os @ os'))"
  using assms
proof (induction sends)
  case Nil
  show ?case by (intro exI [of _ "[]"]) (simp add: rbind_def split: sum.split)
next
  case (Cons e sends)
  then obtain d os where "e = OnDtlsTransportSendData d"
    "handle_dtls_events l (sends @ es) w = rbind (handle_dtls_events l es w) (\<lambda>(w, os'). Ok (w, os @ os'))" by auto
  then show ?case
    by (intro exI [of _ "(if w_transport w then [SentPacket d (w_remote w)] else []) @ os"])
      (auto simp: SendPacket_def rbind_def split: sum.split)
qed

lemma handle_data:
  "\<forall>e \<in> set es. \<exists>d. e = OnDtlsTransportApplicationDataReceived d \<Longrightarrow> handle_dtls_events l es w = Inr (w, [])"
  by (induction es) auto

text \<open>The listener makes the SRTP session for what is sent, from the key of the server.\<close>

definition media_session :: "('ssl, 'ss) libs \<Rightarrow> string \<Rightarrow> 'ssl \<Rightarrow> 'ss srtp_session res" where
  "media_session l name ssl =
     rbind (srtp_lengths (suite_of name)) (\<lambda>(k, s).
     new_SrtpSession (l_srtp l) (l_buffer l) OUTBOUND (suite_of name)
       (server_master k s (snd (SSL_export_keying_material (l_ssl l) ((k + s) * 2) ssl))) (k + s))"

lemma connected_handler_session:
  assumes l: "libs_ok l" and ks: "srtp_lengths (suite_of name) = Inr (k, s)"
    and m: "length (snd (SSL_export_keying_material (l_ssl l) ((k + s) * 2) ssl)) = (k + s) * 2"
  defines "key \<equiv> server_master k s (snd (SSL_export_keying_material (l_ssl l) ((k + s) * 2) ssl))"
  shows "\<exists>ss. media_session l name ssl = Inr ss \<and> session_ok ss \<and>
    OnDtlsTransportConnected_handler l (suite_of name) key (length key) w = Inr (w\<lparr>w_srtp := Some ss, w_is_ready := True\<rparr>)"
proof -
  have len: "length key = k + s" using length_masters [OF m] by (simp add: key_def)
  obtain ss where ss: "new_SrtpSession (l_srtp l) (l_buffer l) OUTBOUND (suite_of name) key (k + s) = Inr ss" "session_ok ss"
    using new_SrtpSession_ok [OF l ks] by blast
  moreover have "(case w_srtp w of None \<Rightarrow> Ok () | Some old \<Rightarrow> delete_SrtpSession (l_srtp l) old) = Inr ()"
    using l by (simp add: libs_ok_def srtp_setup_ok_def delete_SrtpSession_def IsError_def split: option.split)
  ultimately have "OnDtlsTransportConnected_handler l (suite_of name) key (length key) w = Inr (w\<lparr>w_srtp := Some ss, w_is_ready := True\<rparr>)"
    using len by (simp add: OnDtlsTransportConnected_handler_def)
  moreover have "media_session l name ssl = Inr ss" using ss(1) unfolding media_session_def ks rbind_simps prod.case key_def .
  ultimately show ?thesis using ss(2) by blast
qed

lemma transport_connects:
  assumes l: "libs_ok l" and inv: "wt_inv l w" and t: "d_state (w_dtls w) = CONNECTING" "d_localRole (w_dtls w) = SERVER"
    and buf: "IsStun buf len = Inr False" "IsDtls buf len = Inr True" "len \<le> length buf"
    and c: "completes (l_ssl l) (take len buf) (d_ssl (w_dtls w)) name ssl'"
  shows "\<exists>ss w' os. media_session l name ssl' = Inr ss \<and> OnInputDataPacket l buf len addr w = Inr (w', os) \<and>
    d_state (w_dtls w') = CONNECTED \<and> w_srtp w' = Some ss \<and> w_is_ready w' \<and> w_remote w' = w_remote w"
proof -
  have lib: "ssl_ok (l_ssl l)" using l by (simp add: libs_ok_def)
  have "\<not> d_handshakeDone (w_dtls w)" using inv t(1) by (simp add: wt_inv_def dtls_inv_def)
  from handshake_completes [OF lib t this c buf(3)] obtain k s sends tl where
    ks: "srtp_lengths (suite_of name) = Inr (k, s)" "length (snd (SSL_export_keying_material (l_ssl l) ((k + s) * 2) ssl')) = (k + s) * 2"
    and p: "ProcessDtlsData (l_ssl l) buf len (w_dtls w) =
      Inr ((w_dtls w)\<lparr>d_ssl := ssl', d_handshakeDoneNow := False, d_handshakeDone := True, d_state := CONNECTED\<rparr>,
        sends @ OnDtlsTransportConnected (suite_of name) (server_master k s (snd (SSL_export_keying_material (l_ssl l) ((k + s) * 2) ssl')))
          (client_master k s (snd (SSL_export_keying_material (l_ssl l) ((k + s) * 2) ssl'))) (d_remoteCert (w_dtls w)) # tl)"
    and e: "\<forall>e \<in> set sends. \<exists>d. e = OnDtlsTransportSendData d" "\<forall>e \<in> set tl. \<exists>d. e = OnDtlsTransportApplicationDataReceived d" by blast
  let ?d = "(w_dtls w)\<lparr>d_ssl := ssl', d_handshakeDoneNow := False, d_handshakeDone := True, d_state := CONNECTED\<rparr>"
  let ?w = "w\<lparr>w_dtls := ?d\<rparr>"
  obtain ss where ss: "media_session l name ssl' = Inr ss"
    "OnDtlsTransportConnected_handler l (suite_of name) (server_master k s (snd (SSL_export_keying_material (l_ssl l) ((k + s) * 2) ssl')))
      (length (server_master k s (snd (SSL_export_keying_material (l_ssl l) ((k + s) * 2) ssl')))) ?w = Inr (?w\<lparr>w_srtp := Some ss, w_is_ready := True\<rparr>)"
    using connected_handler_session [OF l ks] by blast
  let ?es = "OnDtlsTransportConnected (suite_of name) (server_master k s (snd (SSL_export_keying_material (l_ssl l) ((k + s) * 2) ssl')))
          (client_master k s (snd (SSL_export_keying_material (l_ssl l) ((k + s) * 2) ssl'))) (d_remoteCert (w_dtls w)) # tl"
  have "handle_dtls_events l ?es ?w = Inr (?w\<lparr>w_srtp := Some ss, w_is_ready := True\<rparr>, [])"
    using ss(2) handle_data [OF e(2)] by simp
  then obtain os where "handle_dtls_events l (sends @ ?es) ?w = Inr (?w\<lparr>w_srtp := Some ss, w_is_ready := True\<rparr>, os)"
    using handle_sends [OF e(1), of l ?es ?w] by auto
  then have "OnInputDataPacket l buf len addr w = Inr (?w\<lparr>w_srtp := Some ss, w_is_ready := True\<rparr>, os)"
    using buf p by (simp add: OnInputDataPacket_def receive_dtls_def del: rbind_eq_Inr)
  with ss(1) show ?thesis by auto
qed

section \<open>Through the server\<close>

lemma ready_sends:
  assumes l: "libs_ok l" and w: "w_srtp w = Some s" "session_ok s" "w_is_ready w" "w_transport w" and n: "n \<le> length media"
  shows "\<exists>ok p m s'. EncryptRtp (l_srtp l) (l_log l) media n s = Inr ((ok, p, m), s') \<and>
    EncryptAndSendRtpPacket l media n w = Inr (w\<lparr>w_srtp := Some s'\<rparr>, [SentPacket (if ok then take m p else take n media) (w_remote w)])"
proof -
  obtain ok p m s' where e: "EncryptRtp (l_srtp l) (l_log l) media n s = Inr ((ok, p, m), s')" "m \<le> length p" "\<not> ok \<longrightarrow> p = media \<and> m = n"
    using EncryptRtp_ok [OF l w(2) n] by metis
  then have "EncryptAndSendRtpPacket l media n w = Inr (w\<lparr>w_srtp := Some s'\<rparr>, [SentPacket (take m p) (w_remote w)])"
    using w by (simp add: EncryptAndSendRtpPacket_def SendPacket_def)
  with e show ?thesis by auto
qed

lemma connection_packet_connects:
  assumes inv: "server_inv l mu sv" and sid: "sid < length (sv_session sv)"
    and t: "d_state (w_dtls (s_transport (sv_session sv ! sid))) = CONNECTING" "d_localRole (w_dtls (s_transport (sv_session sv ! sid))) = SERVER"
    and buf: "IsStun buf len = Inr False" "IsDtls buf len = Inr True" "len \<le> length buf" "len < 65536"
    and c: "completes (l_ssl l) (take len buf) (d_ssl (w_dtls (s_transport (sv_session sv ! sid)))) name ssl'"
  shows "\<exists>ss w' sv' os. media_session l name ssl' = Inr ss \<and> on_connection_packet l sid buf len addr sv = Inr (sv', os) \<and>
    server_inv l mu sv' \<and> same_routes sv sv' \<and> s_transport (sv_session sv' ! sid) = w' \<and>
    d_state (w_dtls w') = CONNECTED \<and> w_srtp w' = Some ss \<and> w_is_ready w'"
proof -
  let ?w = "s_transport (sv_session sv ! sid)"
  obtain ss w' os where w': "media_session l name ssl' = Inr ss" "OnInputDataPacket l buf len addr ?w = Inr (w', os)"
    "d_state (w_dtls w') = CONNECTED" "w_srtp w' = Some ss" "w_is_ready w'"
    using transport_connects [OF session_transport(1,2) [OF inv sid] t buf(1-3) c] by blast
  let ?sv = "sv\<lparr>sv_session := (sv_session sv)[sid := (sv_session sv ! sid)\<lparr>s_transport := w'\<rparr>]\<rparr>"
  have o: "on_connection_packet l sid buf len addr sv = Inr (?sv, os)" using w'(2) by (simp add: on_connection_packet_def)
  then have "server_inv l mu ?sv" "same_routes sv ?sv" using on_connection_packet_ok [OF inv sid buf(3,4), of addr] by auto
  moreover have "s_transport (sv_session ?sv ! sid) = w'" using sid by simp
  ultimately show ?thesis using w'(1,3-5) o by blast
qed

section \<open>Property\<close>


text \<open>A session in the middle of its handshake, for a concrete run.\<close>

definition example_connecting :: "(nat, unit, unit) server" where
  "example_connecting = (new_server () 1 (AF_INET 10000 1))\<lparr>
     sv_sessions := [(str ''ab'', 0)],
     sv_session := [\<lparr>s_transport = example_wt\<lparr>w_ice := example_ice\<lparr>i_state := COMPLETED\<rparr>, w_remote := Some (AF_INET 5000 1),
       w_dtls := example_transport\<lparr>d_ssl := 1, d_state := CONNECTING, d_localRole := SERVER\<rparr>\<rparr>,
       s_network = Some 0, s_loop = Some 0, s_is_ready = True\<rparr>],
     sv_connection := [\<lparr>c_name = example_ip_port (AF_INET 5000 1), c_loop = 0, c_local_addr = AF_INET 10000 1, c_peer = AF_INET 5000 1,
       c_callback = Some 0, c_started = True\<rparr>]\<rparr>"

lemma example_connecting_inv: "server_inv example_libs example_muduo example_connecting"
proof -
  have "wt_inv example_libs (s_transport (sv_session example_connecting ! 0))"
    using example_wt_inv
    by (auto simp: example_connecting_def wt_inv_def srtp_inv_def example_wt_def example_libs_def dtls_inv_def example_transport_def IsRunning_iff
        example_ice_def new_IceServer_def)
  then show ?thesis using example_libs_ok example_can_create
    by (simp add: server_inv_def example_connecting_def new_server_def map_ok_def session_inv_def connection_ok_def is_bound_def example_muduo_def
        GetidentifyID_def example_wt_def example_ice_def new_IceServer_def)
qed


end
