(* ===== verification/Settings.thy ===== *)
theory Settings
  imports WebRtcTransport
begin

text \<open>
  \<open>Settings\<close> (common/settings.h, common/settings.cc), \<open>LogLevel\<close> (common/log_level.h), the conditions of
  the logging macros (common/logger.h), \<open>Utils::File::CheckFile\<close> (common/file.cc) and
  \<open>Utils::String::ToLowerCase\<close> (common/utils.h).

  The configuration is a static member: what an operation stored stays when it throws later. So operations on
  it return the configuration together with the exception, if any. The results of
  \<open>getopt_long_only\<close> are a list, and the file system is a parameter.
\<close>

section \<open>Log levels and tags\<close>

datatype LogLevel = LOG_NONE | LOG_ERROR | LOG_WARN | LOG_DEBUG

fun LogLevel_code :: "LogLevel \<Rightarrow> byte" where
  "LogLevel_code LOG_DEBUG = 3"
| "LogLevel_code LOG_WARN = 2"
| "LogLevel_code LOG_ERROR = 1"
| "LogLevel_code LOG_NONE = 0"

lemma LogLevel_code_inj: "LogLevel_code a = LogLevel_code b \<longleftrightarrow> a = b"
  by (cases a; cases b) simp_all

text \<open>The comparison of enumerators.\<close>

instantiation LogLevel :: linorder
begin

definition less_eq_LogLevel :: "LogLevel \<Rightarrow> LogLevel \<Rightarrow> bool" where
  "less_eq_LogLevel a b \<longleftrightarrow> LogLevel_code a \<le> LogLevel_code b"

definition less_LogLevel :: "LogLevel \<Rightarrow> LogLevel \<Rightarrow> bool" where
  "less_LogLevel a b \<longleftrightarrow> LogLevel_code a < LogLevel_code b"

instance
proof
  fix a b c :: LogLevel
  show "a < b \<longleftrightarrow> a \<le> b \<and> \<not> b \<le> a" by (auto simp: less_eq_LogLevel_def less_LogLevel_def)
  show "a \<le> a" by (simp add: less_eq_LogLevel_def)
  show "a \<le> b \<Longrightarrow> b \<le> c \<Longrightarrow> a \<le> c" by (simp add: less_eq_LogLevel_def)
  show "a \<le> b \<Longrightarrow> b \<le> a \<Longrightarrow> a = b" by (simp add: less_eq_LogLevel_def LogLevel_code_inj [symmetric])
  show "a \<le> b \<or> b \<le> a" by (auto simp: less_eq_LogLevel_def)
qed

end

record LogTags =
  tag_info :: bool
  tag_ice :: bool
  tag_dtls :: bool
  tag_rtp :: bool
  tag_srtp :: bool
  tag_rtcp :: bool
  tag_rtx :: bool
  tag_bwe :: bool
  tag_score :: bool
  tag_simulcast :: bool
  tag_svc :: bool
  tag_sctp :: bool
  tag_message :: bool

definition no_tags :: LogTags where
  "no_tags = \<lparr>tag_info = False, tag_ice = False, tag_dtls = False, tag_rtp = False, tag_srtp = False, tag_rtcp = False,
     tag_rtx = False, tag_bwe = False, tag_score = False, tag_simulcast = False, tag_svc = False, tag_sctp = False,
     tag_message = False\<rparr>"

record Configuration =
  logLevel :: LogLevel
  logTags :: LogTags
  rtcMinPort :: uint16
  rtcMaxPort :: uint16
  dtlsCertificateFile :: bytes
  dtlsPrivateKeyFile :: bytes

definition new_Configuration :: Configuration where
  "new_Configuration = \<lparr>logLevel = LOG_ERROR, logTags = no_tags, rtcMinPort = 10000, rtcMaxPort = 59999,
     dtlsCertificateFile = [], dtlsPrivateKeyFile = []\<rparr>"

definition string2LogLevel :: "(bytes \<times> LogLevel) list" where
  "string2LogLevel = [(str ''debug'', LOG_DEBUG), (str ''warn'', LOG_WARN), (str ''error'', LOG_ERROR), (str ''none'', LOG_NONE)]"

definition logLevel2String :: "(LogLevel \<times> bytes) list" where
  "logLevel2String = [(LOG_DEBUG, str ''debug''), (LOG_WARN, str ''warn''), (LOG_ERROR, str ''error''), (LOG_NONE, str ''none'')]"

text \<open>The conditions of the logging macros; \<open>tag\<close> selects the member of the tags.\<close>

definition MS_HAS_DEBUG_TAG :: "Configuration \<Rightarrow> (LogTags \<Rightarrow> bool) \<Rightarrow> bool" where
  "MS_HAS_DEBUG_TAG cfg tag \<longleftrightarrow> logLevel cfg = LOG_DEBUG \<and> tag (logTags cfg)"

definition MS_HAS_WARN_TAG :: "Configuration \<Rightarrow> (LogTags \<Rightarrow> bool) \<Rightarrow> bool" where
  "MS_HAS_WARN_TAG cfg tag \<longleftrightarrow> logLevel cfg \<ge> LOG_WARN \<and> tag (logTags cfg)"

definition MS_ERROR_logs :: "nat \<Rightarrow> Configuration \<Rightarrow> bool" where
  "MS_ERROR_logs MS_LOG_DEV_LEVEL cfg \<longleftrightarrow> logLevel cfg \<ge> LOG_ERROR \<or> MS_LOG_DEV_LEVEL \<ge> 1"

text \<open>Levels include each other: whoever logs debug messages of a tag logs its warnings, and errors.\<close>

lemma LogLevel_order: "LOG_WARN \<le> LOG_DEBUG" "LOG_ERROR \<le> LOG_WARN" "\<not> LOG_WARN \<le> LOG_ERROR"
  by (simp_all add: less_eq_LogLevel_def word_le_nat_alt)

lemma log_conditions:
  "MS_HAS_DEBUG_TAG cfg tag \<Longrightarrow> MS_HAS_WARN_TAG cfg tag"
  "MS_HAS_WARN_TAG cfg tag \<Longrightarrow> MS_ERROR_logs n cfg"
  "\<not> MS_HAS_WARN_TAG new_Configuration tag" "MS_ERROR_logs n new_Configuration"
  using LogLevel_order order_trans [OF LogLevel_order(2)]
  by (simp_all add: MS_HAS_DEBUG_TAG_def MS_HAS_WARN_TAG_def MS_ERROR_logs_def new_Configuration_def)

section \<open>Setters\<close>

definition tolower :: "byte \<Rightarrow> byte" where
  "tolower c = (if 65 \<le> c \<and> c \<le> 90 then c + 32 else c)"

definition ToLowerCase :: "bytes \<Rightarrow> bytes" where
  "ToLowerCase s = map tolower s"

type_synonym setting_result = "Configuration \<times> fault option"

definition SetLogLevel :: "bytes \<Rightarrow> Configuration \<Rightarrow> setting_result" where
  "SetLogLevel level cfg =
     (let level = ToLowerCase level in
      case map_of string2LogLevel level of
        None \<Rightarrow> (cfg, Some (Throw ''invalid value for logLevel''))
      | Some l \<Rightarrow> (cfg\<lparr>logLevel := l\<rparr>, None))"

definition set_tag :: "bytes \<Rightarrow> LogTags \<Rightarrow> LogTags" where
  "set_tag tag t =
     (if tag = str ''info'' then t\<lparr>tag_info := True\<rparr>
      else if tag = str ''ice'' then t\<lparr>tag_ice := True\<rparr>
      else if tag = str ''dtls'' then t\<lparr>tag_dtls := True\<rparr>
      else if tag = str ''rtp'' then t\<lparr>tag_rtp := True\<rparr>
      else if tag = str ''srtp'' then t\<lparr>tag_srtp := True\<rparr>
      else if tag = str ''rtcp'' then t\<lparr>tag_rtcp := True\<rparr>
      else if tag = str ''rtx'' then t\<lparr>tag_rtx := True\<rparr>
      else if tag = str ''bwe'' then t\<lparr>tag_bwe := True\<rparr>
      else if tag = str ''score'' then t\<lparr>tag_score := True\<rparr>
      else if tag = str ''simulcast'' then t\<lparr>tag_simulcast := True\<rparr>
      else if tag = str ''svc'' then t\<lparr>tag_svc := True\<rparr>
      else if tag = str ''sctp'' then t\<lparr>tag_sctp := True\<rparr>
      else if tag = str ''message'' then t\<lparr>tag_message := True\<rparr>
      else t)"

definition SetLogTags :: "bytes list \<Rightarrow> Configuration \<Rightarrow> Configuration" where
  "SetLogTags tags cfg = cfg\<lparr>logTags := fold set_tag tags no_tags\<rparr>"

text \<open>What the file system says of a path: nothing there, or whether it is a regular file; and whether it can be read.\<close>

record file_lib =
  fs_stat :: "bytes \<Rightarrow> bool option"
  fs_access :: "bytes \<Rightarrow> bool"

definition CheckFile :: "file_lib \<Rightarrow> bytes \<Rightarrow> unit res" where
  "CheckFile fs file =
     (case fs_stat fs file of
        None \<Rightarrow> Fault (Throw ''cannot read file'')
      | Some regular \<Rightarrow>
          if \<not> regular then Fault (Throw ''not a regular file'')
          else if \<not> fs_access fs file then Fault (Throw ''cannot read file'')
          else Ok ())"

text \<open>A \<open>MediaSoupError\<close> of the check becomes a \<open>MediaSoupTypeError\<close>; the path is the one up to the first zero byte.\<close>

definition check_setting :: "file_lib \<Rightarrow> string \<Rightarrow> bytes \<Rightarrow> fault option" where
  "check_setting fs name file =
     (case CheckFile fs (cstr file) of Inl e \<Rightarrow> Some (Throw name) | Inr _ \<Rightarrow> None)"

definition SetDtlsCertificateAndPrivateKeyFiles :: "file_lib \<Rightarrow> Configuration \<Rightarrow> fault option" where
  "SetDtlsCertificateAndPrivateKeyFiles fs cfg =
     (if dtlsCertificateFile cfg \<noteq> [] \<and> dtlsPrivateKeyFile cfg = [] then Some (Throw ''missing dtlsPrivateKeyFile'')
      else if dtlsCertificateFile cfg = [] \<and> dtlsPrivateKeyFile cfg \<noteq> [] then Some (Throw ''missing dtlsCertificateFile'')
      else if dtlsCertificateFile cfg = [] \<and> dtlsPrivateKeyFile cfg = [] then None
      else
        case check_setting fs ''dtlsCertificateFile'' (dtlsCertificateFile cfg) of
          Some e \<Rightarrow> Some e
        | None \<Rightarrow> check_setting fs ''dtlsPrivateKeyFile'' (dtlsPrivateKeyFile cfg))"

section \<open>Numbers in options\<close>

definition isspace :: "byte \<Rightarrow> bool" where
  "isspace c \<longleftrightarrow> c = 32 \<or> 9 \<le> c \<and> c \<le> 13"

definition isdigit :: "byte \<Rightarrow> bool" where
  "isdigit c \<longleftrightarrow> 48 \<le> c \<and> c \<le> 57"

definition digits_value :: "bytes \<Rightarrow> int" where
  "digits_value ds = fold (\<lambda>d v. 10 * v + (uint d - 48)) ds 0"

text \<open>\<open>std::stoi\<close> in base 10: white space, an optional sign, digits; the rest is ignored.\<close>

definition stoi :: "bytes \<Rightarrow> int res" where
  "stoi s =
     (let s = dropWhile isspace s;
          neg = (s \<noteq> [] \<and> hd s = 45);
          s = (if s \<noteq> [] \<and> (hd s = 45 \<or> hd s = 43) then tl s else s);
          ds = takeWhile isdigit s;
          v = (if neg then - digits_value ds else digits_value ds)
      in if ds = [] then Fault (Throw ''stoi'')
         else if v < - (2 ^ 31) \<or> v \<ge> 2 ^ 31 then Fault (Throw ''stoi'')
         else Ok v)"

text \<open>A port: converted to 16 bits without a check.\<close>

definition port_of :: "bytes \<Rightarrow> uint16 option" where
  "port_of s = (case stoi s of Inl e \<Rightarrow> None | Inr v \<Rightarrow> Some (word_of_int v))"

section \<open>Command line\<close>

text \<open>One result of \<open>getopt_long_only\<close> before -1: the value, \<open>optarg\<close> and \<open>optopt\<close>.\<close>

record getopt_result =
  go_c :: byte
  go_optarg :: "bytes option"
  go_optopt :: byte

definition isprint :: "byte \<Rightarrow> bool" where
  "isprint c \<longleftrightarrow> 32 \<le> c \<and> c \<le> 126"

text \<open>The body of the loop; the tags are collected.\<close>

definition process_option :: "getopt_result \<Rightarrow> bytes list \<times> Configuration \<Rightarrow> (bytes list \<times> Configuration) \<times> fault option" where
  "process_option g = (\<lambda>(tags, cfg).
     case go_optarg g of
       None \<Rightarrow> ((tags, cfg), Some (Throw ''unknown configuration parameter''))
     | Some optarg \<Rightarrow>
         if go_c g = of_char (CHR ''l'') then (let (cfg, e) = SetLogLevel optarg cfg in ((tags, cfg), e))
         else if go_c g = of_char (CHR ''t'') then ((tags @ [optarg], cfg), None)
         else if go_c g = of_char (CHR ''m'') then
           (case port_of optarg of None \<Rightarrow> ((tags, cfg), Some (Throw ''stoi'')) | Some p \<Rightarrow> ((tags, cfg\<lparr>rtcMinPort := p\<rparr>), None))
         else if go_c g = of_char (CHR ''M'') then
           (case port_of optarg of None \<Rightarrow> ((tags, cfg), Some (Throw ''stoi'')) | Some p \<Rightarrow> ((tags, cfg\<lparr>rtcMaxPort := p\<rparr>), None))
         else if go_c g = of_char (CHR ''c'') then ((tags, cfg\<lparr>dtlsCertificateFile := optarg\<rparr>), None)
         else if go_c g = of_char (CHR ''p'') then ((tags, cfg\<lparr>dtlsPrivateKeyFile := optarg\<rparr>), None)
         else if go_c g = of_char (CHR ''?'') then
           ((tags, cfg), Some (Throw (if isprint (go_optopt g) then ''invalid option'' else ''unknown long option given as argument'')))
         else if go_c g = of_char (CHR '':'') then ((tags, cfg), Some (Throw ''option requires an argument''))
         else ((tags, cfg), Some (Throw ''default should never happen'')))"

fun option_loop :: "getopt_result list \<Rightarrow> bytes list \<times> Configuration \<Rightarrow> (bytes list \<times> Configuration) \<times> fault option" where
  "option_loop [] s = (s, None)"
| "option_loop (g # gs) s =
     (case process_option g s of (s, Some e) \<Rightarrow> (s, Some e) | (s, None) \<Rightarrow> option_loop gs s)"

definition SetConfiguration :: "file_lib \<Rightarrow> getopt_result list \<Rightarrow> Configuration \<Rightarrow> setting_result" where
  "SetConfiguration fs gs cfg =
     (case option_loop gs ([], cfg) of
        ((tags, cfg), Some e) \<Rightarrow> (cfg, Some e)
      | ((tags, cfg), None) \<Rightarrow>
          let cfg = (if tags \<noteq> [] then SetLogTags tags cfg else cfg) in
          if rtcMaxPort cfg < rtcMinPort cfg then (cfg, Some (Throw ''rtcMaxPort cannot be less than rtcMinPort''))
          else (cfg, SetDtlsCertificateAndPrivateKeyFiles fs cfg))"

definition PrintConfiguration_tags :: "LogTags \<Rightarrow> bytes list" where
  "PrintConfiguration_tags t =
     (if tag_info t then [str ''info''] else []) @ (if tag_ice t then [str ''ice''] else []) @
     (if tag_dtls t then [str ''dtls''] else []) @ (if tag_rtp t then [str ''rtp''] else []) @
     (if tag_srtp t then [str ''srtp''] else []) @ (if tag_rtcp t then [str ''rtcp''] else []) @
     (if tag_rtx t then [str ''rtx''] else []) @ (if tag_bwe t then [str ''bwe''] else []) @
     (if tag_score t then [str ''score''] else []) @ (if tag_simulcast t then [str ''simulcast''] else []) @
     (if tag_svc t then [str ''svc''] else []) @ (if tag_sctp t then [str ''sctp''] else []) @
     (if tag_message t then [str ''message''] else [])"

section \<open>Options\<close>

text \<open>The value of the last option of a kind.\<close>

fun last_option :: "char \<Rightarrow> getopt_result list \<Rightarrow> bytes option" where
  "last_option c [] = None"
| "last_option c (g # gs) =
     (case last_option c gs of Some v \<Rightarrow> Some v | None \<Rightarrow> if go_c g = of_char c then go_optarg g else None)"

definition option_tags :: "getopt_result list \<Rightarrow> bytes list" where
  "option_tags gs = map (\<lambda>g. the (go_optarg g)) (filter (\<lambda>g. go_c g = of_char (CHR ''t'')) gs)"

text \<open>The effect of options on a part of the configuration: the last option of its kind decides.\<close>

definition decided :: "('a \<Rightarrow> 'b) \<Rightarrow> (bytes \<Rightarrow> 'b option) \<Rightarrow> char \<Rightarrow> getopt_result list \<Rightarrow> 'a \<Rightarrow> 'a \<Rightarrow> bool" where
  "decided field val c gs cfg cfg' \<longleftrightarrow>
     (case last_option c gs of None \<Rightarrow> field cfg' = field cfg | Some v \<Rightarrow> val v = Some (field cfg'))"

definition level_of :: "bytes \<Rightarrow> LogLevel option" where
  "level_of v = map_of string2LogLevel (ToLowerCase v)"

lemma decided_Nil [simp]: "decided field val c [] cfg cfg"
  by (simp add: decided_def)

lemma decided_Cons:
  "go_c g = of_char c \<Longrightarrow> go_optarg g = Some v \<Longrightarrow> val v = Some (field cfg1) \<Longrightarrow> decided field val c gs cfg1 cfg' \<Longrightarrow>
   decided field val c (g # gs) cfg cfg'"
  "go_c g \<noteq> of_char c \<Longrightarrow> field cfg1 = field cfg \<Longrightarrow> decided field val c gs cfg1 cfg' \<Longrightarrow> decided field val c (g # gs) cfg cfg'"
  by (auto simp: decided_def split: option.splits)

text \<open>An option that is processed without an exception is one of the six.\<close>

lemma process_option_cases:
  assumes "process_option g (tags, cfg) = ((tags', cfg'), None)"
  obtains (level) v l where "go_c g = 108" "go_optarg g = Some v" "level_of v = Some l" "tags' = tags" "cfg' = cfg\<lparr>logLevel := l\<rparr>"
  | (tag) v where "go_c g = 116" "go_optarg g = Some v" "tags' = tags @ [v]" "cfg' = cfg"
  | (min) v p where "go_c g = 109" "go_optarg g = Some v" "port_of v = Some p" "tags' = tags" "cfg' = cfg\<lparr>rtcMinPort := p\<rparr>"
  | (max) v p where "go_c g = 77" "go_optarg g = Some v" "port_of v = Some p" "tags' = tags" "cfg' = cfg\<lparr>rtcMaxPort := p\<rparr>"
  | (cert) v where "go_c g = 99" "go_optarg g = Some v" "tags' = tags" "cfg' = cfg\<lparr>dtlsCertificateFile := v\<rparr>"
  | (key) v where "go_c g = 112" "go_optarg g = Some v" "tags' = tags" "cfg' = cfg\<lparr>dtlsPrivateKeyFile := v\<rparr>"
proof -
  obtain v where v: "go_optarg g = Some v" using assms by (cases "go_optarg g") (simp_all add: process_option_def)
  consider "go_c g = 108" | "go_c g = 116" | "go_c g = 109" | "go_c g = 77" | "go_c g = 99" | "go_c g = 112"
    using assms v by (auto simp: process_option_def split: if_splits)
  then show thesis
  proof cases
    case 1
    with assms v show thesis
      by (auto simp: process_option_def SetLogLevel_def level_of_def Let_def split: option.splits intro: level)
  next
    case 2
    with assms v show thesis by (auto simp: process_option_def intro: tag)
  next
    case 3
    with assms v show thesis by (auto simp: process_option_def split: option.splits intro: min)
  next
    case 4
    with assms v show thesis by (auto simp: process_option_def split: option.splits intro: max)
  next
    case 5
    with assms v show thesis by (auto simp: process_option_def intro: cert)
  next
    case 6
    with assms v show thesis by (auto simp: process_option_def intro: key)
  qed
qed

definition all_decided :: "getopt_result list \<Rightarrow> Configuration \<Rightarrow> Configuration \<Rightarrow> bool" where
  "all_decided gs cfg cfg' \<longleftrightarrow>
     decided logLevel level_of (CHR ''l'') gs cfg cfg' \<and>
     decided rtcMinPort port_of (CHR ''m'') gs cfg cfg' \<and> decided rtcMaxPort port_of (CHR ''M'') gs cfg cfg' \<and>
     decided dtlsCertificateFile Some (CHR ''c'') gs cfg cfg' \<and> decided dtlsPrivateKeyFile Some (CHR ''p'') gs cfg cfg'"

lemma option_loop_decides:
  "option_loop gs (tags, cfg) = ((tags', cfg'), None) \<Longrightarrow>
   tags' = tags @ option_tags gs \<and> logTags cfg' = logTags cfg \<and> all_decided gs cfg cfg'"
proof (induction gs arbitrary: tags cfg)
  case Nil
  then show ?case by (simp add: option_tags_def all_decided_def)
next
  case (Cons g gs)
  obtain tags1 cfg1 where s: "process_option g (tags, cfg) = ((tags1, cfg1), None)" "option_loop gs (tags1, cfg1) = ((tags', cfg'), None)"
    using Cons.prems by (auto split: prod.splits option.splits)
  note IH = Cons.IH [OF s(2)]
  from s(1) show ?case
    by (cases rule: process_option_cases)
      (use IH in \<open>simp_all add: all_decided_def option_tags_def decided_Cons [where ?cfg1.0 = cfg1]\<close>)
qed

text \<open>The options that are accepted.\<close>

definition option_valid :: "getopt_result \<Rightarrow> bool" where
  "option_valid g =
     (case go_optarg g of
        None \<Rightarrow> False
      | Some v \<Rightarrow> go_c g = 108 \<and> level_of v \<noteq> None \<or> go_c g = 116 \<or> (go_c g = 109 \<or> go_c g = 77) \<and> port_of v \<noteq> None \<or>
          go_c g = 99 \<or> go_c g = 112)"

lemma process_option_valid: "snd (process_option g s) = None \<longleftrightarrow> option_valid g"
proof (cases "go_optarg g")
  case None
  then show ?thesis by (simp add: process_option_def option_valid_def split_beta)
next
  case (Some v)
  have "snd (SetLogLevel v cfg) = None \<longleftrightarrow> level_of v \<noteq> None" for cfg
    by (simp add: SetLogLevel_def level_of_def Let_def split: option.split)
  with Some show ?thesis
    by (simp add: process_option_def option_valid_def split_beta Let_def split: option.split)
qed

lemma option_loop_valid: "snd (option_loop gs s) = None \<longleftrightarrow> list_all option_valid gs"
proof (induction gs arbitrary: s)
  case (Cons g gs)
  then show ?case using process_option_valid [of g s] by (auto split: prod.split option.split)
qed simp

definition file_valid :: "file_lib \<Rightarrow> bytes \<Rightarrow> bool" where
  "file_valid fs file \<longleftrightarrow> fs_stat fs (cstr file) = Some True \<and> fs_access fs (cstr file)"

definition files_valid :: "file_lib \<Rightarrow> Configuration \<Rightarrow> bool" where
  "files_valid fs cfg \<longleftrightarrow>
     dtlsCertificateFile cfg = [] \<and> dtlsPrivateKeyFile cfg = [] \<or>
     dtlsCertificateFile cfg \<noteq> [] \<and> dtlsPrivateKeyFile cfg \<noteq> [] \<and>
     file_valid fs (dtlsCertificateFile cfg) \<and> file_valid fs (dtlsPrivateKeyFile cfg)"

lemma check_setting_valid: "check_setting fs name file = None \<longleftrightarrow> file_valid fs file"
  by (simp add: check_setting_def CheckFile_def file_valid_def split: option.split)

lemma files_valid_iff: "SetDtlsCertificateAndPrivateKeyFiles fs cfg = None \<longleftrightarrow> files_valid fs cfg"
  unfolding files_valid_def check_setting_valid [symmetric, of fs "dtlsCertificateFile cfg" "''dtlsCertificateFile''"]
    check_setting_valid [symmetric, of fs "dtlsPrivateKeyFile cfg" "''dtlsPrivateKeyFile''"]
  by (auto simp: SetDtlsCertificateAndPrivateKeyFiles_def split: option.split)

definition known_tags :: "bytes list" where
  "known_tags = map str [''info'', ''ice'', ''dtls'', ''rtp'', ''srtp'', ''rtcp'', ''rtx'', ''bwe'', ''score'', ''simulcast'', ''svc'', ''sctp'', ''message'']"

lemma set_tag_prints:
  "set (PrintConfiguration_tags (set_tag x t)) = (if x \<in> set known_tags then insert x (set (PrintConfiguration_tags t)) else set (PrintConfiguration_tags t))"
proof (cases "x \<in> set known_tags")
  case True
  then consider "x = str ''info''" | "x = str ''ice''" | "x = str ''dtls''" | "x = str ''rtp''" | "x = str ''srtp''" | "x = str ''rtcp''"
    | "x = str ''rtx''" | "x = str ''bwe''" | "x = str ''score''" | "x = str ''simulcast''" | "x = str ''svc''" | "x = str ''sctp''" | "x = str ''message''"
    by (auto simp: known_tags_def)
  then have "set (PrintConfiguration_tags (set_tag x t)) = insert x (set (PrintConfiguration_tags t))"
    by cases (auto simp: set_tag_def PrintConfiguration_tags_def str_def)
  with True show ?thesis by simp
qed (simp add: set_tag_def known_tags_def)

lemma no_tags_print [simp]: "PrintConfiguration_tags no_tags = []"
  by (simp add: PrintConfiguration_tags_def no_tags_def)

lemma all_decided_SetLogTags [simp]: "all_decided gs cfg (SetLogTags tags cfg') = all_decided gs cfg cfg'"
  by (simp add: all_decided_def decided_def SetLogTags_def split: option.split)

lemma SetLogTags_prints:
  "set (PrintConfiguration_tags (fold set_tag tags t)) = set (PrintConfiguration_tags t) \<union> set tags \<inter> set known_tags"
proof (induction tags arbitrary: t)
  case (Cons x tags)
  then show ?case by (auto simp: set_tag_prints)
qed simp

section \<open>Properties\<close>

text \<open>C32: When the configuration is accepted, and what it then is. It is accepted exactly if every option has an argument and is
  one of the six, with a known log level (in any case) or a number that fits an int where one is due, the ports are in
  order, and the certificate and the private key are both absent or both regular files that can be read. If the options are
  good, the last option of each kind decides its setting, ports modulo 65536, everything without an option is left as it
  was, and the tags that are printed are the known ones among those given.\<close>

theorem settings_configure:
  assumes "SetConfiguration fs gs cfg = (cfg', e)"
  shows "(e = None \<longleftrightarrow> list_all option_valid gs \<and> rtcMinPort cfg' \<le> rtcMaxPort cfg' \<and> files_valid fs cfg') \<and>
    (list_all option_valid gs \<longrightarrow> all_decided gs cfg cfg' \<and>
      (if option_tags gs = [] then logTags cfg' = logTags cfg
       else set (PrintConfiguration_tags (logTags cfg')) = set (option_tags gs) \<inter> set known_tags))"
proof -
  obtain tags cfg1 e1 where l: "option_loop gs ([], cfg) = ((tags, cfg1), e1)" by (cases "option_loop gs ([], cfg)") auto
  have v: "e1 = None \<longleftrightarrow> list_all option_valid gs" using option_loop_valid [of gs "([], cfg)"] by (simp add: l)
  define c where "c = (if tags \<noteq> [] then SetLogTags tags cfg1 else cfg1)"
  have c: "(cfg', e) = (if e1 = None then (c, if rtcMaxPort c < rtcMinPort c then Some (Throw ''rtcMaxPort cannot be less than rtcMinPort'')
      else SetDtlsCertificateAndPrivateKeyFiles fs c) else (cfg1, e1))"
    using assms by (cases e1) (auto simp: SetConfiguration_def l Let_def c_def)
  have "all_decided gs cfg cfg' \<and> (if option_tags gs = [] then logTags cfg' = logTags cfg
       else set (PrintConfiguration_tags (logTags cfg')) = set (option_tags gs) \<inter> set known_tags)" if "list_all option_valid gs"
  proof -
    have "cfg' = c" "e1 = None" using v c that by simp_all
    then have d: "tags = option_tags gs" "logTags cfg1 = logTags cfg" "all_decided gs cfg cfg1"
      using option_loop_decides [of gs "[]" cfg tags cfg1] l by simp_all
    have "all_decided gs cfg c" using d(3) by (simp add: c_def)
    moreover have "logTags c = (if tags = [] then logTags cfg else fold set_tag tags no_tags)"
      using d(2) by (simp add: c_def SetLogTags_def)
    ultimately show ?thesis using SetLogTags_prints [of tags no_tags] \<open>cfg' = c\<close> d(1) by simp
  qed
  then show ?thesis using c v files_valid_iff by (auto split: if_splits)
qed

text \<open>A file system where everything is a readable file.\<close>

definition example_files :: file_lib where
  "example_files = \<lparr>fs_stat = (\<lambda>f. Some True), fs_access = (\<lambda>f. True)\<rparr>"

theorem settings_configure_witness:
  "\<exists>cfg'. SetConfiguration example_files
     [\<lparr>go_c = 109, go_optarg = Some (str ''70000''), go_optopt = 0\<rparr>, \<lparr>go_c = 108, go_optarg = Some (str ''WARN''), go_optopt = 0\<rparr>,
      \<lparr>go_c = 116, go_optarg = Some (str ''ice''), go_optopt = 0\<rparr>] new_Configuration = (cfg', None) \<and>
     rtcMinPort cfg' = 4464 \<and> logLevel cfg' = LOG_WARN \<and> set (PrintConfiguration_tags (logTags cfg')) = {str ''ice''}"
proof -
  let ?gs = "[\<lparr>go_c = 109, go_optarg = Some (str ''70000''), go_optopt = 0\<rparr>, \<lparr>go_c = 108, go_optarg = Some (str ''WARN''), go_optopt = 0\<rparr>,
      \<lparr>go_c = 116, go_optarg = Some (str ''ice''), go_optopt = 0\<rparr>] :: getopt_result list"
  obtain cfg' e where s: "SetConfiguration example_files ?gs new_Configuration = (cfg', e)" by fastforce
  have p: "port_of (str ''70000'') = Some 4464" "level_of (str ''WARN'') = Some LOG_WARN"
    by (simp_all add: port_of_def stoi_def str_def isspace_def isdigit_def digits_value_def level_of_def ToLowerCase_def tolower_def string2LogLevel_def)
  then have "list_all option_valid ?gs" by (simp add: option_valid_def)
  with settings_configure [OF s] p
  have "e = None \<and> rtcMinPort cfg' = 4464 \<and> logLevel cfg' = LOG_WARN \<and> set (PrintConfiguration_tags (logTags cfg')) = {str ''ice''}"
    by (auto simp: all_decided_def decided_def option_tags_def known_tags_def files_valid_def new_Configuration_def)
  with s show ?thesis by blast
qed

end
