(* ===== verification/Logger.thy ===== *)
theory Logger
  imports Settings
begin

text \<open>
  The logging macros of common/logger.h and common/logger.cc and the throwing macros of common/throw_errors.h.

  The state is what the macros touch: the static buffer \<open>Logger::buffer\<close>, whether the pointer
  \<open>Logger::channel\<close> is set, the calls of \<open>LogChannel::SendLog\<close> (the contents of the buffer at the call and the length argument; its
  body is empty) and the text written to the two standard streams. The
  description of a macro call is the text its format and arguments produce. The options of the build, which select the
  variant of a macro, are a record; the place of a call (file, line, \<open>MS_CLASS\<close> and function) is another one. Every write of
  \<open>snprintf\<close> is bounds-checked against the buffer, not against the size argument it is given.
\<close>

section \<open>State\<close>

record log_state =
  lg_buffer :: bytes
  lg_set :: bool
  lg_channel :: "(bytes \<times> nat) list"
  lg_stdout :: bytes
  lg_stderr :: bytes

record log_build =
  MS_LOG_STD :: bool
  MS_LOG_TRACE :: bool
  MS_LOG_FILE_LINE :: bool
  MS_LOG_DEV_LEVEL :: nat

record log_site =
  ls_file :: bytes
  ls_line :: nat
  MS_CLASS :: bytes
  ls_function :: bytes

definition bufferSize :: nat where "bufferSize = 50000"

definition new_Logger :: log_state where
  "new_Logger = \<lparr>lg_buffer = replicate bufferSize 0, lg_set = False, lg_channel = [], lg_stdout = [], lg_stderr = []\<rparr>"

definition record_call :: "nat \<Rightarrow> log_state \<Rightarrow> log_state" where
  "record_call messageLen st = st\<lparr>lg_channel := lg_channel st @ [(lg_buffer st, messageLen)]\<rparr>"

definition SendLog :: "nat \<Rightarrow> log_state \<Rightarrow> log_state res" where
  "SendLog messageLen st = (if lg_set st then Ok (record_call messageLen st) else Fault NullDeref)"

text \<open>\<open>snprintf\<close> at an offset of a buffer: at most \<open>sz - 1\<close> characters and a zero; the result is the length of the whole text.\<close>

definition snprintf :: "bytes \<Rightarrow> nat \<Rightarrow> nat \<Rightarrow> bytes \<Rightarrow> (bytes \<times> nat) res" where
  "snprintf buffer off sz text =
     (if sz = 0 then Ok (buffer, length text)
      else rbind (wr_range buffer off (take (sz - 1) text @ [0])) (\<lambda>buffer. Ok (buffer, length text)))"

definition print_stdout :: "bytes \<Rightarrow> log_state \<Rightarrow> log_state" where
  "print_stdout text st = st\<lparr>lg_stdout := lg_stdout st @ text\<rparr>"

definition print_stderr :: "bytes \<Rightarrow> log_state \<Rightarrow> log_state" where
  "print_stderr text st = st\<lparr>lg_stderr := lg_stderr st @ text\<rparr>"

section \<open>The parts of a message\<close>

definition MS_FILE :: "log_site \<Rightarrow> bytes" where
  "MS_FILE site = (if 47 \<in> set (ls_file site) then tl (dropWhile (\<lambda>c. c \<noteq> 47) (ls_file site)) else ls_file site)"

definition MS_LOG_STR :: "log_build \<Rightarrow> log_site \<Rightarrow> bytes" where
  "MS_LOG_STR b site =
     (if MS_LOG_FILE_LINE b then MS_FILE site @ str '':'' @ decimal_digits (ls_line site) @ str '' | '' else []) @
     MS_CLASS site @ str ''::'' @ ls_function site @ str ''()''"

definition MS_LOG_STR_DESC :: "log_build \<Rightarrow> log_site \<Rightarrow> bytes" where
  "MS_LOG_STR_DESC b site = MS_LOG_STR b site @ str '' | ''"

definition MS_UINT16_TO_BINARY :: "uint16 \<Rightarrow> bytes" where
  "MS_UINT16_TO_BINARY value =
     map (\<lambda>mask. if value AND mask \<noteq> 0 then of_char (CHR ''1'') else of_char (CHR ''0''))
       [0x8000, 0x4000, 0x2000, 0x1000, 0x800, 0x400, 0x200, 0x100, 0x80, 0x40, 0x20, 0x10, 0x08, 0x04, 0x02, 0x01]"

text \<open>The two lines that most macros share: the text goes into the buffer, and the channel gets the buffer with the length that \<open>snprintf\<close> returned.\<close>

definition log_channel :: "bytes \<Rightarrow> log_state \<Rightarrow> log_state res" where
  "log_channel text st =
     rbind (snprintf (lg_buffer st) 0 bufferSize text) (\<lambda>(buffer, loggerWritten).
     SendLog loggerWritten (st\<lparr>lg_buffer := buffer\<rparr>))"

section \<open>Macros\<close>

definition MS_TRACE :: "log_build \<Rightarrow> Configuration \<Rightarrow> log_site \<Rightarrow> log_state \<Rightarrow> log_state res" where
  "MS_TRACE b cfg site st =
     (if MS_LOG_TRACE b \<and> logLevel cfg = LOG_DEBUG then log_channel (str ''D(trace) '' @ MS_LOG_STR b site) st else Ok st)"

definition MS_TRACE_STD :: "log_build \<Rightarrow> Configuration \<Rightarrow> log_site \<Rightarrow> log_state \<Rightarrow> log_state res" where
  "MS_TRACE_STD b cfg site st =
     (if MS_LOG_TRACE b \<and> logLevel cfg = LOG_DEBUG then Ok (print_stdout (str ''(trace) '' @ MS_LOG_STR b site @ [10]) st) else Ok st)"

definition MS_DEBUG_TAG :: "log_build \<Rightarrow> Configuration \<Rightarrow> (LogTags \<Rightarrow> bool) \<Rightarrow> log_site \<Rightarrow> bytes \<Rightarrow> log_state \<Rightarrow> log_state res" where
  "MS_DEBUG_TAG b cfg tag site desc st =
     (if logLevel cfg = LOG_DEBUG \<and> tag (logTags cfg) then log_channel (str ''D'' @ MS_LOG_STR_DESC b site @ desc) st else Ok st)"

definition MS_DEBUG_TAG_STD :: "log_build \<Rightarrow> Configuration \<Rightarrow> (LogTags \<Rightarrow> bool) \<Rightarrow> log_site \<Rightarrow> bytes \<Rightarrow> log_state \<Rightarrow> log_state res" where
  "MS_DEBUG_TAG_STD b cfg tag site desc st =
     (if logLevel cfg = LOG_DEBUG \<and> tag (logTags cfg) then Ok (print_stdout (MS_LOG_STR_DESC b site @ desc @ [10]) st) else Ok st)"

definition MS_WARN_TAG :: "log_build \<Rightarrow> Configuration \<Rightarrow> (LogTags \<Rightarrow> bool) \<Rightarrow> log_site \<Rightarrow> bytes \<Rightarrow> log_state \<Rightarrow> log_state res" where
  "MS_WARN_TAG b cfg tag site desc st =
     (if logLevel cfg \<ge> LOG_WARN \<and> tag (logTags cfg) then log_channel (str ''W'' @ MS_LOG_STR_DESC b site @ desc) st else Ok st)"

definition MS_WARN_TAG_STD :: "log_build \<Rightarrow> Configuration \<Rightarrow> (LogTags \<Rightarrow> bool) \<Rightarrow> log_site \<Rightarrow> bytes \<Rightarrow> log_state \<Rightarrow> log_state res" where
  "MS_WARN_TAG_STD b cfg tag site desc st =
     (if logLevel cfg \<ge> LOG_WARN \<and> tag (logTags cfg) then Ok (print_stderr (MS_LOG_STR_DESC b site @ desc @ [10]) st) else Ok st)"

definition MS_DEBUG_2TAGS ::
  "log_build \<Rightarrow> Configuration \<Rightarrow> (LogTags \<Rightarrow> bool) \<Rightarrow> (LogTags \<Rightarrow> bool) \<Rightarrow> log_site \<Rightarrow> bytes \<Rightarrow> log_state \<Rightarrow> log_state res" where
  "MS_DEBUG_2TAGS b cfg tag1 tag2 site desc st =
     (if logLevel cfg = LOG_DEBUG \<and> (tag1 (logTags cfg) \<or> tag2 (logTags cfg))
      then log_channel (str ''D'' @ MS_LOG_STR_DESC b site @ desc) st else Ok st)"

definition MS_DEBUG_2TAGS_STD ::
  "log_build \<Rightarrow> Configuration \<Rightarrow> (LogTags \<Rightarrow> bool) \<Rightarrow> (LogTags \<Rightarrow> bool) \<Rightarrow> log_site \<Rightarrow> bytes \<Rightarrow> log_state \<Rightarrow> log_state res" where
  "MS_DEBUG_2TAGS_STD b cfg tag1 tag2 site desc st =
     (if logLevel cfg = LOG_DEBUG \<and> (tag1 (logTags cfg) \<or> tag2 (logTags cfg))
      then Ok (print_stdout (MS_LOG_STR_DESC b site @ desc @ [10]) st) else Ok st)"

definition MS_WARN_2TAGS ::
  "log_build \<Rightarrow> Configuration \<Rightarrow> (LogTags \<Rightarrow> bool) \<Rightarrow> (LogTags \<Rightarrow> bool) \<Rightarrow> log_site \<Rightarrow> bytes \<Rightarrow> log_state \<Rightarrow> log_state res" where
  "MS_WARN_2TAGS b cfg tag1 tag2 site desc st =
     (if logLevel cfg \<ge> LOG_WARN \<and> (tag1 (logTags cfg) \<or> tag2 (logTags cfg))
      then log_channel (str ''W'' @ MS_LOG_STR_DESC b site @ desc) st else Ok st)"

definition MS_WARN_2TAGS_STD ::
  "log_build \<Rightarrow> Configuration \<Rightarrow> (LogTags \<Rightarrow> bool) \<Rightarrow> (LogTags \<Rightarrow> bool) \<Rightarrow> log_site \<Rightarrow> bytes \<Rightarrow> log_state \<Rightarrow> log_state res" where
  "MS_WARN_2TAGS_STD b cfg tag1 tag2 site desc st =
     (if logLevel cfg \<ge> LOG_WARN \<and> (tag1 (logTags cfg) \<or> tag2 (logTags cfg))
      then Ok (print_stderr (MS_LOG_STR_DESC b site @ desc @ [10]) st) else Ok st)"

definition MS_DEBUG_DEV :: "log_build \<Rightarrow> log_site \<Rightarrow> bytes \<Rightarrow> log_state \<Rightarrow> log_state res" where
  "MS_DEBUG_DEV b site desc st =
     (if MS_LOG_DEV_LEVEL b = 3 then log_channel (str ''D'' @ MS_LOG_STR_DESC b site @ desc) st else Ok st)"

definition MS_DEBUG_DEV_STD :: "log_build \<Rightarrow> log_site \<Rightarrow> bytes \<Rightarrow> log_state \<Rightarrow> log_state res" where
  "MS_DEBUG_DEV_STD b site desc st =
     (if MS_LOG_DEV_LEVEL b = 3 then Ok (print_stdout (MS_LOG_STR_DESC b site @ desc @ [10]) st) else Ok st)"

definition MS_WARN_DEV :: "log_build \<Rightarrow> log_site \<Rightarrow> bytes \<Rightarrow> log_state \<Rightarrow> log_state res" where
  "MS_WARN_DEV b site desc st =
     (if MS_LOG_DEV_LEVEL b \<ge> 2 then log_channel (str ''W'' @ MS_LOG_STR_DESC b site @ desc) st else Ok st)"

definition MS_WARN_DEV_STD :: "log_build \<Rightarrow> log_site \<Rightarrow> bytes \<Rightarrow> log_state \<Rightarrow> log_state res" where
  "MS_WARN_DEV_STD b site desc st =
     (if MS_LOG_DEV_LEVEL b \<ge> 2 then Ok (print_stderr (MS_LOG_STR_DESC b site @ desc @ [10]) st) else Ok st)"

definition MS_DUMP :: "log_build \<Rightarrow> log_site \<Rightarrow> bytes \<Rightarrow> log_state \<Rightarrow> log_state res" where
  "MS_DUMP b site desc st = log_channel (str ''X'' @ MS_LOG_STR_DESC b site @ desc) st"

definition MS_DUMP_STD :: "log_build \<Rightarrow> log_site \<Rightarrow> bytes \<Rightarrow> log_state \<Rightarrow> log_state res" where
  "MS_DUMP_STD b site desc st = Ok (print_stdout (MS_LOG_STR_DESC b site @ desc @ [10]) st)"

definition MS_ERROR :: "log_build \<Rightarrow> Configuration \<Rightarrow> log_site \<Rightarrow> bytes \<Rightarrow> log_state \<Rightarrow> log_state res" where
  "MS_ERROR b cfg site desc st =
     (if logLevel cfg \<ge> LOG_ERROR \<or> MS_LOG_DEV_LEVEL b \<ge> 1 then log_channel (str ''E'' @ MS_LOG_STR_DESC b site @ desc) st else Ok st)"

definition MS_ERROR_STD :: "log_build \<Rightarrow> Configuration \<Rightarrow> log_site \<Rightarrow> bytes \<Rightarrow> log_state \<Rightarrow> log_state res" where
  "MS_ERROR_STD b cfg site desc st =
     (if logLevel cfg \<ge> LOG_ERROR \<or> MS_LOG_DEV_LEVEL b \<ge> 1 then Ok (print_stderr (MS_LOG_STR_DESC b site @ desc @ [10]) st) else Ok st)"

text \<open>\<open>MS_ABORT\<close> ends the process; the fault carries the text that is the last of the error stream.\<close>

definition MS_ABORT :: "log_build \<Rightarrow> log_site \<Rightarrow> bytes \<Rightarrow> log_state \<Rightarrow> 'a res" where
  "MS_ABORT b site desc st =
     Fault (Abort (map (\<lambda>c. char_of (unat c)) (lg_stderr (print_stderr (str ''(ABORT) '' @ MS_LOG_STR_DESC b site @ desc @ [10]) st))))"

definition MS_ASSERT :: "log_build \<Rightarrow> log_site \<Rightarrow> bool \<Rightarrow> bytes \<Rightarrow> bytes \<Rightarrow> log_state \<Rightarrow> log_state res" where
  "MS_ASSERT b site condition condition_text desc st =
     (if \<not> condition then MS_ABORT b site (str ''failed assertion `'' @ condition_text @ [39] @ str '': '' @ desc) st else Ok st)"

text \<open>With \<open>MS_LOG_STD\<close> the names of the macros stand for the variants that print.\<close>

definition macro_variant :: "log_build \<Rightarrow> 'a \<Rightarrow> 'a \<Rightarrow> 'a" where
  "macro_variant b channel_variant std_variant = (if MS_LOG_STD b then std_variant else channel_variant)"

text \<open>\<open>Logger::ClassInit\<close>, with whether its argument is a channel or null.\<close>

definition Logger_ClassInit :: "log_build \<Rightarrow> Configuration \<Rightarrow> log_site \<Rightarrow> bool \<Rightarrow> log_state \<Rightarrow> log_state res" where
  "Logger_ClassInit b cfg site channel st = macro_variant b MS_TRACE MS_TRACE_STD b cfg site (st\<lparr>lg_set := channel\<rparr>)"


section \<open>Hexadecimal dumps\<close>

text \<open>Upper case digits, as \<open>hex_digit\<close> of the fingerprints.\<close>

fun hex_digits :: "nat \<Rightarrow> bytes" where
  "hex_digits n = (if n < 16 then [hex_digit n] else hex_digits (n div 16) @ [hex_digit (n mod 16)])"

declare hex_digits.simps [simp del]

text \<open>The conversion \<open>%0wX\<close>.\<close>

definition format_X :: "nat \<Rightarrow> nat \<Rightarrow> bytes" where
  "format_X w n = replicate (w - length (hex_digits n)) 48 @ hex_digits n"

text \<open>The text of an offset, cast to 32 bits, and of a byte.\<close>

definition dump_offset :: "nat \<Rightarrow> bytes" where
  "dump_offset i = format_X 6 (i mod 2 ^ 32) @ str '' ''"

definition dump_byte :: "byte \<Rightarrow> bytes" where
  "dump_byte c = format_X 2 (unat c) @ str '' ''"

text \<open>An \<open>snprintf\<close> at the end of what the buffer holds; the size argument is always that of the whole buffer.\<close>

definition dump_append :: "bytes \<Rightarrow> nat \<Rightarrow> log_state \<Rightarrow> (nat \<times> log_state) res" where
  "dump_append text bufferDataLen st =
     rbind (snprintf (lg_buffer st) bufferDataLen bufferSize text) (\<lambda>(buffer, loggerWritten).
     Ok (bufferDataLen + loggerWritten, st\<lparr>lg_buffer := buffer\<rparr>))"

text \<open>The loop over the data, for a function that passes a full line on and the text that starts a line.\<close>

function dump_loop ::
  "(nat \<Rightarrow> log_state \<Rightarrow> log_state res) \<Rightarrow> byte \<Rightarrow> bytes \<Rightarrow> nat \<Rightarrow> nat \<Rightarrow> nat \<Rightarrow> log_state \<Rightarrow> (nat \<times> log_state) res" where
  "dump_loop emit mark data len i bufferDataLen st =
     (if i < len then
        rbind (if i mod 8 = 0 then
                 rbind (if bufferDataLen \<noteq> 0 then rbind (emit bufferDataLen st) (\<lambda>st. Ok (0, st)) else Ok (bufferDataLen, st)) (\<lambda>(bufferDataLen, st).
                 dump_append (mark # dump_offset i) bufferDataLen st)
               else Ok (bufferDataLen, st)) (\<lambda>(bufferDataLen, st).
        rbind (rd data i) (\<lambda>c.
        rbind (dump_append (dump_byte c) bufferDataLen st) (\<lambda>(bufferDataLen, st).
        dump_loop emit mark data len (i + 1) bufferDataLen st)))
      else Ok (bufferDataLen, st))"
  by pat_completeness auto
termination
  by (relation "measure (\<lambda>(emit, mark, data, len, i, bufferDataLen, st). len - i)") auto

declare dump_loop.simps [simp del]

definition emit_channel :: "nat \<Rightarrow> log_state \<Rightarrow> log_state res" where
  "emit_channel bufferDataLen st = SendLog bufferDataLen st"

definition MS_DUMP_DATA :: "log_build \<Rightarrow> log_site \<Rightarrow> bytes \<Rightarrow> nat \<Rightarrow> log_state \<Rightarrow> log_state res" where
  "MS_DUMP_DATA b site data len st =
     rbind (log_channel (str ''X(data) '' @ MS_LOG_STR b site) st) (\<lambda>st.
     rbind (dump_loop emit_channel (of_char (CHR ''X'')) data len 0 0 st) (\<lambda>(bufferDataLen, st).
     if bufferDataLen \<noteq> 0 then emit_channel bufferDataLen st else Ok st))"

text \<open>The printing variant ends the line in the buffer with a zero and prints the buffer as a string.\<close>

definition emit_stdout :: "nat \<Rightarrow> log_state \<Rightarrow> log_state res" where
  "emit_stdout bufferDataLen st =
     rbind (wr (lg_buffer st) bufferDataLen 0) (\<lambda>buffer.
     Ok (print_stdout (cstr buffer) (st\<lparr>lg_buffer := buffer\<rparr>)))"

definition MS_DUMP_DATA_STD :: "log_build \<Rightarrow> log_site \<Rightarrow> bytes \<Rightarrow> nat \<Rightarrow> log_state \<Rightarrow> log_state res" where
  "MS_DUMP_DATA_STD b site data len st =
     rbind (dump_loop emit_stdout 10 data len 0 0 (print_stdout (str ''(data) '' @ MS_LOG_STR b site @ [10]) st)) (\<lambda>(bufferDataLen, st).
     if bufferDataLen \<noteq> 0 then emit_stdout bufferDataLen st else Ok st)"

section \<open>Exceptions\<close>

datatype ms_error = MediaSoupError bytes | MediaSoupTypeError bytes

text \<open>The throwing macros: the error is logged, its text goes into a static array of 2000 bytes, and an exception with that string is thrown. The
  value is the logger's state and the exception.\<close>

definition throw_text :: "bytes \<Rightarrow> bytes \<Rightarrow> bytes res" where
  "throw_text buffer desc = rbind (snprintf buffer 0 2000 desc) (\<lambda>(buffer, n). Ok (cstr buffer))"

definition MS_THROW_ERROR :: "log_build \<Rightarrow> Configuration \<Rightarrow> log_site \<Rightarrow> bytes \<Rightarrow> bytes \<Rightarrow> log_state \<Rightarrow> (ms_error \<times> log_state) res" where
  "MS_THROW_ERROR b cfg site buffer desc st =
     rbind (macro_variant b MS_ERROR MS_ERROR_STD b cfg site (str ''throwing MediaSoupError: '' @ desc) st) (\<lambda>st.
     rbind (throw_text buffer desc) (\<lambda>t. Ok (MediaSoupError t, st)))"

definition MS_THROW_ERROR_STD :: "log_build \<Rightarrow> Configuration \<Rightarrow> log_site \<Rightarrow> bytes \<Rightarrow> bytes \<Rightarrow> log_state \<Rightarrow> (ms_error \<times> log_state) res" where
  "MS_THROW_ERROR_STD b cfg site buffer desc st =
     rbind (MS_ERROR_STD b cfg site (str ''throwing MediaSoupError: '' @ desc) st) (\<lambda>st.
     rbind (throw_text buffer desc) (\<lambda>t. Ok (MediaSoupError t, st)))"

definition MS_THROW_TYPE_ERROR :: "log_build \<Rightarrow> Configuration \<Rightarrow> log_site \<Rightarrow> bytes \<Rightarrow> bytes \<Rightarrow> log_state \<Rightarrow> (ms_error \<times> log_state) res" where
  "MS_THROW_TYPE_ERROR b cfg site buffer desc st =
     rbind (macro_variant b MS_ERROR MS_ERROR_STD b cfg site (str ''throwing MediaSoupTypeError: '' @ desc) st) (\<lambda>st.
     rbind (throw_text buffer desc) (\<lambda>t. Ok (MediaSoupTypeError t, st)))"

definition MS_THROW_TYPE_ERROR_STD :: "log_build \<Rightarrow> Configuration \<Rightarrow> log_site \<Rightarrow> bytes \<Rightarrow> bytes \<Rightarrow> log_state \<Rightarrow> (ms_error \<times> log_state) res" where
  "MS_THROW_TYPE_ERROR_STD b cfg site buffer desc st =
     rbind (MS_ERROR_STD b cfg site (str ''throwing MediaSoupTypeError: '' @ desc) st) (\<lambda>st.
     rbind (throw_text buffer desc) (\<lambda>t. Ok (MediaSoupTypeError t, st)))"

section \<open>Hexadecimal text\<close>

definition logger_ok :: "log_state \<Rightarrow> bool" where
  "logger_ok st \<longleftrightarrow> length (lg_buffer st) = bufferSize \<and> lg_set st"

text \<open>The value of a hexadecimal digit, and a reader of digit pairs that are followed by a space.\<close>

definition read_hex :: "byte \<Rightarrow> nat" where
  "read_hex c = (if c \<le> 57 then unat c - 48 else unat c - 55)"

fun read_bytes :: "bytes \<Rightarrow> bytes" where
  "read_bytes (a # b # s # cs) = of_nat (16 * read_hex a + read_hex b) # read_bytes cs"
| "read_bytes _ = []"

text \<open>A line: the bytes after the first space.\<close>

definition read_dump_line :: "bytes \<Rightarrow> bytes" where
  "read_dump_line l = read_bytes (tl (dropWhile (\<lambda>c. c \<noteq> 32) l))"

lemma unat_hex_digit: "d < 16 \<Longrightarrow> unat (hex_digit d) = (if d < 10 then 48 + d else 55 + d)"
proof -
  assume "d < 16"
  then have "d \<in> {0, 1, 2, 3, 4, 5, 6, 7, 8, 9, 10, 11, 12, 13, 14, 15}" by (rule u16_literal_bits)
  then show ?thesis by (auto simp: hex_digit_def str_def)
qed

lemma read_hex_digit: "d < 16 \<Longrightarrow> read_hex (hex_digit d) = d"
  by (simp add: read_hex_def word_le_nat_alt unat_hex_digit)

lemma hex_digit_neq: "d < 16 \<Longrightarrow> hex_digit d \<noteq> 0 \<and> hex_digit d \<noteq> 32"
  by (auto simp: word_unat_eq_iff unat_hex_digit)

lemma length_hex_digits: "n < 16 ^ k \<Longrightarrow> 0 < k \<Longrightarrow> length (hex_digits n) \<le> k"
proof (induction n arbitrary: k rule: hex_digits.induct)
  case (1 n)
  show ?case
  proof (cases "n < 16")
    case False
    then obtain j where k: "k = Suc j" "0 < j" using "1.prems" by (cases k; cases "k - 1") auto
    then have "n div 16 < 16 ^ j" using "1.prems"(1) by (simp add: less_mult_imp_div_less mult.commute)
    then show ?thesis using "1.IH" [OF False _ k(2)] False k(1) by (subst hex_digits.simps) simp
  qed (use "1.prems" in \<open>subst hex_digits.simps, simp\<close>)
qed

lemma hex_digits_text: "0 \<notin> set (hex_digits n)" "32 \<notin> set (hex_digits n)"
proof (induction n rule: hex_digits.induct)
  case (1 n)
  { case 1 then show ?case using "1.IH"(1) hex_digit_neq by (subst hex_digits.simps) (auto simp: hex_digit_neq) }
  { case 2 then show ?case using "1.IH"(2) hex_digit_neq by (subst hex_digits.simps) (auto simp: hex_digit_neq) }
qed

lemma dump_byte_eq: "dump_byte c = [hex_digit (unat c div 16), hex_digit (unat c mod 16), 32]"
proof -
  have "hex_digits n = (if n < 16 then [hex_digit n] else [hex_digit (n div 16), hex_digit (n mod 16)])" if "n < 256" for n
    using that by (subst hex_digits.simps, subst hex_digits.simps) (simp add: less_mult_imp_div_less)
  from this [of "unat c"] unat_byte_less [of c] show ?thesis
    by (auto simp: dump_byte_def format_X_def str_def) (simp_all add: hex_digit_def str_def)
qed

lemma dump_byte_text: "length (dump_byte c) = 3" "0 \<notin> set (dump_byte c)"
  using unat_byte_less [of c] by (auto simp: dump_byte_eq dest: sym simp: hex_digit_neq less_mult_imp_div_less)

lemma dump_offset_text: "length (dump_offset i) \<le> 9" "0 \<notin> set (dump_offset i)"
proof -
  have "length (hex_digits (i mod 2 ^ 32)) \<le> 8" by (rule length_hex_digits) simp_all
  then show "length (dump_offset i) \<le> 9" by (simp add: dump_offset_def format_X_def str_def)
  show "0 \<notin> set (dump_offset i)" by (simp add: dump_offset_def format_X_def str_def hex_digits_text)
qed

lemma read_dump_byte: "read_bytes (dump_byte c @ cs) = c # read_bytes cs"
proof -
  have "unat c div 16 < 16" using unat_byte_less [of c] by (simp add: less_mult_imp_div_less)
  then show ?thesis by (simp add: dump_byte_eq read_hex_digit)
qed

lemma read_dump_bytes: "read_bytes (concat (map dump_byte cs)) = cs"
  by (induction cs) (simp_all add: read_dump_byte)

lemma dropWhile_offset: "mark \<noteq> 32 \<Longrightarrow> dropWhile (\<lambda>c. c \<noteq> 32) (mark # dump_offset i @ rest) = 32 # rest"
proof -
  assume m: "mark \<noteq> 32"
  have h: "\<forall>c \<in> set (format_X 6 n). c \<noteq> 32" for n using hex_digits_text(2) [of n] by (auto simp: format_X_def)
  then show ?thesis using m by (simp add: dump_offset_def str_def dropWhile_append2)
qed

section \<open>Dumps\<close>

text \<open>The lines of a dump: eight bytes each.\<close>

function dump_lines :: "byte \<Rightarrow> nat \<Rightarrow> bytes \<Rightarrow> bytes list" where
  "dump_lines mark i cs =
     (if cs = [] then []
      else (mark # dump_offset i @ concat (map dump_byte (take 8 cs))) # dump_lines mark (i + 8) (drop 8 cs))"
  by pat_completeness auto
termination
  by (relation "measure (\<lambda>(mark, i, cs). length cs)") auto

declare dump_lines.simps [simp del]

lemma read_one_dump_line: "mark \<noteq> 32 \<Longrightarrow> read_dump_line (mark # dump_offset i @ concat (map dump_byte cs)) = cs"
  unfolding read_dump_line_def by (simp only: dropWhile_offset list.sel read_dump_bytes not_False_eq_True)

lemma read_dump_lines: "mark \<noteq> 32 \<Longrightarrow> concat (map read_dump_line (dump_lines mark i cs)) = cs"
proof (induction mark i cs rule: dump_lines.induct)
  case (1 mark i cs)
  then show ?case
    by (subst dump_lines.simps) (simp add: read_one_dump_line)
qed

lemma length_dump_lines: "length (dump_lines mark i cs) = (length cs + 7) div 8"
proof (induction mark i cs rule: dump_lines.induct)
  case (1 mark i cs)
  show ?case
  proof (cases "cs = []")
    case False
    have "Suc ((n - 8 + 7) div 8) = (n + 7) div 8" if "0 < n" for n :: nat
    proof -
      have "(n + 7) div 8 = Suc ((n - 1) div 8)" using that by (subst le_div_geq) simp_all
      moreover have "(n - 8 + 7) div 8 = (n - 1) div 8" by (cases "n < 8") simp_all
      ultimately show ?thesis by simp
    qed
    moreover have "length (dump_lines mark i cs) = Suc ((length (drop 8 cs) + 7) div 8)"
      using 1 False by (subst dump_lines.simps) simp
    ultimately show ?thesis using False by simp
  qed (subst dump_lines.simps, simp)
qed

lemma length_dump_line: "l \<in> set (dump_lines mark i cs) \<Longrightarrow> length l \<le> 34"
proof (induction mark i cs rule: dump_lines.induct)
  case (1 mark i cs)
  have "length (concat (map dump_byte (take 8 cs))) \<le> 24"
    by (simp add: length_concat comp_def dump_byte_text sum_list_triv)
  then have "length (mark # dump_offset i @ concat (map dump_byte (take 8 cs))) \<le> 34"
    using dump_offset_text(1) [of i] by simp
  then show ?case using 1 by (subst (asm) dump_lines.simps) (auto split: if_splits)
qed

text \<open>What the loop makes of the data from index \<open>i\<close> on, when the buffer holds the text \<open>cur\<close>.\<close>

fun hex_lines :: "byte \<Rightarrow> nat \<Rightarrow> bytes \<Rightarrow> bytes \<Rightarrow> bytes list" where
  "hex_lines mark i cur [] = (if cur = [] then [] else [cur])"
| "hex_lines mark i cur (c # cs) =
     (if i mod 8 = 0 then (if cur = [] then [] else [cur]) @ hex_lines mark (i + 1) (mark # dump_offset i @ dump_byte c) cs
      else hex_lines mark (i + 1) (cur @ dump_byte c) cs)"

lemma hex_lines_rest:
  assumes "i mod 8 + n = 8" "i mod 8 \<noteq> 0"
  shows "hex_lines mark i cur cs = hex_lines mark (i + n) (cur @ concat (map dump_byte (take n cs))) (drop n cs)"
  using assms
proof (induction n arbitrary: i cur cs)
  case (Suc n)
  show ?case
  proof (cases cs)
    case Nil
    then show ?thesis by simp
  next
    case (Cons c cs')
    then have step: "hex_lines mark i cur cs = hex_lines mark (i + 1) (cur @ dump_byte c) cs'" using Suc.prems by simp
    show ?thesis
    proof (cases "n = 0")
      case False
      then have "(i + 1) mod 8 + n = 8" "(i + 1) mod 8 \<noteq> 0" using Suc.prems by (auto simp: mod_Suc)
      from Suc.IH [OF this] step Cons show ?thesis by simp
    qed (use step Cons in simp)
  qed
qed simp

lemma hex_lines_lines: "i mod 8 = 0 \<Longrightarrow> hex_lines mark i cur cs = (if cur = [] then [] else [cur]) @ dump_lines mark i cs"
proof (induction mark i cs arbitrary: cur rule: dump_lines.induct)
  case (1 mark i cs)
  show ?case
  proof (cases cs)
    case Nil
    then show ?thesis by (subst dump_lines.simps) simp
  next
    case (Cons c cs')
    have m: "(i + 1) mod 8 + 7 = 8" "(i + 1) mod 8 \<noteq> 0" "(i + 8) mod 8 = 0" using "1.prems" by (simp_all add: mod_Suc)
    have "hex_lines mark i cur cs = (if cur = [] then [] else [cur]) @
        hex_lines mark (i + 8) (mark # dump_offset i @ concat (map dump_byte (take 8 cs))) (drop 8 cs)"
    proof -
      have t: "take 8 cs = c # take 7 cs'" "drop 8 cs = drop 7 cs'" "i + 1 + 7 = i + 8" using Cons by (simp_all add: eval_nat_numeral)
      show ?thesis
        using "1.prems" hex_lines_rest [OF m(1,2), of mark "mark # dump_offset i @ dump_byte c" cs']
        unfolding t unfolding Cons by simp
    qed
    then show ?thesis using "1.IH" [OF _ m(3)] Cons by (subst dump_lines.simps) simp
  qed
qed

text \<open>A place for lines: passing on the line that the buffer holds adds it to the output.\<close>

definition holds :: "log_state \<Rightarrow> bytes \<Rightarrow> bool" where
  "holds st cur \<longleftrightarrow> logger_ok st \<and> length cur \<le> 34 \<and> take (length cur) (lg_buffer st) = cur \<and> 0 \<notin> set cur"

locale dump_sink =
  fixes emit :: "nat \<Rightarrow> log_state \<Rightarrow> log_state res" and out :: "log_state \<Rightarrow> 'o" and add :: "bytes \<Rightarrow> 'o \<Rightarrow> 'o"
  assumes out_buffer: "out (st\<lparr>lg_buffer := buffer\<rparr>) = out st"
    and emit_line: "holds st cur \<Longrightarrow> \<exists>st'. emit (length cur) st = Inr st' \<and> logger_ok st' \<and> out st' = add cur (out st)"
begin

lemma dump_append_ok:
  assumes "holds st cur" "length cur + length t \<le> 34" "0 \<notin> set t"
  shows "\<exists>st'. dump_append t (length cur) st = Inr (length (cur @ t), st') \<and> holds st' (cur @ t) \<and> out st' = out st"
proof -
  let ?b = "take (length cur) (lg_buffer st) @ (t @ [0]) @ drop (length cur + (length t + 1)) (lg_buffer st)"
  have "length cur + (length t + 1) \<le> length (lg_buffer st)" "take (bufferSize - 1) t = t"
    using assms by (simp_all add: holds_def logger_ok_def bufferSize_def)
  then have "dump_append t (length cur) st = Inr (length (cur @ t), st\<lparr>lg_buffer := ?b\<rparr>)"
    by (simp add: dump_append_def snprintf_def wr_range_def bufferSize_def)
  moreover have "holds (st\<lparr>lg_buffer := ?b\<rparr>) (cur @ t)"
    using assms by (simp add: holds_def logger_ok_def bufferSize_def)
  ultimately show ?thesis by (simp add: out_buffer)
qed

lemma start_line:
  assumes "holds st cur" "0 \<noteq> mark"
  shows "\<exists>st'. rbind (if length cur \<noteq> 0 then rbind (emit (length cur) st) (\<lambda>st. Ok (0, st)) else Ok (length cur, st)) (\<lambda>(bufferDataLen, st).
      dump_append (mark # dump_offset i) bufferDataLen st) = Inr (length (mark # dump_offset i), st') \<and>
    holds st' (mark # dump_offset i) \<and> out st' = fold add (if cur = [] then [] else [cur]) (out st)"
proof -
  obtain st1 where st1: "(if length cur \<noteq> 0 then rbind (emit (length cur) st) (\<lambda>st. Ok (0, st)) else Ok (length cur, st)) = Inr (0, st1)"
    "logger_ok st1" "out st1 = fold add (if cur = [] then [] else [cur]) (out st)"
  proof (cases "cur = []")
    case True
    then show thesis using that assms(1) by (simp add: holds_def)
  next
    case False
    then show thesis using that emit_line [OF assms(1)] by auto
  qed
  have "holds st1 []" using st1(2) by (simp add: holds_def)
  moreover have "length (mark # dump_offset i) \<le> 34" "0 \<notin> set (mark # dump_offset i)"
    using dump_offset_text [of i] assms(2) by auto
  ultimately show ?thesis using dump_append_ok [of st1 "[]" "mark # dump_offset i"] st1(3)
    by (simp only: st1(1) rbind_simps prod.case append_Nil list.size add_0 not_False_eq_True)
qed

text \<open>The start of an iteration: a new line, or nothing.\<close>

lemma iteration_start:
  assumes h: "holds st cur" "mark \<noteq> 0" and b: "i mod 8 \<noteq> 0 \<Longrightarrow> length cur \<le> 10 + 3 * (i mod 8)"
  obtains line st' where
    "(if i mod 8 = 0 then
        rbind (if length cur \<noteq> 0 then rbind (emit (length cur) st) (\<lambda>st. Ok (0, st)) else Ok (length cur, st)) (\<lambda>(bufferDataLen, st).
          dump_append (mark # dump_offset i) bufferDataLen st)
      else Ok (length cur, st)) = Inr (length line, st')"
    "holds st' line" "length line \<le> 10 + 3 * (i mod 8)"
    "fold add (hex_lines mark i cur (c # cs)) (out st) = fold add (hex_lines mark (i + 1) (line @ dump_byte c) cs) (out st')"
proof (cases "i mod 8 = 0")
  case True
  from start_line [OF h(1) h(2) [symmetric], of i] obtain st' where
    st': "rbind (if length cur \<noteq> 0 then rbind (emit (length cur) st) (\<lambda>st. Ok (0, st)) else Ok (length cur, st)) (\<lambda>(bufferDataLen, st).
        dump_append (mark # dump_offset i) bufferDataLen st) = Inr (length (mark # dump_offset i), st')"
    "holds st' (mark # dump_offset i)" "out st' = fold add (if cur = [] then [] else [cur]) (out st)" by blast
  show thesis
  proof (rule that [of "mark # dump_offset i" st'])
    show "length (mark # dump_offset i) \<le> 10 + 3 * (i mod 8)" using dump_offset_text(1) [of i] by simp
  qed (use True st' in simp_all)
next
  case False
  then show thesis using that [of cur st] h b by simp
qed

lemma dump_loop_ok:
  assumes "holds st cur" "i mod 8 \<noteq> 0 \<Longrightarrow> length cur \<le> 10 + 3 * (i mod 8)" "mark \<noteq> 0" "len \<le> length data"
  shows "\<exists>cur' st'. dump_loop emit mark data len i (length cur) st = Inr (length cur', st') \<and> holds st' cur' \<and>
    fold add (if cur' = [] then [] else [cur']) (out st') = fold add (hex_lines mark i cur (drop i (take len data))) (out st)"
  using assms
proof (induction "len - i" arbitrary: i cur st)
  case 0
  then show ?case by (subst dump_loop.simps) auto
next
  case (Suc k)
  let ?c = "data ! i"
  have i: "i < len" "i < length data" "k = len - (i + 1)" using Suc.hyps(2) Suc.prems(4) by auto
  have d: "drop i (take len data) = ?c # drop (i + 1) (take len data)" using i Suc.prems(4) by (simp add: Cons_nth_drop_Suc [symmetric])
  obtain line st1 where s1:
    "(if i mod 8 = 0 then
        rbind (if length cur \<noteq> 0 then rbind (emit (length cur) st) (\<lambda>st. Ok (0, st)) else Ok (length cur, st)) (\<lambda>(bufferDataLen, st).
          dump_append (mark # dump_offset i) bufferDataLen st)
      else Ok (length cur, st)) = Inr (length line, st1)"
    "holds st1 line" "length line \<le> 10 + 3 * (i mod 8)"
    "fold add (hex_lines mark i cur (?c # drop (i + 1) (take len data))) (out st) =
     fold add (hex_lines mark (i + 1) (line @ dump_byte ?c) (drop (i + 1) (take len data))) (out st1)"
    using iteration_start [OF Suc.prems(1,3,2)] by metis
  have m: "i mod 8 < 8" "(i + 1) mod 8 \<noteq> 0 \<Longrightarrow> (i + 1) mod 8 = i mod 8 + 1" by (auto simp: mod_Suc)
  obtain st2 where s2: "dump_append (dump_byte ?c) (length line) st1 = Inr (length (line @ dump_byte ?c), st2)"
    "holds st2 (line @ dump_byte ?c)" "out st2 = out st1"
    using dump_append_ok [OF s1(2), of "dump_byte ?c"] s1(3) m(1) by (auto simp: dump_byte_text)
  have "(i + 1) mod 8 \<noteq> 0 \<Longrightarrow> length (line @ dump_byte ?c) \<le> 10 + 3 * ((i + 1) mod 8)" using m(2) s1(3) by (simp add: dump_byte_text)
  from Suc.hyps(1) [OF i(3) s2(2) this Suc.prems(3,4)] obtain cur' st' where
    "dump_loop emit mark data len (i + 1) (length (line @ dump_byte ?c)) st2 = Inr (length cur', st')" "holds st' cur'"
    "fold add (if cur' = [] then [] else [cur']) (out st') = fold add (hex_lines mark i cur (drop i (take len data))) (out st)"
    unfolding d s1(4) s2(3) by blast
  moreover have "dump_loop emit mark data len i (length cur) st = dump_loop emit mark data len (i + 1) (length (line @ dump_byte ?c)) st2"
    by (subst dump_loop.simps) (simp only: i(1) if_True s1(1) rbind_simps prod.case rd_ok [OF i(2)] s2(1))
  ultimately show ?case by metis
qed

text \<open>A whole dump: the loop and the last line.\<close>

lemma dump_ok:
  assumes "logger_ok st" "mark \<noteq> 0" "len \<le> length data"
  shows "\<exists>st'. rbind (dump_loop emit mark data len 0 0 st) (\<lambda>(bufferDataLen, st). if bufferDataLen \<noteq> 0 then emit bufferDataLen st else Ok st) = Inr st' \<and>
    logger_ok st' \<and> out st' = fold add (dump_lines mark 0 (take len data)) (out st)"
proof -
  have "holds st []" using assms(1) by (simp add: holds_def)
  from dump_loop_ok [OF this, of 0 mark len data] assms(2,3) obtain cur' st' where
    l: "dump_loop emit mark data len 0 0 st = Inr (length cur', st')" "holds st' cur'"
    "fold add (if cur' = [] then [] else [cur']) (out st') = fold add (dump_lines mark 0 (take len data)) (out st)"
    by (auto simp: hex_lines_lines)
  show ?thesis
  proof (cases "cur' = []")
    case True
    then show ?thesis using l by (simp add: holds_def del: rbind_eq_Inr)
  next
    case False
    then show ?thesis using l emit_line [OF l(2)] by (auto simp del: rbind_eq_Inr)
  qed
qed

end

definition sent_lines :: "log_state \<Rightarrow> bytes list" where
  "sent_lines st = map (\<lambda>(buffer, n). take n buffer) (lg_channel st)"

interpretation channel: dump_sink emit_channel sent_lines "\<lambda>l ls. ls @ [l]"
  by unfold_locales (auto simp: emit_channel_def sent_lines_def SendLog_def record_call_def holds_def logger_ok_def)

interpretation stdout: dump_sink emit_stdout lg_stdout "\<lambda>l out. out @ l"
proof
  fix st cur assume h: "holds st cur"
  let ?b = "(lg_buffer st)[length cur := 0]"
  have n: "length cur < length (lg_buffer st)" using h by (simp add: holds_def logger_ok_def bufferSize_def)
  then have "?b = cur @ 0 # drop (Suc (length cur)) (lg_buffer st)" using h by (simp add: upd_conv_take_nth_drop holds_def)
  moreover have "\<forall>c \<in> set cur. c \<noteq> 0" using h by (auto simp: holds_def)
  ultimately have "cstr ?b = cur" by (simp add: cstr_def takeWhile_append2)
  then show "\<exists>st'. emit_stdout (length cur) st = Inr st' \<and> logger_ok st' \<and> lg_stdout st' = lg_stdout st @ cur"
    using h n by (simp add: emit_stdout_def wr_def print_stdout_def logger_ok_def holds_def)
qed simp

lemma fold_snoc: "fold (\<lambda>l ls. ls @ [l]) xs ys = ys @ xs" "fold (\<lambda>l out. out @ l) xs zs = zs @ concat xs"
  by (induction xs arbitrary: ys zs) auto

section \<open>Messages\<close>

text \<open>The buffer after a message: its first 49999 characters and a zero.\<close>

lemma log_channel_eq:
  assumes "logger_ok st"
  shows "\<exists>rest. log_channel t st = Inr (record_call (length t) (st\<lparr>lg_buffer := take 49999 t @ 0 # rest\<rparr>)) \<and>
    length (take 49999 t @ 0 # rest) = bufferSize"
  using assms
  by (intro exI [of _ "drop (Suc (min (length t) 49999)) (lg_buffer st)"])
    (simp add: log_channel_def snprintf_def wr_range_def logger_ok_def bufferSize_def SendLog_def)

text \<open>The calls of macros as data: which macro, with which tags. \<open>log_macro\<close> is what the name of the macro stands for in a build.\<close>

datatype log_call =
    Trace | DebugTag "LogTags \<Rightarrow> bool" | WarnTag "LogTags \<Rightarrow> bool" | Debug2Tags "LogTags \<Rightarrow> bool" "LogTags \<Rightarrow> bool"
  | Warn2Tags "LogTags \<Rightarrow> bool" "LogTags \<Rightarrow> bool" | DebugDev | WarnDev | Dump | Error

fun log_macro :: "log_build \<Rightarrow> Configuration \<Rightarrow> log_call \<Rightarrow> log_site \<Rightarrow> bytes \<Rightarrow> log_state \<Rightarrow> log_state res" where
  "log_macro b cfg Trace site desc = macro_variant b MS_TRACE MS_TRACE_STD b cfg site"
| "log_macro b cfg (DebugTag t) site desc = macro_variant b MS_DEBUG_TAG MS_DEBUG_TAG_STD b cfg t site desc"
| "log_macro b cfg (WarnTag t) site desc = macro_variant b MS_WARN_TAG MS_WARN_TAG_STD b cfg t site desc"
| "log_macro b cfg (Debug2Tags t u) site desc = macro_variant b MS_DEBUG_2TAGS MS_DEBUG_2TAGS_STD b cfg t u site desc"
| "log_macro b cfg (Warn2Tags t u) site desc = macro_variant b MS_WARN_2TAGS MS_WARN_2TAGS_STD b cfg t u site desc"
| "log_macro b cfg DebugDev site desc = macro_variant b MS_DEBUG_DEV MS_DEBUG_DEV_STD b site desc"
| "log_macro b cfg WarnDev site desc = macro_variant b MS_WARN_DEV MS_WARN_DEV_STD b site desc"
| "log_macro b cfg Dump site desc = macro_variant b MS_DUMP MS_DUMP_STD b site desc"
| "log_macro b cfg Error site desc = macro_variant b MS_ERROR MS_ERROR_STD b cfg site desc"

text \<open>The specification: when a call logs, with which text, and to which stream if it prints.\<close>

fun logs :: "log_build \<Rightarrow> Configuration \<Rightarrow> log_call \<Rightarrow> bool" where
  "logs b cfg Trace \<longleftrightarrow> MS_LOG_TRACE b \<and> logLevel cfg = LOG_DEBUG"
| "logs b cfg (DebugTag t) \<longleftrightarrow> MS_HAS_DEBUG_TAG cfg t"
| "logs b cfg (WarnTag t) \<longleftrightarrow> MS_HAS_WARN_TAG cfg t"
| "logs b cfg (Debug2Tags t u) \<longleftrightarrow> MS_HAS_DEBUG_TAG cfg t \<or> MS_HAS_DEBUG_TAG cfg u"
| "logs b cfg (Warn2Tags t u) \<longleftrightarrow> MS_HAS_WARN_TAG cfg t \<or> MS_HAS_WARN_TAG cfg u"
| "logs b cfg DebugDev \<longleftrightarrow> MS_LOG_DEV_LEVEL b = 3"
| "logs b cfg WarnDev \<longleftrightarrow> MS_LOG_DEV_LEVEL b \<ge> 2"
| "logs b cfg Dump \<longleftrightarrow> True"
| "logs b cfg Error \<longleftrightarrow> MS_ERROR_logs (MS_LOG_DEV_LEVEL b) cfg"

fun letter :: "log_call \<Rightarrow> byte" where
  "letter Trace = of_char (CHR ''D'')" | "letter (DebugTag t) = of_char (CHR ''D'')" | "letter (Debug2Tags t u) = of_char (CHR ''D'')"
| "letter DebugDev = of_char (CHR ''D'')" | "letter (WarnTag t) = of_char (CHR ''W'')" | "letter (Warn2Tags t u) = of_char (CHR ''W'')"
| "letter WarnDev = of_char (CHR ''W'')" | "letter Dump = of_char (CHR ''X'')" | "letter Error = of_char (CHR ''E'')"

fun to_stderr :: "log_call \<Rightarrow> bool" where
  "to_stderr (WarnTag t) = True" | "to_stderr (Warn2Tags t u) = True" | "to_stderr WarnDev = True" | "to_stderr Error = True"
| "to_stderr _ = False"

definition message :: "log_build \<Rightarrow> log_call \<Rightarrow> log_site \<Rightarrow> bytes \<Rightarrow> bytes" where
  "message b call site desc =
     (if call = Trace then str ''(trace) '' @ MS_LOG_STR b site else MS_LOG_STR b site @ str '' | '' @ desc)"

lemma log_macro_eq:
  "log_macro b cfg call site desc st =
     (if \<not> logs b cfg call then Ok st
      else if \<not> MS_LOG_STD b then log_channel (letter call # message b call site desc) st
      else Ok ((if to_stderr call then print_stderr else print_stdout) (message b call site desc @ [10]) st))"
  by (cases call)
    (auto simp: macro_variant_def message_def str_def MS_LOG_STR_DESC_def MS_HAS_DEBUG_TAG_def MS_HAS_WARN_TAG_def MS_ERROR_logs_def
      MS_TRACE_def MS_TRACE_STD_def MS_DEBUG_TAG_def MS_DEBUG_TAG_STD_def MS_WARN_TAG_def MS_WARN_TAG_STD_def MS_DEBUG_2TAGS_def
      MS_DEBUG_2TAGS_STD_def MS_WARN_2TAGS_def MS_WARN_2TAGS_STD_def MS_DEBUG_DEV_def MS_DEBUG_DEV_STD_def MS_WARN_DEV_def
      MS_WARN_DEV_STD_def MS_DUMP_def MS_DUMP_STD_def MS_ERROR_def MS_ERROR_STD_def)

lemma logs_ordered:
  "logs b cfg (DebugTag t) \<Longrightarrow> logs b cfg (WarnTag t)" "logs b cfg (WarnTag t) \<Longrightarrow> logs b cfg Error" "logs b new_Configuration Error"
  by (simp_all add: log_conditions)

text \<open>The binary notation of a 16-bit value reads as the value.\<close>

definition read_binary :: "bytes \<Rightarrow> nat" where
  "read_binary cs = foldl (\<lambda>a c. 2 * a + of_bool (c = of_char (CHR ''1''))) 0 cs"

lemma read_bits:
  "foldl (\<lambda>a c. 2 * a + of_bool (c = (49 :: byte))) a (map (\<lambda>k. if bit m k then 49 else 48) (rev [0..<n])) = a * 2 ^ n + take_bit n (m :: nat)"
  by (induction n arbitrary: a) (simp_all add: take_bit_Suc_from_most algebra_simps)

lemma uint16_binary: "read_binary (MS_UINT16_TO_BINARY v) = unat v" "length (MS_UINT16_TO_BINARY v) = 16"
proof -
  have m: "v AND (2 ^ k) \<noteq> 0 \<longleftrightarrow> bit (unat v) k" for k
  proof -
    have "v AND (2 ^ k) \<noteq> 0 \<longleftrightarrow> bit v k" by (simp add: bit_iff_and_push_bit_not_eq_0 push_bit_eq_mult)
    then show ?thesis by (simp add: bit_unsigned_iff)
  qed
  have "MS_UINT16_TO_BINARY v = map (\<lambda>k. if bit (unat v) k then 49 else 48) (rev [0..<16])"
  proof -
    have "rev [0..<16] = [15, 14, 13, 12, 11, 10, 9, 8, 7, 6, 5, 4, 3, 2, 1, 0 :: nat]" by code_simp
    then have "[0x8000, 0x4000, 0x2000, 0x1000, 0x800, 0x400, 0x200, 0x100, 0x80, 0x40, 0x20, 0x10, 0x08, 0x04, 0x02, 0x01 :: uint16] =
      map (\<lambda>k. 2 ^ k) (rev [0..<16])" by simp
    then have "MS_UINT16_TO_BINARY v = map ((\<lambda>mask. if v AND mask \<noteq> 0 then 49 else 48) \<circ> (\<lambda>k. 2 ^ k)) (rev [0..<16])"
      unfolding MS_UINT16_TO_BINARY_def map_map [symmetric] by simp
    then show ?thesis by (simp only: comp_def m)
  qed
  then show "read_binary (MS_UINT16_TO_BINARY v) = unat v"
    using read_bits [of 0 "unat v" 16] unat_u16_less [of v] by (simp add: read_binary_def take_bit_nat_eq_self)
  show "length (MS_UINT16_TO_BINARY v) = 16" by (simp add: MS_UINT16_TO_BINARY_def)
qed

lemma throw_text_eq: "length buffer = 2000 \<Longrightarrow> throw_text buffer desc = Inr (cstr (take 1999 desc))"
proof -
  assume b: "length buffer = 2000"
  have "cstr (t @ 0 # rest) = cstr t" for t rest by (induction t) (simp_all add: cstr_def)
  with b show ?thesis by (simp add: throw_text_def snprintf_def wr_range_def)
qed

definition logged :: "log_build \<Rightarrow> Configuration \<Rightarrow> log_call \<Rightarrow> log_site \<Rightarrow> bytes \<Rightarrow> log_state \<Rightarrow> log_state \<Rightarrow> bool" where
  "logged b cfg call site desc st st' \<longleftrightarrow>
     (if \<not> logs b cfg call then st' = st
      else if MS_LOG_STD b then
        st' = (if to_stderr call then st\<lparr>lg_stderr := lg_stderr st @ message b call site desc @ [10]\<rparr>
               else st\<lparr>lg_stdout := lg_stdout st @ message b call site desc @ [10]\<rparr>)
      else
        (\<exists>rest. lg_buffer st' = take 49999 (letter call # message b call site desc) @ 0 # rest \<and>
           st' = st\<lparr>lg_buffer := lg_buffer st', lg_channel := lg_channel st @ [(lg_buffer st', 1 + length (message b call site desc))]\<rparr>))"

lemma log_macro_logged:
  assumes "logger_ok st"
  shows "\<exists>st'. log_macro b cfg call site desc st = Inr st' \<and> logger_ok st' \<and> logged b cfg call site desc st st'"
proof -
  let ?m = "letter call # message b call site desc"
  obtain rest where "log_channel ?m st = Inr (record_call (length ?m) (st\<lparr>lg_buffer := take 49999 ?m @ 0 # rest\<rparr>))"
    "length (take 49999 ?m @ 0 # rest) = bufferSize" using log_channel_eq [OF assms, of ?m] by blast
  then show ?thesis
    using assms by (simp add: log_macro_eq record_call_def logger_ok_def print_stdout_def print_stderr_def logged_def)
qed

lemma log_macro_unset: "logs b cfg call \<and> \<not> MS_LOG_STD b \<longrightarrow> log_macro b cfg call site desc new_Logger = Inl NullDeref"
  by (simp add: log_macro_eq log_channel_def snprintf_def wr_range_def new_Logger_def bufferSize_def SendLog_def)

lemma throw_logged:
  assumes "length buffer = 2000"
  shows "MS_THROW_ERROR b cfg site buffer desc st =
      rbind (log_macro b cfg Error site (str ''throwing MediaSoupError: '' @ desc) st) (\<lambda>st'. Ok (MediaSoupError (cstr (take 1999 desc)), st'))"
    "MS_THROW_TYPE_ERROR b cfg site buffer desc st =
      rbind (log_macro b cfg Error site (str ''throwing MediaSoupTypeError: '' @ desc) st) (\<lambda>st'. Ok (MediaSoupTypeError (cstr (take 1999 desc)), st'))"
  by (simp_all add: MS_THROW_ERROR_def MS_THROW_TYPE_ERROR_def throw_text_eq [OF assms])

lemma dump_channel:
  assumes "logger_ok st" and "len \<le> length data"
  shows "\<exists>st' heading. MS_DUMP_DATA b site data len st = Inr st' \<and> logger_ok st' \<and>
      sent_lines st' = sent_lines st @ [heading] @ dump_lines (of_char (CHR ''X'')) 0 (take len data)"
proof -
  obtain st1 heading where "log_channel (str ''X(data) '' @ MS_LOG_STR b site) st = Inr st1" "logger_ok st1" "sent_lines st1 = sent_lines st @ [heading]"
    using log_channel_eq [OF assms(1), of "str ''X(data) '' @ MS_LOG_STR b site"] assms(1) by (auto simp: logger_ok_def record_call_def sent_lines_def)
  then show ?thesis
    using channel.dump_ok [of st1 "of_char (CHR ''X'')" len data] assms(2) by (auto simp: MS_DUMP_DATA_def fold_snoc simp del: rbind_eq_Inr)
qed

lemma dump_stdout:
  assumes "logger_ok st" and "len \<le> length data"
  shows "\<exists>st'. MS_DUMP_DATA_STD b site data len st = Inr st' \<and> logger_ok st' \<and>
      lg_stdout st' = lg_stdout st @ str ''(data) '' @ MS_LOG_STR b site @ [10] @ concat (dump_lines 10 0 (take len data))"
proof -
  have "logger_ok (print_stdout t st)" for t using assms(1) by (simp add: logger_ok_def print_stdout_def)
  then show ?thesis
    using stdout.dump_ok [of "print_stdout (str ''(data) '' @ MS_LOG_STR b site @ [10]) st" 10 len data] assms(2)
    by (auto simp: MS_DUMP_DATA_STD_def fold_snoc print_stdout_def simp del: rbind_eq_Inr)
qed

section \<open>Properties\<close>



text \<open>Dumps of data. For any data, a dump to the channel sends a heading and then one line for every eight bytes, and a dump to the standard output
  prints the same lines. No line is longer than 34 characters, so that no write leaves the buffer although each \<open>snprintf\<close> is told that the
  whole buffer is free; and reading the lines gives back exactly the data. The binary notation of a 16-bit value has 16 digits and
  reads as the value.\<close>

theorem dump_data:
  assumes "logger_ok st" and "len \<le> length data"
  shows "(\<exists>st' heading. MS_DUMP_DATA b site data len st = Inr st' \<and> logger_ok st' \<and>
      sent_lines st' = sent_lines st @ [heading] @ dump_lines (of_char (CHR ''X'')) 0 (take len data)) \<and>
    (\<exists>st'. MS_DUMP_DATA_STD b site data len st = Inr st' \<and> logger_ok st' \<and>
      lg_stdout st' = lg_stdout st @ str ''(data) '' @ MS_LOG_STR b site @ [10] @ concat (dump_lines 10 0 (take len data))) \<and>
    (\<forall>mark. mark \<noteq> 32 \<longrightarrow> concat (map read_dump_line (dump_lines mark 0 (take len data))) = take len data) \<and>
    (\<forall>mark. length (dump_lines mark 0 (take len data)) = (len + 7) div 8 \<and> list_all (\<lambda>l. length l \<le> 34) (dump_lines mark 0 (take len data))) \<and>
    (\<forall>v. length (MS_UINT16_TO_BINARY v) = 16 \<and> read_binary (MS_UINT16_TO_BINARY v) = unat v)"
  using dump_channel [OF assms] dump_stdout [OF assms] assms(2)
  by (simp add: read_dump_lines length_dump_lines uint16_binary list_all_iff length_dump_line)

theorem dump_data_witness:
  "\<exists>st'. MS_DUMP_DATA \<lparr>MS_LOG_STD = False, MS_LOG_TRACE = False, MS_LOG_FILE_LINE = False, MS_LOG_DEV_LEVEL = 0\<rparr>
      \<lparr>ls_file = [], ls_line = 1, MS_CLASS = str ''A'', ls_function = str ''f''\<rparr> [1, 2, 3] 3 (new_Logger\<lparr>lg_set := True\<rparr>) = Inr st' \<and> logger_ok st'"
proof -
  have "logger_ok (new_Logger\<lparr>lg_set := True\<rparr>)" by (simp add: logger_ok_def new_Logger_def)
  from dump_data [OF this, of 3 "[1, 2, 3]"] show ?thesis by fastforce
qed

end
