(* ===== verification/Dumps.thy ===== *)
theory Dumps
  imports Sdp Logger
begin

text \<open>
  What the program prints about itself: \<open>StunPacket::Dump\<close>, \<open>DtlsTransport::Dump\<close>, \<open>Settings::PrintConfiguration\<close> and the event handler of
  libsrtp, as sequences of calls of the logging macros.
\<close>

section \<open>Sequences of messages\<close>

fun log_all :: "log_build \<Rightarrow> Configuration \<Rightarrow> log_call \<Rightarrow> log_site \<Rightarrow> bytes list \<Rightarrow> log_state \<Rightarrow> log_state res" where
  "log_all b cfg call site [] st = Ok st"
| "log_all b cfg call site (d # ds) st = rbind (log_macro b cfg call site d st) (log_all b cfg call site ds)"

text \<open>The loop that prints bytes as two hexadecimal digits each into an array, every time with a terminating zero.\<close>

function hex_print_loop :: "bytes \<Rightarrow> nat \<Rightarrow> nat \<Rightarrow> nat \<Rightarrow> bytes \<Rightarrow> bytes res" where
  "hex_print_loop source off n i target =
     (if i < n then
        rbind (rd source (off + i)) (\<lambda>c.
        rbind (snprintf target (i * 2) 3 (map tolower (format_X 2 (unat c)))) (\<lambda>(target, _).
        hex_print_loop source off n (i + 1) target))
      else Ok target)"
  by pat_completeness auto
termination
  by (relation "measure (\<lambda>(source, off, n, i, target). n - i)") auto

declare hex_print_loop.simps [simp del]

section \<open>StunPacket::Dump\<close>

fun Class_name :: "Class \<Rightarrow> string" where
  "Class_name REQUEST = ''Request''"
| "Class_name INDICATION = ''Indication''"
| "Class_name SUCCESS_RESPONSE = ''SuccessResponse''"
| "Class_name ERROR_RESPONSE = ''ErrorResponse''"

text \<open>The conversion \<open>%#.3x\<close>: at least three digits, with a prefix unless the value is zero.\<close>

definition format_method :: "nat \<Rightarrow> bytes" where
  "format_method n = (if n = 0 then [] else str ''0x'') @ map tolower (format_X 3 n)"

text \<open>\<open>Utils::IP::GetAddressInfo\<close> has an empty body: it leaves its three results as they are.\<close>

definition GetAddressInfo :: "sockaddr \<Rightarrow> int \<times> bytes \<times> uint16 \<Rightarrow> int \<times> bytes \<times> uint16" where
  "GetAddressInfo addr results = results"

text \<open>The messages. \<open>uninit\<close> are the values the two uninitialised variables happen to have.\<close>

definition stun_dump_lines :: "int \<times> uint16 \<Rightarrow> bytes \<Rightarrow> bytes option \<Rightarrow> stun_packet \<Rightarrow> bytes list" where
  "stun_dump_lines uninit transactionId messageIntegrity pkt =
     [str ''<StunPacket>'',
      if p_method pkt = BINDING then str ''  Binding '' @ str (Class_name (p_klass pkt))
      else str ''  '' @ str (Class_name (p_klass pkt)) @ str '' with unknown method '' @ format_method (unat (p_method pkt)),
      str ''  size: '' @ decimal_digits (p_size pkt) @ str '' bytes'',
      str ''  transactionId: '' @ cstr transactionId] @
     (if p_errorCode pkt \<noteq> 0 then [str ''  errorCode: '' @ decimal_digits (unat (p_errorCode pkt))] else []) @
     (if p_username pkt \<noteq> [] then [str ''  username: '' @ cstr (p_username pkt)] else []) @
     (if p_priority pkt \<noteq> 0 then [str ''  priority: '' @ decimal_digits (unat (p_priority pkt))] else []) @
     (if p_iceControlling pkt \<noteq> 0 then [str ''  iceControlling: '' @ decimal_digits (unat (p_iceControlling pkt))] else []) @
     (if p_iceControlled pkt \<noteq> 0 then [str ''  iceControlled: '' @ decimal_digits (unat (p_iceControlled pkt))] else []) @
     (if p_hasUseCandidate pkt then [str ''  useCandidate''] else []) @
     (case p_xorMappedAddress pkt of
        None \<Rightarrow> []
      | Some addr \<Rightarrow>
          let (family, ip, port) = GetAddressInfo addr (fst uninit, [], snd uninit)
          in [str ''  xorMappedAddress: '' @ cstr ip @ str '' : '' @ decimal_digits (unat port)]) @
     (case messageIntegrity of None \<Rightarrow> [] | Some text \<Rightarrow> [str ''  messageIntegrity: '' @ cstr text]) @
     (if p_hasFingerprint pkt then [str ''  has fingerprint''] else []) @
     [str ''</StunPacket>'']"

text \<open>The two static arrays, of 25 and of 41 bytes, are arguments.\<close>

definition StunPacket_Dump ::
  "log_build \<Rightarrow> Configuration \<Rightarrow> log_site \<Rightarrow> int \<times> uint16 \<Rightarrow> bytes \<Rightarrow> bytes \<Rightarrow> stun_packet \<Rightarrow> log_state \<Rightarrow> log_state res" where
  "StunPacket_Dump b cfg site uninit transactionId messageIntegrity pkt st =
     rbind (log_macro b cfg Trace site [] st) (\<lambda>st.
     rbind (hex_print_loop (p_transactionId pkt) 0 12 0 transactionId) (\<lambda>transactionId.
     rbind (case p_messageIntegrity pkt of
              None \<Rightarrow> Ok None
            | Some off \<Rightarrow>
                (case p_data pkt of
                   None \<Rightarrow> Fault NullDeref
                 | Some data \<Rightarrow> rbind (hex_print_loop data off 20 0 messageIntegrity) (\<lambda>text. Ok (Some text)))) (\<lambda>text.
     log_all b cfg Dump site (stun_dump_lines uninit transactionId text pkt) st)))"

section \<open>DtlsTransport::Dump\<close>

fun DtlsState_name :: "DtlsState \<Rightarrow> string" where
  "DtlsState_name CONNECTING = ''connecting''"
| "DtlsState_name CONNECTED = ''connected''"
| "DtlsState_name FAILED = ''failed''"
| "DtlsState_name CLOSED = ''closed''"
| "DtlsState_name DtlsState.NEW = ''new''"

fun Role_name :: "Role \<Rightarrow> string" where
  "Role_name AUTO = ''auto''"
| "Role_name SERVER = ''server''"
| "Role_name CLIENT = ''client''"
| "Role_name Role.NONE = ''none ''"

definition DtlsTransport_Dump :: "log_build \<Rightarrow> Configuration \<Rightarrow> log_site \<Rightarrow> 'ssl dtls_transport \<Rightarrow> log_state \<Rightarrow> log_state res" where
  "DtlsTransport_Dump b cfg site t st =
     rbind (log_macro b cfg Trace site [] st) (\<lambda>st.
     log_all b cfg Dump site
       [str ''<DtlsTransport>'', str ''  state           : '' @ str (DtlsState_name (d_state t)),
        str ''  role            : '' @ str (Role_name (d_localRole t)),
        str ''  handshake done: : '' @ str (if d_handshakeDone t then ''yes'' else ''no''), str ''</DtlsTransport>''] st)"

section \<open>Settings::PrintConfiguration\<close>

definition logTagsStream :: "bytes list \<Rightarrow> bytes" where
  "logTagsStream tags = (if tags \<noteq> [] then concat (map (\<lambda>t. t @ str '','') (butlast tags)) @ last tags else [])"

text \<open>\<open>logLevel2String\<close> is indexed, which inserts an empty string for a level that is not there.\<close>

definition level_name :: "LogLevel \<Rightarrow> bytes" where
  "level_name l = (case map_of logLevel2String l of None \<Rightarrow> [] | Some s \<Rightarrow> s)"

definition configuration_lines :: "Configuration \<Rightarrow> bytes list" where
  "configuration_lines cfg =
     [str ''<configuration>'', str ''  logLevel            : '' @ cstr (level_name (logLevel cfg)),
      str ''  logTags             : '' @ cstr (logTagsStream (PrintConfiguration_tags (logTags cfg))),
      str ''  rtcMinPort          : '' @ decimal_digits (unat (rtcMinPort cfg)),
      str ''  rtcMaxPort          : '' @ decimal_digits (unat (rtcMaxPort cfg))] @
     (if dtlsCertificateFile cfg \<noteq> [] then
        [str ''  dtlsCertificateFile : '' @ cstr (dtlsCertificateFile cfg), str ''  dtlsPrivateKeyFile  : '' @ cstr (dtlsPrivateKeyFile cfg)]
      else []) @
     [str ''</configuration>'']"

definition PrintConfiguration :: "log_build \<Rightarrow> Configuration \<Rightarrow> log_site \<Rightarrow> log_state \<Rightarrow> log_state res" where
  "PrintConfiguration b cfg site st =
     rbind (log_macro b cfg Trace site [] st) (log_all b cfg (DebugTag tag_info) site (configuration_lines cfg))"

section \<open>SrtpSession::OnSrtpEvent\<close>

datatype srtp_event = event_ssrc_collision | event_key_soft_limit | event_key_hard_limit | event_packet_index_limit

fun srtp_event_text :: "srtp_event \<Rightarrow> string" where
  "srtp_event_text event_ssrc_collision = ''SSRC collision occurred''"
| "srtp_event_text event_key_soft_limit = ''stream reached the soft key usage limit and will expire soon''"
| "srtp_event_text event_key_hard_limit = ''stream reached the hard key usage limit and has expired''"
| "srtp_event_text event_packet_index_limit = ''stream reached the hard packet limit (2^48 packets)''"

definition OnSrtpEvent :: "log_build \<Rightarrow> Configuration \<Rightarrow> log_site \<Rightarrow> srtp_event \<Rightarrow> log_state \<Rightarrow> log_state res" where
  "OnSrtpEvent b cfg site event st =
     rbind (log_macro b cfg Trace site [] st) (log_macro b cfg (WarnTag tag_srtp) site (str (srtp_event_text event)))"

section \<open>Hexadecimal text\<close>

text \<open>Two lower case digits for every byte, and a reader.\<close>

definition hex_pairs :: "bytes \<Rightarrow> bytes" where
  "hex_pairs bs = concat (map (\<lambda>c. map tolower (format_X 2 (unat c))) bs)"

definition read_lower :: "byte \<Rightarrow> nat" where
  "read_lower c = (if c \<le> 57 then unat c - 48 else unat c - 87)"

fun read_pairs :: "bytes \<Rightarrow> bytes" where
  "read_pairs (a # b # cs) = of_nat (16 * read_lower a + read_lower b) # read_pairs cs"
| "read_pairs _ = []"

lemma format_byte: "format_X 2 (unat (c :: byte)) = [hex_digit (unat c div 16), hex_digit (unat c mod 16)]"
  using dump_byte_eq [of c] by (simp add: dump_byte_def str_def)

lemma lower_digit: "d < 16 \<Longrightarrow> read_lower (tolower (hex_digit d)) = d \<and> tolower (hex_digit d) \<noteq> 0"
proof -
  assume "d < 16"
  then have "d \<in> {0, 1, 2, 3, 4, 5, 6, 7, 8, 9, 10, 11, 12, 13, 14, 15}" by (rule u16_literal_bits)
  then show ?thesis by (auto simp: hex_digit_def str_def tolower_def read_lower_def)
qed

lemma byte_digits: "unat (c :: byte) div 16 < 16" "unat c mod 16 < 16"
  using unat_byte_less [of c] by (simp_all add: less_mult_imp_div_less)

lemma read_hex_pairs: "read_pairs (hex_pairs bs) = bs"
proof (induction bs)
  case (Cons c bs)
  then show ?case using lower_digit [OF byte_digits(1) [of c]] lower_digit [OF byte_digits(2) [of c]]
    by (simp add: hex_pairs_def format_byte)
qed (simp add: hex_pairs_def)

lemma hex_pairs_text: "length (hex_pairs bs) = 2 * length bs" "0 \<notin> set (hex_pairs bs)"
proof (induction bs)
  case (Cons c bs)
  { case 1 then show ?case using Cons by (simp add: hex_pairs_def format_byte) }
  { case 2 then show ?case using Cons lower_digit [OF byte_digits(1) [of c]] lower_digit [OF byte_digits(2) [of c]]
      by (auto simp: hex_pairs_def format_byte) }
qed (simp_all add: hex_pairs_def)

text \<open>The loop fills the array from the front; the zero of one iteration is overwritten by the next.\<close>

lemma hex_print_loop_eq:
  "off + n \<le> length source \<Longrightarrow> length target = 2 * n + 1 \<Longrightarrow> i \<le> n \<Longrightarrow> take (2 * i) target = hex_pairs (take i (drop off source)) \<Longrightarrow>
   0 < i \<longrightarrow> target ! (2 * i) = 0 \<Longrightarrow> 0 < n \<Longrightarrow>
   hex_print_loop source off n i target = Inr (hex_pairs (take n (drop off source)) @ [0])"
proof (induction "n - i" arbitrary: i target)
  case 0
  then have "i = n" "take (2 * n) target = hex_pairs (take n (drop off source))" "target ! (2 * n) = 0" by auto
  moreover have "target = take (2 * n) target @ [target ! (2 * n)]" using take_Suc_conv_app_nth [of "2 * n" target] 0 by simp
  ultimately show ?case by (subst hex_print_loop.simps) simp
next
  case (Suc k)
  then have i: "i < n" "off + i < length source" "k = n - (i + 1)" by auto
  let ?h = "map tolower (format_X 2 (unat (source ! (off + i))))"
  let ?t = "take (2 * i) target @ (?h @ [0]) @ drop (2 * i + 3) target"
  have h: "length ?h = 2" by (simp add: format_byte)
  have l: "length (take (2 * i) target) = 2 * i" using i(1) Suc.prems(2) by simp
  have step: "hex_print_loop source off n i target = hex_print_loop source off n (i + 1) ?t"
    using i Suc.prems(2) h by (subst hex_print_loop.simps) (simp add: snprintf_def wr_range_def mult.commute)
  have p: "hex_pairs (take (i + 1) (drop off source)) = hex_pairs (take i (drop off source)) @ ?h"
    using i(2) by (simp add: take_Suc_conv_app_nth hex_pairs_def)
  have pre: "take (2 * (i + 1)) ?t = hex_pairs (take (i + 1) (drop off source))"
    unfolding p Suc.prems(4) [symmetric] using l h by simp
  have "?t ! (2 * (i + 1)) = 0" using l h by (simp add: nth_append)
  moreover have "length ?t = 2 * n + 1" using l h i(1) Suc.prems(2) by simp
  ultimately show ?case unfolding step using Suc.hyps(1) [OF i(3) Suc.prems(1), of ?t] pre i(1) Suc.prems(6) by simp
qed

lemma cstr_hex: "cstr (hex_pairs bs @ [0]) = hex_pairs bs"
proof -
  have "\<forall>c \<in> set (hex_pairs bs). c \<noteq> 0" using hex_pairs_text(2) [of bs] by auto
  then show ?thesis by (simp add: cstr_def takeWhile_append2)
qed

section \<open>Logging a sequence\<close>

definition logged_all :: "log_build \<Rightarrow> Configuration \<Rightarrow> log_call \<Rightarrow> log_site \<Rightarrow> bytes list \<Rightarrow> log_state \<Rightarrow> log_state \<Rightarrow> bool" where
  "logged_all b cfg call site ds st st' \<longleftrightarrow>
     (if \<not> logs b cfg call then st' = st
      else if MS_LOG_STD b then st' = st\<lparr>lg_stdout := lg_stdout st @ concat (map (\<lambda>d. message b call site d @ [10]) ds)\<rparr>
      else lg_stdout st' = lg_stdout st \<and> length (lg_channel st') = length (lg_channel st) + length ds)"

lemma log_all_ok:
  "logger_ok st \<Longrightarrow> \<not> to_stderr call \<Longrightarrow> \<exists>st'. log_all b cfg call site ds st = Inr st' \<and> logger_ok st' \<and> logged_all b cfg call site ds st st'"
proof (induction ds arbitrary: st)
  case (Cons d ds)
  obtain st1 where st1: "log_macro b cfg call site d st = Inr st1" "logger_ok st1" "logged b cfg call site d st st1"
    using log_macro_logged [OF Cons.prems(1)] by blast
  have "logged_all b cfg call site [d] st st1"
    using st1(3) Cons.prems(2) unfolding logged_def logged_all_def by (cases st; cases st1) (auto split: if_splits)
  with Cons.IH [OF st1(2) Cons.prems(2)] st1(1) show ?case by (auto simp: logged_all_def split: if_splits)
qed (simp add: logged_all_def)

lemma to_std: "\<not> to_stderr Dump" "\<not> to_stderr (DebugTag sel)" by simp_all

lemma no_trace: "logger_ok st \<Longrightarrow> \<exists>st'. log_macro b cfg Trace site [] st = Inr st' \<and> logger_ok st' \<and> (\<not> MS_LOG_TRACE b \<longrightarrow> st' = st)"
  using log_macro_logged [of st b cfg Trace site "[]"] unfolding logged_def by auto

section \<open>Tags\<close>

lemma split_join: "ps \<noteq> [] \<Longrightarrow> \<forall>p \<in> set ps. c \<notin> set p \<Longrightarrow> split_on c (join_with c ps) = ps"
proof (induction c ps rule: join_with.induct)
  case (2 c p)
  then show ?case by (subst split_on_unfold) simp
next
  case (3 c p q ps)
  have "takeWhile (\<lambda>x. x \<noteq> c) (p @ c # r) = p \<and> dropWhile (\<lambda>x. x \<noteq> c) (p @ c # r) = c # r" for r
    using "3.prems"(2) by (induction p) auto
  with 3 show ?case by (subst split_on_unfold) simp
qed simp

lemma logTagsStream_join: "logTagsStream tags = join_with 44 tags"
proof (induction "44 :: byte" tags rule: join_with.induct)
  case (3 p q ps)
  then show ?case by (simp add: logTagsStream_def str_def)
qed (simp_all add: logTagsStream_def)

lemma tags_determined: "set (PrintConfiguration_tags t) = set (PrintConfiguration_tags u) \<Longrightarrow> t = u"
proof -
  assume eq: "set (PrintConfiguration_tags t) = set (PrintConfiguration_tags u)"
  have m: "(str ''info'' \<in> set (PrintConfiguration_tags v)) = tag_info v" "(str ''ice'' \<in> set (PrintConfiguration_tags v)) = tag_ice v"
    "(str ''dtls'' \<in> set (PrintConfiguration_tags v)) = tag_dtls v" "(str ''rtp'' \<in> set (PrintConfiguration_tags v)) = tag_rtp v"
    "(str ''srtp'' \<in> set (PrintConfiguration_tags v)) = tag_srtp v" "(str ''rtcp'' \<in> set (PrintConfiguration_tags v)) = tag_rtcp v"
    "(str ''rtx'' \<in> set (PrintConfiguration_tags v)) = tag_rtx v" "(str ''bwe'' \<in> set (PrintConfiguration_tags v)) = tag_bwe v"
    "(str ''score'' \<in> set (PrintConfiguration_tags v)) = tag_score v" "(str ''simulcast'' \<in> set (PrintConfiguration_tags v)) = tag_simulcast v"
    "(str ''svc'' \<in> set (PrintConfiguration_tags v)) = tag_svc v" "(str ''sctp'' \<in> set (PrintConfiguration_tags v)) = tag_sctp v"
    "(str ''message'' \<in> set (PrintConfiguration_tags v)) = tag_message v" for v :: LogTags
    by (simp_all add: PrintConfiguration_tags_def str_def)
  show "t = u" by (rule LogTags.equality, simp_all only: m [symmetric] eq) simp
qed

lemma printed_tags:
  "set (PrintConfiguration_tags t) \<subseteq> set known_tags" "\<forall>p \<in> set (PrintConfiguration_tags t). 44 \<notin> set p \<and> 0 \<notin> set p"
proof -
  show k: "set (PrintConfiguration_tags t) \<subseteq> set known_tags" by (auto simp: PrintConfiguration_tags_def known_tags_def)
  have "\<forall>p \<in> set known_tags. 44 \<notin> set p \<and> 0 \<notin> set p" by (simp add: known_tags_def str_def)
  with k show "\<forall>p \<in> set (PrintConfiguration_tags t). 44 \<notin> set p \<and> 0 \<notin> set p" by blast
qed

lemma tags_reread: "fold set_tag (split_on 44 (logTagsStream (PrintConfiguration_tags t))) no_tags = t"
proof (cases "PrintConfiguration_tags t = []")
  case True
  then have "t = no_tags" by (intro tags_determined) simp
  moreover have "set_tag [] u = u" for u by (simp add: set_tag_def str_def)
  ultimately show ?thesis using True by (simp add: logTagsStream_def)
next
  case False
  then have "split_on 44 (logTagsStream (PrintConfiguration_tags t)) = PrintConfiguration_tags t"
    unfolding logTagsStream_join using printed_tags(2) [of t] by (intro split_join) auto
  moreover have "set (PrintConfiguration_tags t) \<inter> set known_tags = set (PrintConfiguration_tags t)" using printed_tags(1) by blast
  ultimately show ?thesis using SetLogTags_prints [of "PrintConfiguration_tags t" no_tags] by (intro tags_determined) simp
qed

lemma cstr_join: "\<forall>p \<in> set ps. 0 \<notin> set p \<Longrightarrow> cstr (join_with 44 ps) = join_with 44 ps"
proof -
  assume "\<forall>p \<in> set ps. 0 \<notin> set p"
  then have "0 \<notin> set (join_with 44 ps)" by (induction "44 :: byte" ps rule: join_with.induct) auto
  then show ?thesis by (auto simp: cstr_def takeWhile_eq_all_conv)
qed

section \<open>Properties\<close>

text \<open>Dumping a packet that was received. For every packet the parser accepts, the dump writes inside its two arrays and reads inside the packet, and
  logs its lines: class and method, size, the transaction id, each attribute that is there and the message integrity, the last ones in
  hexadecimal from which the bytes can be read back. The address of an XOR-MAPPED-ADDRESS is not among them: an empty text and an uninitialised
  number are printed instead.\<close>

theorem stun_dump:
  assumes "Parse data len = Inr (Some pkt)" and "len \<le> length data" and "len < 65536" and "logger_ok st"
    and "length tid = 25" and "length mi = 41"
  shows "\<exists>st' lines. StunPacket_Dump b cfg site uninit tid mi pkt st = Inr st' \<and> logger_ok st' \<and>
    lines = stun_dump_lines uninit (hex_pairs (p_transactionId pkt)) (map_option (\<lambda>off. hex_pairs (take 20 (drop off data))) (p_messageIntegrity pkt)) pkt \<and>
    (\<not> MS_LOG_TRACE b \<longrightarrow>
       (if MS_LOG_STD b then lg_stdout st' = lg_stdout st @ concat (map (\<lambda>d. message b Dump site d @ [10]) lines) \<and> lg_channel st' = lg_channel st
        else lg_stdout st' = lg_stdout st \<and> length (lg_channel st') = length (lg_channel st) + length lines)) \<and>
    read_pairs (hex_pairs (p_transactionId pkt)) = take 12 (drop 8 data) \<and>
    (\<forall>x. p_xorMappedAddress pkt = Some x \<longrightarrow> str ''  xorMappedAddress:  : '' @ decimal_digits (unat (snd uninit)) \<in> set lines)"
proof -
  have pp: "parsed_packet data len pkt" using Parse_parsed assms(1-3) by blast
  then have t: "p_transactionId pkt = take 12 (drop 8 data)" "length (p_transactionId pkt) = 12" "p_data pkt = Some data"
    using assms(2) by (auto simp: parsed_packet_def header_ok_def)
  have loop: "hex_print_loop (p_transactionId pkt) 0 12 0 tid = Inr (hex_pairs (p_transactionId pkt) @ [0])"
    using hex_print_loop_eq [of 0 12 "p_transactionId pkt" tid 0] t(2) assms(5) by (simp add: hex_pairs_def)
  have integrity: "(case p_messageIntegrity pkt of None \<Rightarrow> Ok None
      | Some off \<Rightarrow> (case p_data pkt of None \<Rightarrow> Fault NullDeref
          | Some data \<Rightarrow> rbind (hex_print_loop data off 20 0 mi) (\<lambda>text. Ok (Some text)))) =
    Inr (map_option (\<lambda>off. hex_pairs (take 20 (drop off data)) @ [0]) (p_messageIntegrity pkt))"
  proof (cases "p_messageIntegrity pkt")
    case (Some off)
    then have "off + 20 \<le> length data" using pp assms(2) by (auto simp: parsed_packet_def)
    with Some show ?thesis using hex_print_loop_eq [of off 20 data mi 0] assms(6) t(3) by (simp add: hex_pairs_def)
  qed simp
  let ?lines = "stun_dump_lines uninit (hex_pairs (p_transactionId pkt)) (map_option (\<lambda>off. hex_pairs (take 20 (drop off data))) (p_messageIntegrity pkt)) pkt"
  have lines: "stun_dump_lines uninit (hex_pairs (p_transactionId pkt) @ [0]) (map_option (\<lambda>off. hex_pairs (take 20 (drop off data)) @ [0]) (p_messageIntegrity pkt)) pkt = ?lines"
  proof -
    have "cstr (hex_pairs bs) = hex_pairs bs" for bs using hex_pairs_text(2) [of bs] by (auto simp: cstr_def takeWhile_eq_all_conv)
    then show ?thesis by (cases "p_messageIntegrity pkt") (simp_all add: stun_dump_lines_def cstr_hex)
  qed
  obtain st1 where st1: "log_macro b cfg Trace site [] st = Inr st1" "logger_ok st1" "\<not> MS_LOG_TRACE b \<longrightarrow> st1 = st"
    using no_trace [OF assms(4)] by blast
  obtain st2 where st2: "log_all b cfg Dump site ?lines st1 = Inr st2" "logger_ok st2" "logged_all b cfg Dump site ?lines st1 st2"
    using log_all_ok [OF st1(2), of Dump b cfg site ?lines] to_std(1) by blast
  have "StunPacket_Dump b cfg site uninit tid mi pkt st = Inr st2"
    using st1(1) st2(1) loop integrity lines by (simp add: StunPacket_Dump_def del: rbind_eq_Inr)
  moreover have "\<forall>x. p_xorMappedAddress pkt = Some x \<longrightarrow> str ''  xorMappedAddress:  : '' @ decimal_digits (unat (snd uninit)) \<in> set ?lines"
    by (auto simp: stun_dump_lines_def GetAddressInfo_def cstr_def str_def)
  moreover have "read_pairs (hex_pairs (p_transactionId pkt)) = take 12 (drop 8 data)" using read_hex_pairs t(1) by simp
  moreover have "\<not> MS_LOG_TRACE b \<longrightarrow>
       (if MS_LOG_STD b then lg_stdout st2 = lg_stdout st @ concat (map (\<lambda>d. message b Dump site d @ [10]) ?lines) \<and> lg_channel st2 = lg_channel st
        else lg_stdout st2 = lg_stdout st \<and> length (lg_channel st2) = length (lg_channel st) + length ?lines)"
    using st1(3) st2(3) by (auto simp: logged_all_def)
  ultimately show ?thesis using st2(2) by blast
qed

theorem stun_dump_witness:
  "\<exists>data st'. Parse data 72 = Inr (Some received_check) \<and>
    StunPacket_Dump \<lparr>MS_LOG_STD = True, MS_LOG_TRACE = False, MS_LOG_FILE_LINE = False, MS_LOG_DEV_LEVEL = 0\<rparr> new_Configuration
      \<lparr>ls_file = [], ls_line = 1, MS_CLASS = str ''A'', ls_function = str ''f''\<rparr> (0, 0) (replicate 25 0) (replicate 41 0) received_check (new_Logger\<lparr>lg_set := True\<rparr>) = Inr st' \<and>
    logger_ok st'"
proof -
  obtain data where d: "Parse data 72 = Inr (Some received_check)" "72 \<le> length data" using received_check_parsed by blast
  have "logger_ok (new_Logger\<lparr>lg_set := True\<rparr>)" by (simp add: logger_ok_def new_Logger_def)
  from stun_dump [OF d(1,2) _ this length_replicate length_replicate] d(1) show ?thesis by fastforce
qed

text \<open>The printed configuration describes the configuration. It is printed exactly if debug messages with the tag info are logged. The log
  level and the tags of the printed text, given back as options, are the level and the tags of the configuration, and the ports are its ports. The
  certificate is printed only if there is one.\<close>

theorem print_configuration:
  assumes "logger_ok st"
  shows "(\<exists>st'. PrintConfiguration b cfg site st = Inr st' \<and> logger_ok st' \<and>
      (\<not> MS_LOG_TRACE b \<longrightarrow>
         (if \<not> MS_HAS_DEBUG_TAG cfg tag_info then st' = st
          else if MS_LOG_STD b then
            st' = st\<lparr>lg_stdout := lg_stdout st @ concat (map (\<lambda>d. message b (DebugTag tag_info) site d @ [10]) (configuration_lines cfg))\<rparr>
          else length (lg_channel st') = length (lg_channel st) + length (configuration_lines cfg)))) \<and>
    (\<exists>level tags minp maxp rest. configuration_lines cfg =
        [str ''<configuration>'', str ''  logLevel            : '' @ level, str ''  logTags             : '' @ tags,
         str ''  rtcMinPort          : '' @ minp, str ''  rtcMaxPort          : '' @ maxp] @ rest \<and>
      level_of level = Some (logLevel cfg) \<and> logTags (SetLogTags (split_on 44 tags) cfg) = logTags cfg \<and>
      decimal_value minp = unat (rtcMinPort cfg) \<and> decimal_value maxp = unat (rtcMaxPort cfg) \<and>
      (length rest = 1 \<longleftrightarrow> dtlsCertificateFile cfg = []))"
proof -
  obtain st1 where st1: "log_macro b cfg Trace site [] st = Inr st1" "logger_ok st1" "\<not> MS_LOG_TRACE b \<longrightarrow> st1 = st"
    using no_trace [OF assms] by blast
  obtain st2 where st2: "log_all b cfg (DebugTag tag_info) site (configuration_lines cfg) st1 = Inr st2" "logger_ok st2"
    "logged_all b cfg (DebugTag tag_info) site (configuration_lines cfg) st1 st2"
    using log_all_ok [OF st1(2), of "DebugTag tag_info" b cfg site "configuration_lines cfg"] to_std(2) by blast
  have 1: "PrintConfiguration b cfg site st = Inr st2" using st1(1) st2(1) by (simp add: PrintConfiguration_def)
  have tags: "cstr (logTagsStream (PrintConfiguration_tags t)) = logTagsStream (PrintConfiguration_tags t)" for t
    unfolding logTagsStream_join using printed_tags(2) [of t] by (intro cstr_join) auto
  have level: "level_of (cstr (level_name (logLevel cfg))) = Some (logLevel cfg)"
    by (cases "logLevel cfg") (simp_all add: level_of_def level_name_def logLevel2String_def string2LogLevel_def cstr_def str_def ToLowerCase_def tolower_def)
  let ?rest = "(if dtlsCertificateFile cfg \<noteq> [] then
        [str ''  dtlsCertificateFile : '' @ cstr (dtlsCertificateFile cfg), str ''  dtlsPrivateKeyFile  : '' @ cstr (dtlsPrivateKeyFile cfg)]
      else []) @ [str ''</configuration>'']"
  have "configuration_lines cfg = [str ''<configuration>'', str ''  logLevel            : '' @ cstr (level_name (logLevel cfg)),
      str ''  logTags             : '' @ logTagsStream (PrintConfiguration_tags (logTags cfg)),
      str ''  rtcMinPort          : '' @ decimal_digits (unat (rtcMinPort cfg)), str ''  rtcMaxPort          : '' @ decimal_digits (unat (rtcMaxPort cfg))] @ ?rest"
    by (simp add: configuration_lines_def tags)
  moreover have "logTags (SetLogTags (split_on 44 (logTagsStream (PrintConfiguration_tags (logTags cfg)))) cfg) = logTags cfg"
    by (simp add: SetLogTags_def tags_reread)
  moreover have "length ?rest = 1 \<longleftrightarrow> dtlsCertificateFile cfg = []" by simp
  ultimately have 2: "\<exists>level tags minp maxp rest. configuration_lines cfg =
        [str ''<configuration>'', str ''  logLevel            : '' @ level, str ''  logTags             : '' @ tags,
         str ''  rtcMinPort          : '' @ minp, str ''  rtcMaxPort          : '' @ maxp] @ rest \<and>
      level_of level = Some (logLevel cfg) \<and> logTags (SetLogTags (split_on 44 tags) cfg) = logTags cfg \<and>
      decimal_value minp = unat (rtcMinPort cfg) \<and> decimal_value maxp = unat (rtcMaxPort cfg) \<and>
      (length rest = 1 \<longleftrightarrow> dtlsCertificateFile cfg = [])" using level decimal_value_digits by metis
  show ?thesis using 1 2 st2(2,3) st1(3) by (auto simp: logged_all_def)
qed

theorem print_configuration_witness:
  "\<exists>st'. PrintConfiguration \<lparr>MS_LOG_STD = True, MS_LOG_TRACE = False, MS_LOG_FILE_LINE = False, MS_LOG_DEV_LEVEL = 0\<rparr>
        (new_Configuration\<lparr>logLevel := LOG_DEBUG, logTags := no_tags\<lparr>tag_info := True\<rparr>\<rparr>)
      \<lparr>ls_file = [], ls_line = 1, MS_CLASS = str ''Settings'', ls_function = str ''PrintConfiguration''\<rparr> (new_Logger\<lparr>lg_set := True\<rparr>) = Inr st' \<and>
    take 48 (lg_stdout st') = str ''Settings::PrintConfiguration() | <configuration>'' \<and> lg_channel st' = []"
proof -
  let ?cfg = "new_Configuration\<lparr>logLevel := LOG_DEBUG, logTags := no_tags\<lparr>tag_info := True\<rparr>\<rparr>"
  have ok: "logger_ok (new_Logger\<lparr>lg_set := True\<rparr>)" and tag: "MS_HAS_DEBUG_TAG ?cfg tag_info"
    by (simp_all add: logger_ok_def new_Logger_def MS_HAS_DEBUG_TAG_def)
  have "hd (configuration_lines c) = str ''<configuration>'' \<and> configuration_lines c \<noteq> []" for c by (simp add: configuration_lines_def)
  then obtain r where r: "configuration_lines ?cfg = str ''<configuration>'' # r" by (metis list.collapse)
  from print_configuration [OF ok, of "\<lparr>MS_LOG_STD = True, MS_LOG_TRACE = False, MS_LOG_FILE_LINE = False, MS_LOG_DEV_LEVEL = 0\<rparr>" ?cfg
      "\<lparr>ls_file = [], ls_line = 1, MS_CLASS = str ''Settings'', ls_function = str ''PrintConfiguration''\<rparr>"] tag
  show ?thesis unfolding r by (auto simp: new_Logger_def message_def MS_LOG_STR_def str_def)
qed

end
