(* ===== verification/Remux.thy ===== *)
theory Remux
  imports Server
begin

text \<open>
  The remuxing thread of the sending example (example/rtp_src_example.cc \<open>H2642Rtp\<close>): it opens a file, finds its first video stream, and
  sends the frames of that stream as RTP for ever, through a muxer whose output callback hands every packet to the sessions that are ready.

  FFmpeg is a parameter: a state and one function per call, where a call that may run the output callback also returns the buffers it passes to
  it. The callback runs in this thread while the event loops go on, so each call of it finds the server in some state: \<open>snap k\<close> is
  the server at the call number \<open>k\<close>. Pointers are flags that are set while the pointer is not null. The time stamps advance by 40 with
  every frame, 25 times a second, and are integers here: they reach the largest signed 64-bit value only after more than 10 to the power 8 years.
\<close>

lemma unat_u32_less: "unat (w :: uint32) < 4294967296"
  using unsigned_less [of w] by simp

section \<open>FFmpeg\<close>

record av_packet =
  stream_index :: nat
  pk_data :: bytes
  pk_pts :: int
  pk_dts :: int
  pk_pos :: int

text \<open>The places codec parameters are copied between: input streams, output streams, and the two ends of the bit stream filter.\<close>

datatype codecpar = In_stream nat | Out_stream nat | Par_in | Par_out

record 'f ffmpeg =
  AVERROR_ENOMEM :: int
  AVERROR_UNKNOWN :: int
  AVERROR_EOF :: int
  av_bsf_get_by_name :: "string \<Rightarrow> bool"
  av_bsf_alloc :: "'f \<Rightarrow> bool \<times> 'f"
  av_malloc :: "nat \<Rightarrow> 'f \<Rightarrow> bool \<times> 'f"
  avio_alloc_context :: "nat \<Rightarrow> 'f \<Rightarrow> bool \<times> 'f"
  av_packet_alloc :: "'f \<Rightarrow> bool \<times> 'f"
  avformat_open_input :: "bytes \<Rightarrow> 'f \<Rightarrow> int \<times> 'f"
  avformat_find_stream_info :: "'f \<Rightarrow> int \<times> 'f"
  avformat_alloc_output_context2 :: "string \<Rightarrow> 'f \<Rightarrow> bool \<times> 'f"
  av_opt_set_int :: "string \<Rightarrow> int \<Rightarrow> 'f \<Rightarrow> 'f"
  AVFMT_NOFILE_set :: "'f \<Rightarrow> bool"
  nb_streams :: "'f \<Rightarrow> uint32"
  out_streams :: "'f \<Rightarrow> nat"
  codec_type_video :: "nat \<Rightarrow> 'f \<Rightarrow> bool"
  avformat_new_stream :: "'f \<Rightarrow> nat option \<times> 'f"
  avcodec_parameters_copy :: "codecpar \<Rightarrow> codecpar \<Rightarrow> 'f \<Rightarrow> int \<times> 'f"
  av_bsf_init :: "'f \<Rightarrow> int \<times> 'f"
  avformat_write_header :: "nat \<Rightarrow> 'f \<Rightarrow> int \<times> bytes list \<times> 'f"
  av_read_frame :: "av_packet \<Rightarrow> 'f \<Rightarrow> int \<times> av_packet \<times> 'f"
  av_seek_frame :: "nat \<Rightarrow> 'f \<Rightarrow> int \<times> 'f"
  av_bsf_send_packet :: "av_packet \<Rightarrow> 'f \<Rightarrow> int \<times> av_packet \<times> 'f"
  av_bsf_receive_packet :: "av_packet \<Rightarrow> 'f \<Rightarrow> int \<times> av_packet \<times> 'f"
  av_packet_rescale_ts :: "nat \<Rightarrow> nat \<Rightarrow> 'f \<Rightarrow> av_packet \<Rightarrow> av_packet"
  av_interleaved_write_frame :: "av_packet \<Rightarrow> 'f \<Rightarrow> int \<times> bytes list \<times> av_packet \<times> 'f"
  av_write_trailer :: "'f \<Rightarrow> bytes list \<times> 'f"

section \<open>The state of the thread\<close>

record 'f remux =
  rx_ff :: 'f
  rx_abs_ctx :: bool
  rx_avio_ctx_buffer :: bool
  rx_avio_ctx :: bool
  rx_max_packet_size :: nat
  rx_pkt :: bool
  rx_packet :: av_packet
  rx_ifmt_ctx :: bool
  rx_ofmt_ctx :: bool
  rx_pb :: bool
  rx_in_stream_index :: nat
  rx_pts :: int
  rx_calls :: nat
  rx_tasks :: "task list"
  rx_stderr :: bytes

definition new_remux :: "'f \<Rightarrow> 'f remux" where
  "new_remux f =
     \<lparr>rx_ff = f, rx_abs_ctx = False, rx_avio_ctx_buffer = False, rx_avio_ctx = False, rx_max_packet_size = 0, rx_pkt = False,
      rx_packet = \<lparr>stream_index = 0, pk_data = [], pk_pts = 0, pk_dts = 0, pk_pos = -1\<rparr>, rx_ifmt_ctx = False, rx_ofmt_ctx = False,
      rx_pb = False, rx_in_stream_index = 0, rx_pts = 0, rx_calls = 0, rx_tasks = [], rx_stderr = []\<rparr>"

definition eprint :: "bytes \<Rightarrow> 'f remux \<Rightarrow> 'f remux" where
  "eprint s st = st\<lparr>rx_stderr := rx_stderr st @ s\<rparr>"

text \<open>How a part of the function ends: it goes on, jumps to the label \<open>end\<close> with \<open>ret\<close>, or returns.\<close>

datatype 'f jump = Go "'f remux" | Goto_end int "'f remux" | Return int "'f remux"

definition jbind :: "'f jump res \<Rightarrow> ('f remux \<Rightarrow> 'f jump res) \<Rightarrow> 'f jump res" where
  "jbind m k = rbind m (\<lambda>j. case j of Go st \<Rightarrow> k st | _ \<Rightarrow> Ok j)"

section \<open>Set-up\<close>

definition open_avio :: "'f ffmpeg \<Rightarrow> 'f remux \<Rightarrow> 'f jump res" where
  "open_avio ff st =
     (if \<not> av_bsf_get_by_name ff ''h264_mp4toannexb'' then Fault (UndefinedCall ''av_bsf_alloc'')
      else
        let (abs, f) = av_bsf_alloc ff (rx_ff st);
            (buffer, f) = av_malloc ff 4096 f;
            st = st\<lparr>rx_ff := f, rx_abs_ctx := abs, rx_avio_ctx_buffer := buffer\<rparr>
        in if \<not> buffer then Ok (Goto_end (AVERROR_ENOMEM ff) st)
        else
          let (avio, f) = avio_alloc_context ff 4096 (rx_ff st);
              st = st\<lparr>rx_ff := f, rx_avio_ctx := avio\<rparr>
          in if \<not> avio then Ok (Goto_end (AVERROR_ENOMEM ff) st)
          else
            let st = st\<lparr>rx_max_packet_size := 1400\<rparr>;
                (pkt, f) = av_packet_alloc ff (rx_ff st);
                st = st\<lparr>rx_ff := f, rx_pkt := pkt\<rparr>
            in if \<not> pkt then Ok (Return 1 (eprint (str ''Could not allocate AVPacket'' @ [10]) st))
            else Ok (Go st))"

definition open_input :: "'f ffmpeg \<Rightarrow> bytes \<Rightarrow> 'f remux \<Rightarrow> 'f jump res" where
  "open_input ff in_filename st =
     (let (ret, f) = avformat_open_input ff in_filename (rx_ff st);
          st = st\<lparr>rx_ff := f, rx_ifmt_ctx := (ret \<ge> 0)\<rparr>
      in if ret < 0 then Ok (Goto_end ret (eprint (str ''Could not open input file '' @ [39] @ in_filename @ [39]) st))
      else
        let (ret, f) = avformat_find_stream_info ff (rx_ff st);
            st = st\<lparr>rx_ff := f\<rparr>
        in if ret < 0 then Ok (Goto_end ret (eprint (str ''Failed to retrieve input stream information'') st))
        else Ok (Go st))"

definition open_output :: "'f ffmpeg \<Rightarrow> 'f remux \<Rightarrow> 'f jump res" where
  "open_output ff st =
     (let (ofmt, f) = avformat_alloc_output_context2 ff ''rtp'' (rx_ff st);
          st = st\<lparr>rx_ff := f, rx_ofmt_ctx := ofmt\<rparr>
      in if \<not> ofmt then Ok (Goto_end (AVERROR_UNKNOWN ff) (eprint (str ''Could not create output context'' @ [10]) st))
      else Ok (Go (st\<lparr>rx_ff := av_opt_set_int ff ''ssrc'' 12345678 (rx_ff st)\<rparr>)))"

text \<open>The search for the first video stream. \<open>abs_ctx\<close>, which was not checked, is dereferenced here.\<close>

function find_video :: "'f ffmpeg \<Rightarrow> nat \<Rightarrow> 'f remux \<Rightarrow> 'f jump res" where
  "find_video ff i st =
     (if i < unat (nb_streams ff (rx_ff st)) then
        if \<not> codec_type_video ff i (rx_ff st) then find_video ff (i + 1) st
        else
          let (out, f) = avformat_new_stream ff (rx_ff st);
              st = st\<lparr>rx_ff := f\<rparr>
          in case out of
               None \<Rightarrow> Ok (Goto_end (AVERROR_UNKNOWN ff) (eprint (str ''Failed allocating output stream'' @ [10]) st))
             | Some index \<Rightarrow>
                 let (ret, f) = avcodec_parameters_copy ff (Out_stream index) (In_stream i) (rx_ff st);
                     st = st\<lparr>rx_ff := f\<rparr>
                 in if ret < 0 then Ok (Goto_end ret (eprint (str ''Failed to copy codec parameters'' @ [10]) st))
                 else if \<not> rx_abs_ctx st then Fault NullDeref
                 else
                   let (_, f) = avcodec_parameters_copy ff Par_in (In_stream i) (rx_ff st);
                       (_, f) = av_bsf_init ff f;
                       (_, f) = avcodec_parameters_copy ff (Out_stream index) Par_out f
                   in Ok (Go (st\<lparr>rx_ff := f, rx_in_stream_index := i\<rparr>))
      else Ok (Go st))"
  by pat_completeness auto
termination
proof (relation "measure (\<lambda>(ff, i, st). 2 ^ 32 - i)", goal_cases)
  case (2 ff i st)
  then show ?case using unat_u32_less [of "nb_streams ff (rx_ff st)"] by simp
qed simp

declare find_video.simps [simp del]

text \<open>What the muxer writes: one call of the callback for every buffer.\<close>

fun muxer_output :: "(nat \<Rightarrow> ('ssl, 'ss, 'pool) server) \<Rightarrow> bytes list \<Rightarrow> 'f remux \<Rightarrow> 'f remux res" where
  "muxer_output snap [] st = Ok st"
| "muxer_output snap (b # bs) st =
     rbind (WriteRtpCallback b (length b) (snap (rx_calls st))) (\<lambda>(n, ts).
     muxer_output snap bs (st\<lparr>rx_calls := rx_calls st + 1, rx_tasks := rx_tasks st @ ts\<rparr>))"

definition start_output :: "'f ffmpeg \<Rightarrow> (nat \<Rightarrow> ('ssl, 'ss, 'pool) server) \<Rightarrow> 'f remux \<Rightarrow> 'f jump res" where
  "start_output ff snap st =
     (let st = st\<lparr>rx_pb := rx_avio_ctx st\<rparr>;
          (ret, bufs, f) = avformat_write_header ff (rx_max_packet_size st) (rx_ff st)
      in rbind (muxer_output snap bufs (st\<lparr>rx_ff := f\<rparr>)) (\<lambda>st.
         if ret < 0 then Ok (Goto_end ret (eprint (str ''Error occurred when opening output file'' @ [10]) st))
         else Ok (Go st)))"

definition remux_setup :: "'f ffmpeg \<Rightarrow> (nat \<Rightarrow> ('ssl, 'ss, 'pool) server) \<Rightarrow> bytes \<Rightarrow> 'f remux \<Rightarrow> 'f jump res" where
  "remux_setup ff snap in_filename st =
     jbind (open_avio ff st) (\<lambda>st. jbind (open_input ff in_filename st) (\<lambda>st. jbind (open_output ff st) (\<lambda>st.
     jbind (find_video ff 0 st) (\<lambda>st. start_output ff snap st))))"

section \<open>The loop\<close>

function seek_loop :: "'f ffmpeg \<Rightarrow> nat \<Rightarrow> 'f \<Rightarrow> 'f" where
  "seek_loop ff i f = (if i < unat (nb_streams ff f) then seek_loop ff (i + 1) (snd (av_seek_frame ff i f)) else f)"
  by pat_completeness auto
termination
proof (relation "measure (\<lambda>(ff, i, f). 2 ^ 32 - i)", goal_cases)
  case (2 ff i f)
  then show ?case using unat_u32_less [of "nb_streams ff f"] by simp
qed simp

declare seek_loop.simps [simp del]

text \<open>One round: the end of the file rewinds it, packets of other streams are skipped, and a frame of the video stream gets its time
  stamps, passes the filter and goes to the muxer. The result is \<open>Some ret\<close> when the loop is left. The results of the filter are
  not checked.\<close>

definition remux_iter :: "'f ffmpeg \<Rightarrow> (nat \<Rightarrow> ('ssl, 'ss, 'pool) server) \<Rightarrow> 'f remux \<Rightarrow> (int option \<times> 'f remux) res" where
  "remux_iter ff snap st =
     (let (ret, pkt, f) = av_read_frame ff (rx_packet st) (rx_ff st);
          st = st\<lparr>rx_ff := f, rx_packet := pkt\<rparr>
      in if ret < 0 then Ok (None, st\<lparr>rx_ff := seek_loop ff 0 (rx_ff st)\<rparr>)
      else if stream_index pkt \<noteq> rx_in_stream_index st then Ok (None, st)
      else if \<not> rx_in_stream_index st < unat (nb_streams ff (rx_ff st)) \<or> \<not> 0 < out_streams ff (rx_ff st) then Fault OutOfBounds
      else
        let pts = rx_pts st + 40;
            pkt = pkt\<lparr>pk_pts := pts, pk_dts := pts\<rparr>
        in if \<not> rx_abs_ctx st then Fault NullDeref
        else
          let (_, pkt, f) = av_bsf_send_packet ff pkt (rx_ff st);
              (_, pkt, f) = av_bsf_receive_packet ff pkt f;
              pkt = (av_packet_rescale_ts ff (rx_in_stream_index st) 0 f pkt)\<lparr>pk_pos := -1\<rparr>;
              (ret, bufs, pkt, f) = av_interleaved_write_frame ff pkt f
          in rbind (muxer_output snap bufs (st\<lparr>rx_ff := f, rx_packet := pkt, rx_pts := pts\<rparr>)) (\<lambda>st.
             if ret < 0 then Ok (Some ret, eprint (str ''Error muxing packet'' @ [10]) st) else Ok (None, st)))"

partial_function (option) remux_loop ::
  "'f ffmpeg \<Rightarrow> (nat \<Rightarrow> ('ssl, 'ss, 'pool) server) \<Rightarrow> 'f remux \<Rightarrow> (int \<times> 'f remux) res option" where
  "remux_loop ff snap st =
     (case remux_iter ff snap st of
        Inl e \<Rightarrow> Some (Inl e)
      | Inr (Some ret, st) \<Rightarrow> Some (Inr (ret, st))
      | Inr (None, st) \<Rightarrow> remux_loop ff snap st)"

section \<open>Release\<close>

text \<open>\<open>avio_close\<close> is documented to be used only on a context that \<open>avio_open\<close> made; the context here was made by
  \<open>avio_alloc_context\<close>. A null pointer is closed without effect.\<close>

definition avio_closep :: "'f remux \<Rightarrow> 'f remux res" where
  "avio_closep st = (if rx_pb st then Fault (UndefinedCall ''avio_close'') else Ok st)"

text \<open>The label \<open>end\<close>.\<close>

definition remux_end :: "'f ffmpeg \<Rightarrow> int \<Rightarrow> 'f remux \<Rightarrow> (int \<times> 'f remux) res" where
  "remux_end ff ret st =
     (let st = st\<lparr>rx_pkt := False, rx_ifmt_ctx := False\<rparr> in
      rbind (if rx_ofmt_ctx st \<and> \<not> AVFMT_NOFILE_set ff (rx_ff st) then avio_closep st else Ok st) (\<lambda>st.
      let st = st\<lparr>rx_ofmt_ctx := False, rx_abs_ctx := False\<rparr> in
      if ret < 0 \<and> ret \<noteq> AVERROR_EOF ff then
        Ok (1, eprint (str ''Error occurred: -'' @ decimal_digits (nat (- ret)) @ [10]) st)
      else Ok (0, st)))"

definition H2642Rtp ::
  "'f ffmpeg \<Rightarrow> (nat \<Rightarrow> ('ssl, 'ss, 'pool) server) \<Rightarrow> bytes \<Rightarrow> 'f \<Rightarrow> (int \<times> 'f remux) res option" where
  "H2642Rtp ff snap in_filename f =
     (case remux_setup ff snap in_filename (new_remux f) of
        Inl e \<Rightarrow> Some (Inl e)
      | Inr (Return v st) \<Rightarrow> Some (Ok (v, st))
      | Inr (Goto_end ret st) \<Rightarrow> Some (remux_end ff ret st)
      | Inr (Go st) \<Rightarrow>
          (case remux_loop ff snap st of
             None \<Rightarrow> None
           | Some (Inl e) \<Rightarrow> Some (Inl e)
           | Some (Inr (ret, st)) \<Rightarrow>
               let (bufs, f) = av_write_trailer ff (rx_ff st)
               in Some (rbind (muxer_output snap bufs (st\<lparr>rx_ff := f\<rparr>)) (remux_end ff ret))))"

section \<open>The output callback\<close>

fun callback_tasks :: "(nat \<Rightarrow> ('ssl, 'ss, 'pool) server) \<Rightarrow> nat \<Rightarrow> bytes list \<Rightarrow> task list" where
  "callback_tasks snap k [] = []"
| "callback_tasks snap k (b # bs) =
     map (\<lambda>sid. Send_task sid b (length b)) (GetAllReadyWebRTCSession (snap k) []) @ callback_tasks snap (k + 1) bs"

lemma muxer_output_eq:
  "muxer_output snap bs st =
     Inr (st\<lparr>rx_calls := rx_calls st + length bs, rx_tasks := rx_tasks st @ callback_tasks snap (rx_calls st) bs\<rparr>)"
  by (induction bs arbitrary: st) (simp_all add: WriteRtpCallback_def)

lemma callback_tasks_append:
  "callback_tasks snap k (as @ bs) = callback_tasks snap k as @ callback_tasks snap (k + length as) bs"
  by (induction as arbitrary: k) simp_all

text \<open>A call of the callback is the operation \<open>Media\<close> of the server, and the tasks it makes are tasks the server's invariant allows.\<close>

lemma callback_is_media_step:
  "server_step l mu (Media b (length b)) (snap k, ts) = Inr ((snap k, ts @ callback_tasks snap k [b]), [])"
  by (simp add: WriteRtpCallback_def)

lemma callback_tasks_ok:
  "\<forall>k. server_inv l mu (snap k) \<Longrightarrow> t \<in> set (callback_tasks snap k bs) \<Longrightarrow> \<exists>k'\<ge>k. task_ok (is_bound (snap k')) t"
proof (induction bs arbitrary: k)
  case (Cons b bs)
  show ?case
  proof (cases "t \<in> set (callback_tasks snap (k + 1) bs)")
    case True
    then show ?thesis using Cons.IH [OF Cons.prems(1), of "k + 1"] by (meson add_leD1)
  next
    case False
    then obtain sid where "t = Send_task sid b (length b)" "sid \<in> set (GetAllReadyWebRTCSession (snap k) [])" using Cons.prems(2) by auto
    with GetAllReady_bound Cons.prems(1) have "task_ok (is_bound (snap k)) t" by fastforce
    then show ?thesis by blast
  qed
qed simp

section \<open>Outcomes of the parts\<close>

text \<open>Nothing has been output yet: the muxer has no context, and the callback was not called.\<close>

definition silent :: "'f remux \<Rightarrow> bool" where
  "silent st \<longleftrightarrow> \<not> rx_pb st \<and> rx_calls st = 0 \<and> rx_tasks st = []"

definition outputting :: "'f remux \<Rightarrow> bool" where
  "outputting st \<longleftrightarrow> rx_pb st \<and> rx_ofmt_ctx st"

lemma eprint_fields [simp]:
  "rx_ff (eprint s st) = rx_ff st" "rx_abs_ctx (eprint s st) = rx_abs_ctx st" "rx_avio_ctx_buffer (eprint s st) = rx_avio_ctx_buffer st"
  "rx_avio_ctx (eprint s st) = rx_avio_ctx st" "rx_pkt (eprint s st) = rx_pkt st" "rx_ifmt_ctx (eprint s st) = rx_ifmt_ctx st"
  "rx_ofmt_ctx (eprint s st) = rx_ofmt_ctx st" "rx_pb (eprint s st) = rx_pb st" "rx_calls (eprint s st) = rx_calls st"
  "rx_tasks (eprint s st) = rx_tasks st" "rx_in_stream_index (eprint s st) = rx_in_stream_index st" "rx_pts (eprint s st) = rx_pts st"
  "silent (eprint s st) = silent st" "outputting (eprint s st) = outputting st"
  by (simp_all add: eprint_def silent_def outputting_def)

lemma silent_updates [simp]:
  "silent (st\<lparr>rx_ff := f\<rparr>) = silent st" "silent (st\<lparr>rx_in_stream_index := i\<rparr>) = silent st" "silent (st\<lparr>rx_abs_ctx := b\<rparr>) = silent st"
  "silent (st\<lparr>rx_avio_ctx_buffer := b\<rparr>) = silent st" "silent (st\<lparr>rx_avio_ctx := b\<rparr>) = silent st" "silent (st\<lparr>rx_max_packet_size := n\<rparr>) = silent st"
  "silent (st\<lparr>rx_pkt := b\<rparr>) = silent st" "silent (st\<lparr>rx_ifmt_ctx := b\<rparr>) = silent st" "silent (st\<lparr>rx_ofmt_ctx := b\<rparr>) = silent st"
  by (simp_all add: silent_def)

lemma outputting_updates [simp]:
  "outputting (st\<lparr>rx_ff := f\<rparr>) = outputting st" "outputting (st\<lparr>rx_packet := p\<rparr>) = outputting st" "outputting (st\<lparr>rx_pts := t\<rparr>) = outputting st"
  "outputting (st\<lparr>rx_calls := n\<rparr>) = outputting st" "outputting (st\<lparr>rx_tasks := ts\<rparr>) = outputting st" "outputting (st\<lparr>rx_pkt := b\<rparr>) = outputting st"
  "outputting (st\<lparr>rx_ifmt_ctx := b\<rparr>) = outputting st"
  by (simp_all add: outputting_def)

text \<open>Every way out of the set-up before the last step leaves the thread silent; the I/O buffer is there unless its allocation failed. Going on, the
  pointers that were made are not null and the time stamps start at 0.\<close>

fun early :: "bool \<Rightarrow> 'f jump \<Rightarrow> bool" where
  "early buffer (Go st) \<longleftrightarrow> silent st \<and> rx_avio_ctx st \<and> rx_avio_ctx_buffer st \<and> buffer \<and> rx_pts st = 0"
| "early buffer (Goto_end ret st) \<longleftrightarrow> silent st \<and> rx_avio_ctx_buffer st = buffer \<and> ret < 0"
| "early buffer (Return v st) \<longleftrightarrow> v = 1 \<and> silent st \<and> rx_avio_ctx_buffer st = buffer"

definition errors_negative :: "'f ffmpeg \<Rightarrow> bool" where
  "errors_negative ff \<longleftrightarrow> AVERROR_ENOMEM ff < 0 \<and> AVERROR_UNKNOWN ff < 0 \<and> AVERROR_EOF ff < 0"

definition has_buffer :: "'f ffmpeg \<Rightarrow> 'f \<Rightarrow> bool" where
  "has_buffer ff f \<longleftrightarrow> fst (av_malloc ff 4096 (snd (av_bsf_alloc ff f)))"

lemma open_avio_early:
  assumes "errors_negative ff"
  shows "case open_avio ff (new_remux f) of Inl e \<Rightarrow> e = UndefinedCall ''av_bsf_alloc'' | Inr j \<Rightarrow> early (has_buffer ff f) j"
  using assms by (auto simp: open_avio_def new_remux_def errors_negative_def has_buffer_def silent_def split_beta Let_def)

lemma open_input_early: "early b (Go st) \<Longrightarrow> case open_input ff name st of Inl e \<Rightarrow> False | Inr j \<Rightarrow> early b j"
  by (auto simp: open_input_def split_beta Let_def)

lemma open_output_early:
  "errors_negative ff \<Longrightarrow> early b (Go st) \<Longrightarrow> case open_output ff st of Inl e \<Rightarrow> False | Inr j \<Rightarrow> early b j \<and> (\<forall>st'. j = Go st' \<longrightarrow> rx_ofmt_ctx st')"
  by (auto simp: open_output_def errors_negative_def split_beta Let_def)

lemma find_video_early:
  "errors_negative ff \<Longrightarrow> early b (Go st) \<Longrightarrow> rx_ofmt_ctx st \<Longrightarrow>
   case find_video ff i st of Inl e \<Rightarrow> e = NullDeref | Inr j \<Rightarrow> early b j \<and> (\<forall>st'. j = Go st' \<longrightarrow> rx_ofmt_ctx st')"
proof (induction ff i st rule: find_video.induct)
  case (1 ff i st)
  show ?case
  proof (cases "i < unat (nb_streams ff (rx_ff st)) \<and> \<not> codec_type_video ff i (rx_ff st)")
    case True
    with 1 show ?thesis by (subst find_video.simps) simp
  next
    case False
    with "1.prems" show ?thesis
      by (subst find_video.simps) (auto simp: errors_negative_def split_beta Let_def split: option.split)
  qed
qed

lemma start_output_outputting:
  assumes "early b (Go st)" "rx_ofmt_ctx st"
  shows "\<exists>j. start_output ff snap st = Inr j \<and> (case j of Go st' \<Rightarrow> outputting st' \<and> rx_pts st' = 0 | Goto_end ret st' \<Rightarrow> outputting st' | Return v st' \<Rightarrow> False)"
  using assms by (auto simp: start_output_def muxer_output_eq outputting_def split_beta Let_def)

definition setup_outcome :: "bool \<Rightarrow> 'f jump res \<Rightarrow> bool" where
  "setup_outcome b r \<longleftrightarrow>
     (case r of
        Inl e \<Rightarrow> e = UndefinedCall ''av_bsf_alloc'' \<or> e = NullDeref
      | Inr (Go st) \<Rightarrow> outputting st \<and> rx_pts st = 0
      | Inr (Goto_end ret st) \<Rightarrow> early b (Goto_end ret st) \<or> outputting st
      | Inr (Return v st) \<Rightarrow> early b (Return v st))"

lemma jbind_outcome:
  assumes "case m of Inl e \<Rightarrow> e = UndefinedCall ''av_bsf_alloc'' \<or> e = NullDeref | Inr j \<Rightarrow> early b j \<and> (\<forall>st. j = Go st \<longrightarrow> P st)"
    and "\<And>st. early b (Go st) \<Longrightarrow> P st \<Longrightarrow> setup_outcome b (k st)"
  shows "setup_outcome b (jbind m k)"
proof (cases m)
  case (Inl e)
  then show ?thesis using assms(1) by (simp add: jbind_def setup_outcome_def)
next
  case (Inr j)
  then show ?thesis using assms by (cases j) (simp_all add: jbind_def, simp_all add: setup_outcome_def)
qed

lemma remux_setup_outcome:
  assumes "errors_negative ff"
  shows "setup_outcome (has_buffer ff f) (remux_setup ff snap name (new_remux f))"
  unfolding remux_setup_def
proof (rule jbind_outcome [where P = "\<lambda>_. True"], goal_cases)
  case 1
  then show ?case using open_avio_early [OF assms, of f] by (auto split: sum.splits)
next
  case (2 st1)
  show ?case
  proof (rule jbind_outcome [where P = "\<lambda>_. True"], goal_cases)
    case 1
    then show ?case using open_input_early [OF 2(1), of ff name] by (auto split: sum.splits)
  next
    case (2 st2)
    show ?case
    proof (rule jbind_outcome [where P = rx_ofmt_ctx], goal_cases)
      case 1
      then show ?case using open_output_early [OF assms 2(1)] by (auto split: sum.splits)
    next
      case (2 st3)
      show ?case
      proof (rule jbind_outcome [where P = rx_ofmt_ctx], goal_cases)
        case 1
        then show ?case using find_video_early [OF assms 2, of 0] by (auto split: sum.splits)
      next
        case (2 st4)
        obtain j where "start_output ff snap st4 = Inr j"
          "case j of Go st' \<Rightarrow> outputting st' \<and> rx_pts st' = 0 | Goto_end ret st' \<Rightarrow> outputting st' | Return v st' \<Rightarrow> False"
          using start_output_outputting [OF 2, of ff snap] by blast
        then show ?case by (cases j) (simp_all add: setup_outcome_def)
      qed
    qed
  qed
qed

lemma remux_iter_outputting:
  "outputting st \<Longrightarrow> case remux_iter ff snap st of Inl e \<Rightarrow> e = OutOfBounds \<or> e = NullDeref | Inr (r, st') \<Rightarrow> outputting st'"
  by (auto simp: remux_iter_def muxer_output_eq split_beta Let_def)

lemma remux_loop_outputting:
  assumes "remux_loop ff snap st = Some r"
  shows "outputting st \<longrightarrow> (case r of Inl e \<Rightarrow> e = OutOfBounds \<or> e = NullDeref | Inr (ret, st') \<Rightarrow> outputting st')"
proof (rule remux_loop.raw_induct [OF _ assms], goal_cases)
  case (1 loop ff snap st r)
  show ?case
  proof
    assume "outputting st"
    from remux_iter_outputting [OF this, of ff snap]
    show "case r of Inl e \<Rightarrow> e = OutOfBounds \<or> e = NullDeref | Inr (ret, st') \<Rightarrow> outputting st'"
      using 1(2) 1(1) [of ff snap _ r] by (cases "remux_iter ff snap st") (auto split: option.splits)
  qed
qed

section \<open>Playing a file\<close>

text \<open>
  What FFmpeg is documented to do with a file that can be read and a muxer that accepts a number of frames. The file is a sequence of packets
  with a position: a read returns the packet there and moves on, at the end it fails; a seek to byte 0 rewinds. A packet that is sent to the
  filter comes out with its data converted. Time stamps are rescaled. The muxer accepts \<open>pb_accepts\<close> frames and then fails; the
  packets it writes fit the maximal packet size the set-up asked for.
\<close>

record 'f playback =
  pb_file :: "av_packet list"
  pb_streams :: uint32
  pb_filter :: "bytes \<Rightarrow> bytes"
  pb_scale :: "int \<Rightarrow> int"
  pb_accepts :: nat
  pb_pos :: "'f \<Rightarrow> nat"
  pb_muxed :: "'f \<Rightarrow> av_packet list"
  pb_sent :: "'f \<Rightarrow> bytes list"

definition pb_view :: "'f playback \<Rightarrow> 'f \<Rightarrow> nat \<times> av_packet list \<times> bytes list" where
  "pb_view pb f = (pb_pos pb f, pb_muxed pb f, pb_sent pb f)"

definition plays :: "'f ffmpeg \<Rightarrow> 'f playback \<Rightarrow> bool" where
  "plays ff pb \<longleftrightarrow>
     (\<forall>p f. \<exists>r p' f'. av_read_frame ff p f = (r, p', f') \<and>
        (if pb_pos pb f < length (pb_file pb) then
           r = 0 \<and> p' = pb_file pb ! pb_pos pb f \<and> pb_view pb f' = (Suc (pb_pos pb f), pb_muxed pb f, pb_sent pb f)
         else r < 0 \<and> pb_view pb f' = pb_view pb f)) \<and>
     (\<forall>i f. pb_view pb (snd (av_seek_frame ff i f)) = (0, pb_muxed pb f, pb_sent pb f)) \<and>
     (\<forall>f. nb_streams ff f = pb_streams pb \<and> 0 < out_streams ff f) \<and> 0 < pb_streams pb \<and>
     (\<forall>p f. \<exists>r p1 f1 r' f2. av_bsf_send_packet ff p f = (r, p1, f1) \<and>
        av_bsf_receive_packet ff p1 f1 = (r', p\<lparr>pk_data := pb_filter pb (pk_data p)\<rparr>, f2) \<and> pb_view pb f2 = pb_view pb f) \<and>
     (\<forall>i j f p. av_packet_rescale_ts ff i j f p = p\<lparr>pk_pts := pb_scale pb (pk_pts p), pk_dts := pb_scale pb (pk_dts p)\<rparr>) \<and>
     (\<forall>p f. \<exists>r bufs p' f'. av_interleaved_write_frame ff p f = (r, bufs, p', f') \<and>
        (\<forall>b \<in> set bufs. length b \<le> 1400) \<and> pb_pos pb f' = pb_pos pb f \<and> pb_sent pb f' = pb_sent pb f @ bufs \<and>
        (if length (pb_muxed pb f) < pb_accepts pb then r = 0 \<and> pb_muxed pb f' = pb_muxed pb f @ [p]
         else r < 0 \<and> pb_muxed pb f' = pb_muxed pb f))"

text \<open>The frames of a stream, and the frame number \<open>k\<close> of the endless sequence the muxer gets.\<close>

definition frames :: "'f playback \<Rightarrow> nat \<Rightarrow> av_packet list" where
  "frames pb i = filter (\<lambda>p. stream_index p = i) (pb_file pb)"

definition played :: "'f playback \<Rightarrow> nat \<Rightarrow> nat \<Rightarrow> av_packet" where
  "played pb i k =
     (let p = frames pb i ! (k mod length (frames pb i)); t = pb_scale pb (40 * (int k + 1))
      in p\<lparr>pk_data := pb_filter pb (pk_data p), pk_pts := t, pk_dts := t, pk_pos := -1\<rparr>)"

definition frames_before :: "'f playback \<Rightarrow> nat \<Rightarrow> nat \<Rightarrow> nat" where
  "frames_before pb i n = length (filter (\<lambda>p. stream_index p = i) (take n (pb_file pb)))"

definition playing ::
  "'f playback \<Rightarrow> (nat \<Rightarrow> ('ssl, 'ss, 'pool) server) \<Rightarrow> nat \<Rightarrow> nat \<Rightarrow> task list \<Rightarrow> nat \<Rightarrow> 'f remux \<Rightarrow> bool" where
  "playing pb snap i c ts k st \<longleftrightarrow>
     rx_abs_ctx st \<and> rx_in_stream_index st = i \<and> i < unat (pb_streams pb) \<and> rx_pts st = 40 * int k \<and>
     pb_muxed pb (rx_ff st) = map (played pb i) [0..<k] \<and> pb_pos pb (rx_ff st) \<le> length (pb_file pb) \<and>
     frames_before pb i (pb_pos pb (rx_ff st)) mod length (frames pb i) = k mod length (frames pb i) \<and>
     rx_calls st = c + length (pb_sent pb (rx_ff st)) \<and> rx_tasks st = ts @ callback_tasks snap c (pb_sent pb (rx_ff st)) \<and>
     (\<forall>b \<in> set (pb_sent pb (rx_ff st)). length b \<le> 1400)"

definition at_frame :: "'f playback \<Rightarrow> nat \<Rightarrow> nat \<Rightarrow> bool" where
  "at_frame pb i n \<longleftrightarrow> n < length (pb_file pb) \<and> stream_index (pb_file pb ! n) = i"

lemma frames_before_Suc:
  "n < length (pb_file pb) \<Longrightarrow> frames_before pb i (Suc n) = frames_before pb i n + (if stream_index (pb_file pb ! n) = i then 1 else 0)"
  by (simp add: frames_before_def take_Suc_conv_app_nth)

lemma frames_before_ends: "frames_before pb i 0 = 0" "frames_before pb i (length (pb_file pb)) = length (frames pb i)"
  by (simp_all add: frames_before_def frames_def)

lemma frame_at:
  assumes "at_frame pb i n"
  shows "frames_before pb i n < length (frames pb i)" "frames pb i ! frames_before pb i n = pb_file pb ! n"
proof -
  have f: "pb_file pb = take n (pb_file pb) @ pb_file pb ! n # drop (Suc n) (pb_file pb)"
    using assms by (simp add: at_frame_def id_take_nth_drop)
  have "frames pb i = filter (\<lambda>p. stream_index p = i) (take n (pb_file pb) @ pb_file pb ! n # drop (Suc n) (pb_file pb))"
    unfolding frames_def using f by (rule arg_cong)
  then have "frames pb i = filter (\<lambda>p. stream_index p = i) (take n (pb_file pb)) @ pb_file pb ! n #
      filter (\<lambda>p. stream_index p = i) (drop (Suc n) (pb_file pb))"
    using assms by (simp add: at_frame_def)
  then show "frames_before pb i n < length (frames pb i)" "frames pb i ! frames_before pb i n = pb_file pb ! n"
    by (simp_all add: frames_before_def nth_append)
qed

lemma plays_view:
  assumes "plays ff pb"
  shows plays_seek: "pb_view pb (snd (av_seek_frame ff i f)) = (0, pb_muxed pb f, pb_sent pb f)"
    and plays_streams: "nb_streams ff f = pb_streams pb" "0 < out_streams ff f" "0 < pb_streams pb"
    and plays_scale: "av_packet_rescale_ts ff i j f p = p\<lparr>pk_pts := pb_scale pb (pk_pts p), pk_dts := pb_scale pb (pk_dts p)\<rparr>"
  using assms by (simp_all add: plays_def)

lemma plays_read:
  assumes "plays ff pb"
  shows "\<exists>r p' f'. av_read_frame ff p f = (r, p', f') \<and>
    (if pb_pos pb f < length (pb_file pb) then
       r = 0 \<and> p' = pb_file pb ! pb_pos pb f \<and> pb_view pb f' = (Suc (pb_pos pb f), pb_muxed pb f, pb_sent pb f)
     else r < 0 \<and> pb_view pb f' = pb_view pb f)"
  using assms unfolding plays_def by simp

lemma plays_filter:
  assumes "plays ff pb"
  shows "\<exists>r p1 f1 r' f2. av_bsf_send_packet ff p f = (r, p1, f1) \<and>
    av_bsf_receive_packet ff p1 f1 = (r', p\<lparr>pk_data := pb_filter pb (pk_data p)\<rparr>, f2) \<and> pb_view pb f2 = pb_view pb f"
  using assms unfolding plays_def by simp

lemma plays_write:
  assumes "plays ff pb"
  shows "\<exists>r bufs p' f'. av_interleaved_write_frame ff p f = (r, bufs, p', f') \<and>
    (\<forall>b \<in> set bufs. length b \<le> 1400) \<and> pb_pos pb f' = pb_pos pb f \<and> pb_sent pb f' = pb_sent pb f @ bufs \<and>
    (if length (pb_muxed pb f) < pb_accepts pb then r = 0 \<and> pb_muxed pb f' = pb_muxed pb f @ [p]
     else r < 0 \<and> pb_muxed pb f' = pb_muxed pb f)"
  using assms unfolding plays_def by simp

lemma seek_loop_view:
  assumes "plays ff pb"
  shows "pb_view pb (seek_loop ff i f) = (if i < unat (pb_streams pb) then (0, pb_muxed pb f, pb_sent pb f) else pb_view pb f)"
  using assms
proof (induction ff i f rule: seek_loop.induct)
  case (1 ff i f)
  have v: "pb_view pb (snd (av_seek_frame ff i f)) = (0, pb_muxed pb f, pb_sent pb f)" by (rule plays_seek [OF "1.prems"])
  then have "pb_muxed pb (snd (av_seek_frame ff i f)) = pb_muxed pb f" "pb_sent pb (snd (av_seek_frame ff i f)) = pb_sent pb f"
    by (simp_all add: pb_view_def)
  with 1 v show ?case by (subst seek_loop.simps) (simp add: plays_streams [OF "1.prems"])
qed

lemma skip_round:
  assumes p: "plays ff pb" and st: "playing pb snap i c ts k st" and n: "\<not> at_frame pb i (pb_pos pb (rx_ff st))"
  shows "\<exists>st'. remux_iter ff snap st = Inr (None, st') \<and> playing pb snap i c ts k st' \<and>
    pb_pos pb (rx_ff st') = (if pb_pos pb (rx_ff st) < length (pb_file pb) then Suc (pb_pos pb (rx_ff st)) else 0)"
proof -
  obtain r q f' where r: "av_read_frame ff (rx_packet st) (rx_ff st) = (r, q, f')"
    "if pb_pos pb (rx_ff st) < length (pb_file pb) then
       r = 0 \<and> q = pb_file pb ! pb_pos pb (rx_ff st) \<and> pb_view pb f' = (Suc (pb_pos pb (rx_ff st)), pb_muxed pb (rx_ff st), pb_sent pb (rx_ff st))
     else r < 0 \<and> pb_view pb f' = pb_view pb (rx_ff st)"
    using plays_read [OF p] by blast
  show ?thesis
  proof (cases "pb_pos pb (rx_ff st) < length (pb_file pb)")
    case True
    with r n st have "remux_iter ff snap st = Inr (None, st\<lparr>rx_ff := f', rx_packet := q\<rparr>)"
      by (simp add: remux_iter_def at_frame_def playing_def)
    moreover have "playing pb snap i c ts k (st\<lparr>rx_ff := f', rx_packet := q\<rparr>)"
      using st r(2) True n by (simp add: playing_def pb_view_def frames_before_Suc at_frame_def)
    ultimately show ?thesis using r(2) True by (simp add: pb_view_def)
  next
    case False
    let ?f = "seek_loop ff 0 f'"
    have v: "pb_view pb ?f = (0, pb_muxed pb (rx_ff st), pb_sent pb (rx_ff st))"
      using seek_loop_view [OF p, of 0 f'] r(2) False plays_streams(3) [OF p] by (simp add: pb_view_def word_less_nat_alt)
    have "remux_iter ff snap st = Inr (None, st\<lparr>rx_ff := ?f, rx_packet := q\<rparr>)" using r False by (simp add: remux_iter_def)
    moreover have "playing pb snap i c ts k (st\<lparr>rx_ff := ?f, rx_packet := q\<rparr>)"
      using st v False frames_before_ends [of pb i] by (auto simp: playing_def pb_view_def)
    ultimately show ?thesis using v False by (simp add: pb_view_def)
  qed
qed

lemma frame_round:
  assumes p: "plays ff pb" and st: "playing pb snap i c ts k st" and n: "at_frame pb i (pb_pos pb (rx_ff st))"
  shows "\<exists>r st'. remux_iter ff snap st = Inr (r, st') \<and>
    (if k < pb_accepts pb then r = None \<and> playing pb snap i c ts (Suc k) st'
     else (\<exists>ret. r = Some ret \<and> ret < 0) \<and> pb_muxed pb (rx_ff st') = map (played pb i) [0..<k] \<and>
       rx_tasks st' = ts @ callback_tasks snap c (pb_sent pb (rx_ff st')) \<and> (\<forall>b \<in> set (pb_sent pb (rx_ff st')). length b \<le> 1400))"
proof -
  let ?n = "pb_pos pb (rx_ff st)" and ?l = "length (frames pb i)"
  have lt: "?n < length (pb_file pb)" "stream_index (pb_file pb ! ?n) = i" using n by (simp_all add: at_frame_def)
  obtain q f1 where r: "av_read_frame ff (rx_packet st) (rx_ff st) = (0, q, f1)" "q = pb_file pb ! ?n"
    "pb_view pb f1 = (Suc ?n, pb_muxed pb (rx_ff st), pb_sent pb (rx_ff st))"
    using plays_read [OF p, of "rx_packet st" "rx_ff st"] lt(1) by auto
  let ?t = "40 * (int k + 1)"
  let ?q = "q\<lparr>pk_pts := ?t, pk_dts := ?t\<rparr>"
  obtain r1 p1 f2 r2 f3 where b: "av_bsf_send_packet ff ?q f1 = (r1, p1, f2)"
    "av_bsf_receive_packet ff p1 f2 = (r2, ?q\<lparr>pk_data := pb_filter pb (pk_data ?q)\<rparr>, f3)" "pb_view pb f3 = pb_view pb f1"
    using plays_filter [OF p, of ?q f1] by blast
  have "k mod ?l = frames_before pb i ?n" using st frame_at(1) [OF n] by (simp add: playing_def)
  then have q: "(av_packet_rescale_ts ff i 0 f3 (?q\<lparr>pk_data := pb_filter pb (pk_data ?q)\<rparr>))\<lparr>pk_pos := -1\<rparr> = played pb i k"
    using frame_at(2) [OF n] r(2) by (simp add: plays_scale [OF p] played_def Let_def)
  obtain ret bufs p' f4 where w: "av_interleaved_write_frame ff (played pb i k) f3 = (ret, bufs, p', f4)" "\<forall>b \<in> set bufs. length b \<le> 1400"
    "pb_pos pb f4 = pb_pos pb f3" "pb_sent pb f4 = pb_sent pb f3 @ bufs"
    "if length (pb_muxed pb f3) < pb_accepts pb then ret = 0 \<and> pb_muxed pb f4 = pb_muxed pb f3 @ [played pb i k]
     else ret < 0 \<and> pb_muxed pb f4 = pb_muxed pb f3"
    using plays_write [OF p, of "played pb i k" f3] by blast
  have v: "pb_pos pb f3 = Suc ?n" "pb_muxed pb f3 = map (played pb i) [0..<k]" "pb_sent pb f3 = pb_sent pb (rx_ff st)"
    using b(3) r(3) st by (simp_all add: pb_view_def playing_def)
  let ?st = "st\<lparr>rx_ff := f4, rx_packet := p', rx_pts := ?t, rx_calls := c + length (pb_sent pb f4),
    rx_tasks := ts @ callback_tasks snap c (pb_sent pb f4)\<rparr>"
  have iter: "remux_iter ff snap st = (if ret < 0 then Inr (Some ret, eprint (str ''Error muxing packet'' @ [10]) ?st) else Inr (None, ?st))"
    using st r(1,2) b(1,2) q w(1,4) v(3) lt(2) plays_streams [OF p]
    by (simp add: remux_iter_def playing_def muxer_output_eq callback_tasks_append algebra_simps)
  have sent: "\<forall>b \<in> set (pb_sent pb f4). length b \<le> 1400" using st w(2,4) v(3) by (auto simp: playing_def)
  show ?thesis
  proof (cases "k < pb_accepts pb")
    case True
    have "Suc (frames_before pb i ?n) mod ?l = Suc k mod ?l" using st by (metis mod_Suc_eq playing_def)
    then have "playing pb snap i c ts (Suc k) ?st"
      using st w(3,5) v(1,2) True lt sent by (simp add: playing_def frames_before_Suc)
    then show ?thesis using iter w(5) v(2) True by simp
  next
    case False
    then show ?thesis using iter w(5) v(2) sent by simp
  qed
qed

definition rounds_left :: "'f playback \<Rightarrow> nat \<Rightarrow> nat \<Rightarrow> nat" where
  "rounds_left pb i n = (if \<exists>j\<ge>n. at_frame pb i j then length (pb_file pb) - n else 2 * length (pb_file pb) + 1 - n)"

lemma reach_frame:
  assumes p: "plays ff pb" and ne: "frames pb i \<noteq> []"
  shows "playing pb snap i c ts k st \<Longrightarrow>
    \<exists>st'. remux_loop ff snap st = remux_loop ff snap st' \<and> playing pb snap i c ts k st' \<and> at_frame pb i (pb_pos pb (rx_ff st'))"
proof (induction "rounds_left pb i (pb_pos pb (rx_ff st))" arbitrary: st rule: less_induct)
  case less
  let ?n = "pb_pos pb (rx_ff st)"
  show ?case
  proof (cases "at_frame pb i ?n")
    case False
    obtain st1 where s: "remux_iter ff snap st = Inr (None, st1)" "playing pb snap i c ts k st1"
      "pb_pos pb (rx_ff st1) = (if ?n < length (pb_file pb) then Suc ?n else 0)"
      using skip_round [OF p less.prems False] by blast
    obtain j where j: "at_frame pb i j" using ne by (auto simp: frames_def at_frame_def filter_empty_conv in_set_conv_nth)
    have bound: "at_frame pb i m \<Longrightarrow> m < length (pb_file pb)" for m by (simp add: at_frame_def)
    have "rounds_left pb i (pb_pos pb (rx_ff st1)) < rounds_left pb i ?n"
    proof (cases "?n < length (pb_file pb)")
      case True
      have "(\<exists>j\<ge>?n. at_frame pb i j) \<longleftrightarrow> (\<exists>j\<ge>Suc ?n. at_frame pb i j)" using False by (metis Suc_leD not_less_eq_eq le_antisym)
      then show ?thesis using True s(3) by (auto simp: rounds_left_def)
    next
      case no: False
      then have "\<not> (\<exists>j\<ge>?n. at_frame pb i j)" using bound by (meson le_trans not_le)
      moreover have "?n = length (pb_file pb)" using no less.prems by (simp add: playing_def)
      moreover have "\<exists>j\<ge>0. at_frame pb i j" using j by blast
      ultimately show ?thesis using no s(3) by (simp add: rounds_left_def)
    qed
    from less.hyps [OF this s(2)] s(1) show ?thesis by (simp add: remux_loop.simps [of ff snap st])
  qed (use less.prems in blast)
qed

lemma playing_loop:
  assumes p: "plays ff pb" and ne: "frames pb i \<noteq> []"
  shows "playing pb snap i c ts k st \<Longrightarrow> k \<le> pb_accepts pb \<Longrightarrow>
    \<exists>ret st'. remux_loop ff snap st = Some (Inr (ret, st')) \<and> ret < 0 \<and> pb_muxed pb (rx_ff st') = map (played pb i) [0..<pb_accepts pb] \<and>
      rx_tasks st' = ts @ callback_tasks snap c (pb_sent pb (rx_ff st')) \<and> (\<forall>b \<in> set (pb_sent pb (rx_ff st')). length b \<le> 1400)"
proof (induction "pb_accepts pb - k" arbitrary: k st)
  case 0
  obtain st1 where l: "remux_loop ff snap st = remux_loop ff snap st1" and st1: "playing pb snap i c ts k st1" "at_frame pb i (pb_pos pb (rx_ff st1))"
    using reach_frame [OF p ne 0(2)] by blast
  have "k = pb_accepts pb" using 0 by simp
  with frame_round [OF p st1] l show ?case by (auto simp: remux_loop.simps [of ff snap st1])
next
  case (Suc m)
  obtain st1 where l: "remux_loop ff snap st = remux_loop ff snap st1" and st1: "playing pb snap i c ts k st1" "at_frame pb i (pb_pos pb (rx_ff st1))"
    using reach_frame [OF p ne Suc(3)] by blast
  have "k < pb_accepts pb" using Suc(2) by simp
  then obtain st2 where s: "remux_iter ff snap st1 = Inr (None, st2)" "playing pb snap i c ts (Suc k) st2"
    using frame_round [OF p st1] by auto
  have "m = pb_accepts pb - Suc k" "Suc k \<le> pb_accepts pb" using Suc(2) by simp_all
  from Suc(1) [OF this(1) s(2) this(2)] show ?case using l s(1) by (simp add: remux_loop.simps [of ff snap st1])
qed

section \<open>An example\<close>

text \<open>A file with an audio stream and a video stream of two frames; the state is the position, the frames that were muxed and what was written.\<close>

definition example_file :: "av_packet list" where
  "example_file =
     [\<lparr>stream_index = 0, pk_data = [7], pk_pts = 0, pk_dts = 0, pk_pos = 0\<rparr>,
      \<lparr>stream_index = 1, pk_data = [0, 1, 1], pk_pts = 0, pk_dts = 0, pk_pos = 1\<rparr>,
      \<lparr>stream_index = 1, pk_data = [0, 1, 2], pk_pts = 0, pk_dts = 0, pk_pos = 4\<rparr>]"

type_synonym example_state = "nat \<times> av_packet list \<times> bytes list"

definition example_ffmpeg :: "nat \<Rightarrow> example_state ffmpeg" where
  "example_ffmpeg accepts =
     \<lparr>AVERROR_ENOMEM = -12, AVERROR_UNKNOWN = -1313558101, AVERROR_EOF = -541478725, av_bsf_get_by_name = (\<lambda>_. True),
      av_bsf_alloc = Pair True, av_malloc = (\<lambda>_. Pair True), avio_alloc_context = (\<lambda>_. Pair True), av_packet_alloc = Pair True,
      avformat_open_input = (\<lambda>name. Pair (if name = str ''./test.flv'' then 0 else -2)), avformat_find_stream_info = Pair 0,
      avformat_alloc_output_context2 = (\<lambda>_. Pair True), av_opt_set_int = (\<lambda>_ _ f. f), AVFMT_NOFILE_set = (\<lambda>_. False),
      nb_streams = (\<lambda>_. 2), out_streams = (\<lambda>_. 1), codec_type_video = (\<lambda>i _. i = 1), avformat_new_stream = Pair (Some 0),
      avcodec_parameters_copy = (\<lambda>_ _. Pair 0), av_bsf_init = Pair 0, avformat_write_header = (\<lambda>_ f. (0, [], f)),
      av_read_frame = (\<lambda>p (n, m, s). if n < length example_file then (0, example_file ! n, Suc n, m, s) else (-1, p, n, m, s)),
      av_seek_frame = (\<lambda>_ (n, m, s). (0, 0, m, s)),
      av_bsf_send_packet = (\<lambda>p f. (0, p, f)), av_bsf_receive_packet = (\<lambda>p f. (0, p\<lparr>pk_data := [0, 0, 0, 1] @ drop 2 (pk_data p)\<rparr>, f)),
      av_packet_rescale_ts = (\<lambda>_ _ _ p. p\<lparr>pk_pts := 90 * pk_pts p, pk_dts := 90 * pk_dts p\<rparr>),
      av_interleaved_write_frame = (\<lambda>p (n, m, s).
        if length m < accepts then (0, [take 1400 (pk_data p)], p, n, m @ [p], s @ [take 1400 (pk_data p)]) else (-5, [], p, n, m, s)),
      av_write_trailer = (\<lambda>f. ([], f))\<rparr>"

definition example_playback :: "nat \<Rightarrow> example_state playback" where
  "example_playback accepts =
     \<lparr>pb_file = example_file, pb_streams = 2, pb_filter = (\<lambda>d. [0, 0, 0, 1] @ drop 2 d), pb_scale = (\<lambda>t. 90 * t), pb_accepts = accepts,
      pb_pos = fst, pb_muxed = (\<lambda>f. fst (snd f)), pb_sent = (\<lambda>f. snd (snd f))\<rparr>"

lemma example_plays: "plays (example_ffmpeg n) (example_playback n)"
  unfolding plays_def by (simp add: example_ffmpeg_def example_playback_def pb_view_def split: if_split)

lemma example_setup:
  "remux_setup (example_ffmpeg n) snap (str ''./test.flv'') (new_remux f) = Inr (Go ((new_remux f)\<lparr>rx_abs_ctx := True,
     rx_avio_ctx_buffer := True, rx_avio_ctx := True, rx_max_packet_size := 1400, rx_pkt := True, rx_ifmt_ctx := True, rx_ofmt_ctx := True,
     rx_in_stream_index := 1, rx_pb := True\<rparr>))"
  by (simp add: remux_setup_def jbind_def open_avio_def open_input_def open_output_def start_output_def find_video.simps
      example_ffmpeg_def new_remux_def)

section \<open>Properties\<close>



text \<open>C31: How the thread ends. It returns, with 0 or 1, only if it never got as far as giving the muxer its I/O context: then no packet was handed to any
  session, and the I/O buffer, if it was allocated, has not been released. In every other case it runs for ever or ends in one of four ways that are
  undefined: an unknown filter, a null filter context, a missing stream, or the closing of an I/O context that FFmpeg did not open.\<close>

theorem remux_exits:
  assumes "errors_negative ff" and "\<forall>f. \<not> AVFMT_NOFILE_set ff f" and "H2642Rtp ff snap name f = Some r"
  shows "case r of
      Inl e \<Rightarrow> e \<in> {UndefinedCall ''av_bsf_alloc'', UndefinedCall ''avio_close'', NullDeref, OutOfBounds}
    | Inr (v, st) \<Rightarrow> (v = 0 \<or> v = 1) \<and> \<not> rx_pb st \<and> rx_calls st = 0 \<and> rx_tasks st = [] \<and>
        rx_avio_ctx_buffer st = fst (av_malloc ff 4096 (snd (av_bsf_alloc ff f)))"
proof -
  note ready = remux_setup_outcome [OF assms(1), of f snap name, unfolded setup_outcome_def]
  have closes: "outputting st \<Longrightarrow> remux_end ff ret st = Inl (UndefinedCall ''avio_close'')" for ret st
    using assms(2) by (simp add: remux_end_def avio_closep_def outputting_def)
  have returns: "silent st \<Longrightarrow> \<exists>v st'. remux_end ff ret st = Inr (v, st') \<and> (v = 0 \<or> v = 1) \<and> silent st' \<and> rx_avio_ctx_buffer st' = rx_avio_ctx_buffer st"
    for ret st by (simp add: remux_end_def avio_closep_def silent_def Let_def)
  show ?thesis
  proof (cases "remux_setup ff snap name (new_remux f)")
    case (Inl e)
    then show ?thesis using ready assms(3) by (auto simp: H2642Rtp_def)
  next
    case (Inr j)
    show ?thesis
    proof (cases j)
      case (Go st)
      then obtain r' where l: "remux_loop ff snap st = Some r'" using Inr assms(3) by (auto simp: H2642Rtp_def split: option.splits)
      have "outputting st" using ready Inr Go by simp
      with remux_loop_outputting [OF l] closes show ?thesis using Inr Go l assms(3)
        by (cases r') (auto simp: H2642Rtp_def muxer_output_eq split_beta Let_def)
    next
      case (Goto_end ret st)
      then have "r = remux_end ff ret st" using Inr assms(3) by (simp add: H2642Rtp_def)
      moreover have "silent st \<and> rx_avio_ctx_buffer st = has_buffer ff f \<or> outputting st" using ready Inr Goto_end by auto
      ultimately show ?thesis using closes returns [of st ret] by (auto simp: silent_def has_buffer_def)
    next
      case (Return v st)
      then show ?thesis using ready Inr assms(3) by (auto simp: H2642Rtp_def silent_def has_buffer_def)
    qed
  qed
qed

theorem remux_exits_witness:
  "\<exists>st. H2642Rtp (example_ffmpeg 3) (\<lambda>_. example_server) (str ''missing'') (0, [], []) = Some (Inr (1, st)) \<and> rx_tasks st = [] \<and> rx_avio_ctx_buffer st"
proof -
  have "errors_negative (example_ffmpeg 3)" "\<forall>f. \<not> AVFMT_NOFILE_set (example_ffmpeg 3) f"
    by (simp_all add: errors_negative_def example_ffmpeg_def)
  moreover obtain st where h: "H2642Rtp (example_ffmpeg 3) (\<lambda>_. example_server) (str ''missing'') (0, [], []) = Some (Inr (1, st))"
    by (simp add: H2642Rtp_def remux_setup_def jbind_def open_avio_def open_input_def remux_end_def example_ffmpeg_def new_remux_def str_def eprint_def)
  ultimately show ?thesis using remux_exits [OF _ _ h] by (auto simp: example_ffmpeg_def)
qed

end
