(* ===== verification/Startup.thy ===== *)
theory Startup
  imports EndToEnd DtlsSecurity Settings
begin

text \<open>
  The start of the two example programs (\<open>main\<close> in example/rtp_src_example.cc and example/publish.cc): the command line, the class start-up of
  the crypto utilities (common/crypto.cc), DTLS and libsrtp, the UDP server on its port, and the callbacks, which capture the address and the port.
  The event loop then runs the operations of the machine of \<open>Server\<close>; the remuxing thread of the sending example is in \<open>Remux\<close>.
\<close>

section \<open>Class start-up\<close>

record crypto_statics =
  cs_seed :: uint32
  cs_hmacSha1Ctx :: ptr

text \<open>The seed is the low half of an address; a context that could not be made is not reported.\<close>

definition Crypto_ClassInit :: "uint64 \<Rightarrow> bool \<Rightarrow> crypto_statics" where
  "Crypto_ClassInit seed_address HMAC_CTX_new =
     \<lparr>cs_seed = ucast seed_address, cs_hmacSha1Ctx = (if HMAC_CTX_new then Live else Null)\<rparr>"

definition Crypto_ClassDestroy :: "crypto_statics \<Rightarrow> crypto_statics res" where
  "Crypto_ClassDestroy cs =
     (if cs_hmacSha1Ctx cs \<noteq> Null then rbind (free_ptr (cs_hmacSha1Ctx cs)) (\<lambda>p. Ok (cs\<lparr>cs_hmacSha1Ctx := p\<rparr>)) else Ok cs)"

definition SrtpSession_ClassInit :: "nat \<Rightarrow> unit res" where
  "SrtpSession_ClassInit err =
     (if IsError err then rbind (GetErrorString err) (\<lambda>_. Fault (Throw ''srtp_install_event_handler() failed'')) else Ok ())"

section \<open>Command line\<close>

text \<open>\<open>atoi\<close>: 0 without digits; a value that is no \<open>int\<close> is undefined.\<close>

definition atoi :: "bytes \<Rightarrow> int res" where
  "atoi s =
     (let s = dropWhile isspace s;
          neg = (s \<noteq> [] \<and> hd s = 45);
          s = (if s \<noteq> [] \<and> (hd s = 45 \<or> hd s = 43) then tl s else s);
          v = digits_value (takeWhile isdigit s);
          v = (if neg then - v else v)
      in if v < - (2 ^ 31) \<or> v \<ge> 2 ^ 31 then Fault (UndefinedCall ''atoi'') else Ok v)"

definition main_arguments :: "bytes list \<Rightarrow> (bytes \<times> uint16) res" where
  "main_arguments argv =
     (if length argv = 3 then rbind (atoi (argv ! 2)) (\<lambda>v. Ok (argv ! 1, word_of_int v)) else Ok (str ''127.0.0.1'', 10000))"

section \<open>The program\<close>

text \<open>What the environment provides: the address of the seed, whether OpenSSL made an HMAC context, the certificate that was generated and the buffer for
  fingerprints, the status of the event handler's installation, the pool of event loops, and the call that binds the listening socket, which ends
  the process when it fails.\<close>

record 'pool environment =
  seed_address :: uint64
  HMAC_CTX_new :: bool
  certificate :: bytes
  hex_buffer :: bytes
  srtp_install_event_handler :: nat
  loop_pool :: 'pool
  bindAddress :: "TransportTuple \<Rightarrow> unit res"

definition new_UdpServer :: "'pool environment \<Rightarrow> uint32 \<Rightarrow> TransportTuple \<Rightarrow> ('ssl, 'ss, 'pool) server res" where
  "new_UdpServer env seed listen_addr =
     rbind (bindAddress env listen_addr) (\<lambda>_. Ok
       \<lparr>sv_sessions = [], sv_session = [], sv_connections = [], sv_connection = [], sv_pool = loop_pool env, sv_seed = seed,
        sv_listen_addr = listen_addr\<rparr>)"

record ('ssl, 'ss, 'pool) program =
  pr_ip :: bytes
  pr_port :: uint16
  pr_crypto :: crypto_statics
  pr_statics :: dtls_statics
  pr_fingerprints :: "Fingerprint list"
  pr_server :: "('ssl, 'ss, 'pool) server"

definition start_program ::
  "cert_lib \<Rightarrow> ctx_lib \<Rightarrow> ('ssl, 'ss) libs \<Rightarrow> 'pool environment \<Rightarrow> bytes list \<Rightarrow> ('ssl, 'ss, 'pool) program res" where
  "start_program clib xlib l env argv =
     rbind (main_arguments argv) (\<lambda>(ip, port).
     let cs = Crypto_ClassInit (seed_address env) (HMAC_CTX_new env) in
     case DtlsTransport_ClassInit clib xlib (l_ssl l) (certificate env) (hex_buffer env) (no_statics, []) of
       (Inl f, _) \<Rightarrow> Inl f
     | (Inr _, statics, fps) \<Rightarrow>
         rbind (DepLibSRTP_ClassInit (l_srtp l)) (\<lambda>_.
         rbind (SrtpSession_ClassInit (srtp_install_event_handler env)) (\<lambda>_.
         rbind (new_UdpServer env (cs_seed cs) (AF_INET port 0)) (\<lambda>sv.
         Ok \<lparr>pr_ip = ip, pr_port = port, pr_crypto = cs, pr_statics = statics, pr_fingerprints = fps, pr_server = sv\<rparr>))))"

type_synonym ('ssl, 'ss, 'pool) http_callback =
  "bytes \<Rightarrow> bool \<Rightarrow> bytes \<Rightarrow> ('ssl, 'ss, 'pool) server \<Rightarrow> (bytes option \<times> ('ssl, 'ss, 'pool) server) res"

definition rtp_src_main ::
  "cert_lib \<Rightarrow> ctx_lib \<Rightarrow> ('ssl, 'ss) libs \<Rightarrow> 'pool muduo \<Rightarrow> 'pool environment \<Rightarrow> bytes list
     \<Rightarrow> (('ssl, 'ss, 'pool) program \<times> ('ssl, 'ss, 'pool) packet_callback \<times> ('ssl, 'ss, 'pool) http_callback) res" where
  "rtp_src_main clib xlib l mu env argv =
     rbind (start_program clib xlib l env argv) (\<lambda>p.
     Ok (p, HandlePacket mu, \<lambda>stun_buffer order. rtp_src_http l (pr_fingerprints p) stun_buffer order (pr_ip p) (pr_port p)))"

definition publish_main ::
  "cert_lib \<Rightarrow> ctx_lib \<Rightarrow> ('ssl, 'ss) libs \<Rightarrow> 'pool muduo \<Rightarrow> 'pool environment \<Rightarrow> bytes list
     \<Rightarrow> (('ssl, 'ss, 'pool) program \<times> ('ssl, 'ss, 'pool) packet_callback \<times> ('ssl, 'ss, 'pool) http_callback) res" where
  "publish_main clib xlib l mu env argv =
     rbind (start_program clib xlib l env argv) (\<lambda>p.
     Ok (p, HandlePacket mu, \<lambda>stun_buffer order. publish_http l (pr_fingerprints p) stun_buffer order (pr_ip p) (pr_port p)))"

section \<open>Fingerprints of the certificate\<close>

lemma generate_loop_digests:
  "generate_loop lib c buffer kvs fps0 = Inr fps \<Longrightarrow> kv \<in> set kvs \<Longrightarrow> fst (X509_digest lib (snd kv) c) \<noteq> 0"
proof (induction kvs arbitrary: fps0)
  case (Cons kv' kvs)
  then show ?case by (auto simp: generate_fingerprint_def split_beta split: if_splits)
qed simp

lemma generated_fingerprints:
  assumes "digest_ok lib" "length buffer = EVP_MAX_MD_SIZE lib * 3 + 1" "GenerateFingerprints lib c buffer [] = Inr fps"
  shows "fps = map (\<lambda>a. \<lparr>fp_algorithm = a, fp_value = hex_text (snd (X509_digest lib a c))\<rparr>) [SHA1, SHA224, SHA256, SHA384, SHA512] \<and>
    (\<forall>a \<in> {SHA1, SHA224, SHA256, SHA384, SHA512}. fst (X509_digest lib a c) \<noteq> 0)"
proof -
  have d: "fst (X509_digest lib (snd kv) c) \<noteq> 0" if "kv \<in> set string2FingerprintAlgorithm" for kv
    using generate_loop_digests assms(3) that unfolding GenerateFingerprints_def by blast
  then have "\<forall>kv \<in> set string2FingerprintAlgorithm. snd kv \<noteq> FingerprintAlgorithm.NONE \<and>
      fst (X509_digest lib (snd kv) c) \<noteq> 0 \<and> GetFingerprintAlgorithm (fst kv) = snd kv"
    using GetFingerprintAlgorithm_known by (auto simp: string2FingerprintAlgorithm_def GetFingerprintAlgorithm_def)
  from generate_loop_eq [OF assms(1,2) this, of "[]"] assms(3)
  have "fps = map (\<lambda>kv. \<lparr>fp_algorithm = snd kv, fp_value = hex_text (snd (X509_digest lib (snd kv) c))\<rparr>) string2FingerprintAlgorithm"
    by (simp add: GenerateFingerprints_def)
  moreover have "\<forall>a \<in> snd ` set string2FingerprintAlgorithm. fst (X509_digest lib a c) \<noteq> 0" using d by blast
  ultimately show ?thesis by (simp add: string2FingerprintAlgorithm_def)
qed

lemma hex_text_line: "line_text (hex_text bs)"
proof -
  have hex: "hex_digit i \<noteq> 10 \<and> hex_digit i \<noteq> 13" if "i < 16" for i
  proof -
    have "hex_digit i \<in> set (str ''0123456789ABCDEF'')" unfolding hex_digit_def using that by (intro nth_mem) (simp add: str_def)
    moreover have "10 \<notin> set (str ''0123456789ABCDEF'')" "13 \<notin> set (str ''0123456789ABCDEF'')" by (simp_all add: str_def)
    ultimately show ?thesis by metis
  qed
  have "c \<in> set (hex_text bs) \<Longrightarrow> c \<noteq> 10 \<and> c \<noteq> 13" for c
    by (induction bs rule: hex_text.induct) (auto simp: hex_pair_def nibbles_less hex)
  then show ?thesis using hex_text_nonzero by (auto simp: line_text_def)
qed

lemma generated_fingerprints_ok:
  assumes "digest_ok lib" "EVP_MAX_MD_SIZE lib = 64" "length buffer = 193" "GenerateFingerprints lib c buffer [] = Inr fps"
  shows "fingerprints_ok fps" "GetSHA256Fingerprint fps = hex_text (snd (X509_digest lib SHA256 c))"
proof -
  have b: "length buffer = EVP_MAX_MD_SIZE lib * 3 + 1" using assms(2,3) by simp
  note g = generated_fingerprints [OF assms(1) b assms(4)]
  have len: "length (hex_text (snd (X509_digest lib a c))) \<le> 192" if "fst (X509_digest lib a c) \<noteq> 0" for a
  proof -
    have "snd (X509_digest lib a c) \<noteq> [] \<and> length (snd (X509_digest lib a c)) \<le> 64"
      using assms(1,2) that unfolding digest_ok_def by metis
    moreover from this have "length (hex_text (snd (X509_digest lib a c))) = 3 * length (snd (X509_digest lib a c)) - 1" by (simp add: length_hex_text)
    ultimately show ?thesis by linarith
  qed
  show "fingerprints_ok fps" using g len by (auto simp: fingerprints_ok_def hex_text_line)
  show "GetSHA256Fingerprint fps = hex_text (snd (X509_digest lib SHA256 c))" using g by (simp add: GetSHA256Fingerprint_def)
qed

section \<open>A started program\<close>

lemma started:
  assumes "start_program clib xlib l env argv = Inr p"
  shows "main_arguments argv = Inr (pr_ip p, pr_port p)" "pr_server p = new_server (loop_pool env) (ucast (seed_address env)) (AF_INET (pr_port p) 0)"
    "GenerateFingerprints (l_ssl l) (certificate env) (hex_buffer env) [] = Inr (pr_fingerprints p)"
    "srtp_init (l_srtp l) = 0" "srtp_install_event_handler env = 0"
  using assms by (auto simp: start_program_def DtlsTransport_ClassInit_def DepLibSRTP_ClassInit_def SrtpSession_ClassInit_def IsError_def
      new_UdpServer_def new_server_def Crypto_ClassInit_def split_beta Let_def split: prod.splits sum.splits if_splits)

text \<open>The faults with which the start can end.\<close>

lemma start_faults:
  assumes "start_program clib xlib l env argv = Inl f"
  shows "main_arguments argv = Inl f \<or> fst (DtlsTransport_ClassInit clib xlib (l_ssl l) (certificate env) (hex_buffer env) (no_statics, [])) = Inl f \<or>
    DepLibSRTP_ClassInit (l_srtp l) = Inl f \<or> SrtpSession_ClassInit (srtp_install_event_handler env) = Inl f \<or>
    (\<exists>port. bindAddress env (AF_INET port 0) = Inl f)"
proof -
  obtain r st fps where d: "DtlsTransport_ClassInit clib xlib (l_ssl l) (certificate env) (hex_buffer env) (no_statics, []) = (r, st, fps)"
    by (metis prod_cases3)
  show ?thesis using assms d by (cases r) (auto simp: start_program_def new_UdpServer_def rbind_eq_Inl Let_def)
qed

section \<open>Property\<close>


definition example_env :: "unit environment" where
  "example_env = \<lparr>seed_address = 0x7FFF12345678, HMAC_CTX_new = True, certificate = [1], hex_buffer = replicate 193 0,
     srtp_install_event_handler = 0, loop_pool = (), bindAddress = (\<lambda>_. Ok ())\<rparr>"

definition start_libs :: "(nat, unit) libs" where
  "start_libs = example_libs\<lparr>l_ssl := example_ssl\<lparr>X509_digest := \<lambda>_ c. (1, [0xAB, 7])\<rparr>\<rparr>"

lemma start_libs_ok: "libs_ok start_libs" "can_create start_libs" "digest_ok (l_ssl start_libs)" "EVP_MAX_MD_SIZE (l_ssl start_libs) = 64"
proof -
  show "digest_ok (l_ssl start_libs)" "EVP_MAX_MD_SIZE (l_ssl start_libs) = 64"
    using example_digest_ok by (simp_all add: start_libs_def example_ssl_def)
  show "libs_ok start_libs" using example_libs_ok by (simp add: libs_ok_def start_libs_def example_libs_def ssl_ok_def)
  show "can_create start_libs" using example_can_create by (auto simp: can_create_def start_libs_def example_libs_def new_DtlsTransport_def example_ssl_def)
qed


end
