(* ===== verification/TimeUtils.thy ===== *)
theory TimeUtils
  imports StunPacket
begin

text \<open>
  The functions of \<open>Utils::Time\<close>, \<open>Utils::IP\<close> and \<open>Utils::Bits\<close> with a body (common/utils.h): comparison of
  timestamps that wrap around, the 24-bit send time, comparison and copies of socket addresses. The conversions
  to and from NTP time are in the theory \<open>Ntp\<close>.
\<close>

section \<open>Definitions\<close>

definition IsNewerTimestamp :: "uint32 \<Rightarrow> uint32 \<Rightarrow> bool" where
  "IsNewerTimestamp timestamp prevTimestamp =
     (if timestamp - prevTimestamp = 0x80000000 then timestamp > prevTimestamp
      else timestamp \<noteq> prevTimestamp \<and> timestamp - prevTimestamp < 0x80000000)"

definition LatestTimestamp :: "uint32 \<Rightarrow> uint32 \<Rightarrow> uint32" where
  "LatestTimestamp timestamp1 timestamp2 = (if IsNewerTimestamp timestamp1 timestamp2 then timestamp1 else timestamp2)"

definition TimeMsToAbsSendTime :: "uint64 \<Rightarrow> uint32" where
  "TimeMsToAbsSendTime ms = ucast ((push_bit 18 ms + 500) div 1000) AND 0x00FFFFFF"

text \<open>The two families of \<open>sockaddr\<close>; other families are never equal.\<close>

fun CompareAddresses :: "sockaddr \<Rightarrow> sockaddr \<Rightarrow> bool" where
  "CompareAddresses (AF_INET port1 addr1) (AF_INET port2 addr2) = (if port1 \<noteq> port2 then False else addr1 = addr2)"
| "CompareAddresses (AF_INET6 port1 addr1) (AF_INET6 port2 addr2) = (if port1 \<noteq> port2 then False else addr1 = addr2)"
| "CompareAddresses _ _ = False"

text \<open>A copy is made into fresh storage; of an unknown family nothing is copied and the storage stays as it was.\<close>

fun CopyAddress :: "sockaddr \<Rightarrow> sockaddr \<Rightarrow> sockaddr" where
  "CopyAddress (AF_INET port addr) copiedAddr = AF_INET port addr"
| "CopyAddress (AF_INET6 port addr) copiedAddr = AF_INET6 port addr"
| "CopyAddress (AF_OTHER f) copiedAddr = copiedAddr"

section \<open>Timestamps\<close>

lemma newer_iff:
  "IsNewerTimestamp t u \<longleftrightarrow>
     (if unat u \<le> unat t then 0 < unat t - unat u \<and> unat t - unat u \<le> 2 ^ 31 else 2 ^ 31 < unat u - unat t)"
proof -
  have "unat t < 2 ^ 32" "unat u < 2 ^ 32" by (rule order.strict_trans2 [OF unsigned_less]; simp)+
  then show ?thesis
    by (auto simp: IsNewerTimestamp_def word_unat_eq_iff word_less_nat_alt word_le_nat_alt unat_sub_if')
qed

lemma LatestTimestamp_commute: "LatestTimestamp t u = LatestTimestamp u t"
  by (auto simp: LatestTimestamp_def newer_iff word_unat_eq_iff)

lemma unat_low_24: "unat ((ucast (y :: uint64) :: uint32) AND 0x00FFFFFF) = unat y mod 2 ^ 24"
proof -
  have "(ucast y :: uint32) AND 0x00FFFFFF = take_bit 24 (ucast y)" by (simp add: take_bit_eq_mask mask_eq_exp_minus_1)
  then have "unat ((ucast y :: uint32) AND 0x00FFFFFF) = take_bit 24 (unat (ucast y :: uint32))" by (simp only: unsigned_take_bit_eq)
  then show ?thesis by (simp add: unsigned_ucast_eq take_bit_eq_mod mod_mod_cancel)
qed

lemma abs_send_time_eq:
  assumes "unat ms < 2 ^ 46"
  shows "unat (TimeMsToAbsSendTime ms) = (unat ms * 2 ^ 18 + 500) div 1000 mod 2 ^ 24"
proof -
  have "unat (push_bit 18 ms) = unat ms * 2 ^ 18"
    using assms by (simp add: push_bit_eq_mult unat_word_ariths)
  moreover have "unat ms * 2 ^ 18 + 500 < 2 ^ 64" using assms by simp
  ultimately have "unat (push_bit 18 ms + 500) = unat ms * 2 ^ 18 + 500" by (simp add: unat_word_ariths)
  then have "unat ((push_bit 18 ms + 500) div 1000) = (unat ms * 2 ^ 18 + 500) div 1000" by (simp add: unat_div)
  then show ?thesis unfolding TimeMsToAbsSendTime_def unat_low_24 by simp
qed

section \<open>Properties\<close>

text \<open>Timestamps that wrap around. No timestamp is newer than itself; of two different ones exactly one is newer, also when they are
  2 to the power 31 apart; so the latest of two does not depend on their order. A timestamp is newer than any it is less than
  2 to the power 31 ahead of, across the wrap-around. The send time of an instant before 2 to the power 46 milliseconds is the instant in units
  of 2 to the power -18 seconds, rounded, modulo 2 to the power 24. Addresses compare equal exactly if they are the same address of a known family;
  the copy of an address compares equal to it for exactly those families.\<close>

theorem time_utils:
  "\<not> IsNewerTimestamp t t \<and> (t \<noteq> u \<longrightarrow> IsNewerTimestamp t u \<noteq> IsNewerTimestamp u t) \<and>
   LatestTimestamp t u = LatestTimestamp u t \<and>
   (0 < d \<and> d < 2 ^ 31 \<longrightarrow> LatestTimestamp (t + of_nat d) t = t + of_nat d) \<and>
   (unat ms < 2 ^ 46 \<longrightarrow> unat (TimeMsToAbsSendTime ms) = (unat ms * 2 ^ 18 + 500) div 1000 mod 2 ^ 24) \<and>
   (CompareAddresses a b \<longleftrightarrow> a = b \<and> (\<forall>f. a \<noteq> AF_OTHER f)) \<and>
   (CompareAddresses (CopyAddress a u') a \<longleftrightarrow> (\<forall>f. a \<noteq> AF_OTHER f))"
proof -
  have "LatestTimestamp (t + of_nat d) t = t + of_nat d" if "0 < d" "d < 2 ^ 31"
  proof -
    have "unat (of_nat d :: uint32) = d" using that by (simp add: unat_of_nat)
    then have "(of_nat d :: uint32) \<noteq> 0" "(of_nat d :: uint32) < 0x80000000" using that by (auto simp: word_less_nat_alt)
    then show ?thesis by (auto simp: LatestTimestamp_def IsNewerTimestamp_def)
  qed
  moreover have "CompareAddresses a b \<longleftrightarrow> a = b \<and> (\<forall>f. a \<noteq> AF_OTHER f)" by (cases a; cases b) auto
  moreover have "CompareAddresses (CopyAddress a u') a \<longleftrightarrow> (\<forall>f. a \<noteq> AF_OTHER f)" by (cases a; cases u') auto
  moreover have "t \<noteq> u \<Longrightarrow> IsNewerTimestamp t u \<noteq> IsNewerTimestamp u t" by (auto simp: newer_iff word_unat_eq_iff)
  ultimately show ?thesis using LatestTimestamp_commute abs_send_time_eq by (auto simp: newer_iff)
qed

theorem time_utils_witness:
  "LatestTimestamp (0xFFFFFFF0 + of_nat 21) 0xFFFFFFF0 = 0xFFFFFFF0 + of_nat 21 \<and> unat (TimeMsToAbsSendTime 1500) = 393216 \<and> IsNewerTimestamp 7 3 \<noteq> IsNewerTimestamp 3 7"
  using time_utils [of "0xFFFFFFF0" 3 21 "1500" "AF_INET 1 2" "AF_INET 1 2"] time_utils [of 7 3] by simp

end
