(* ===== verification/Ntp.thy ===== *)
theory Ntp
  imports TimeUtils
begin

text \<open>
  The conversions between milliseconds and NTP time (common/utils.h \<open>Utils::Time\<close>), which compute with \<open>double\<close>. Only one operation there
  rounds: the quotient of two small integers, which is the nearest number with a mantissa of 53 bits, ties to even. The other products and
  quotients, by powers of two or below 2 to the power 53, are exact.
\<close>

section \<open>Quotients of type double\<close>

text \<open>For \<open>0 < a < b\<close>: the least scale that brings the quotient to 53 bits.\<close>

function norm_shift :: "nat \<Rightarrow> nat \<Rightarrow> nat \<Rightarrow> nat" where
  "norm_shift a b k = (if a = 0 \<or> b * 2 ^ 52 \<le> a * 2 ^ k then k else norm_shift a b (k + 1))"
  by pat_completeness auto
termination
proof (relation "measure (\<lambda>(a, b, k). b * 2 ^ 52 - a * 2 ^ k)", goal_cases)
  case (2 a b k)
  then have "a * 2 ^ k < b * 2 ^ 52" "0 < a * 2 ^ k" by auto
  then have "b * 2 ^ 52 - 2 * (a * 2 ^ k) < b * 2 ^ 52 - a * 2 ^ k" by linarith
  moreover have "a * 2 ^ (k + 1) = 2 * (a * 2 ^ k)" by simp
  ultimately show ?case by (simp only: in_measure prod.case)
qed simp

declare norm_shift.simps [simp del]

definition round_half_even :: "nat \<Rightarrow> nat \<Rightarrow> nat" where
  "round_half_even n d = (let q = n div d; r = n mod d in if 2 * r < d \<or> 2 * r = d \<and> even q then q else q + 1)"

text \<open>The mantissa \<open>q\<close> and the scale \<open>k\<close> of the quotient \<open>q / 2 ^ k\<close>.\<close>

definition double_div :: "nat \<Rightarrow> nat \<Rightarrow> nat \<times> nat" where
  "double_div a b = (let k = norm_shift a b 0 in (round_half_even (a * 2 ^ k) b, k))"

section \<open>The conversions\<close>

record ntp =
  seconds :: uint32
  fractions :: uint32

definition TimeMs2Ntp :: "uint64 \<Rightarrow> ntp" where
  "TimeMs2Ntp ms =
     (let (q, k) = double_div (unat (ms mod 1000)) 1000
      in \<lparr>seconds = ucast (ms div 1000), fractions = word_of_nat (q * 2 ^ 32 div 2 ^ k)\<rparr>)"

text \<open>\<open>std::round\<close> takes halves away from zero.\<close>

definition Ntp2TimeMs :: "ntp \<Rightarrow> uint64" where
  "Ntp2TimeMs t = ucast (seconds t) * 1000 + word_of_nat ((2 * (unat (fractions t) * 1000) + 2 ^ 32) div (2 * 2 ^ 32))"

section \<open>Rounding\<close>

lemma norm_shift_fits: "0 < a \<Longrightarrow> b * 2 ^ 52 \<le> a * 2 ^ norm_shift a b k"
proof (induction a b k rule: norm_shift.induct)
  case (1 a b k)
  then show ?case by (subst norm_shift.simps) auto
qed

lemma norm_shift_least: "0 < a \<Longrightarrow> a * 2 ^ k < b * 2 ^ 53 \<Longrightarrow> a * 2 ^ norm_shift a b k < b * 2 ^ 53"
proof (induction a b k rule: norm_shift.induct)
  case (1 a b k)
  show ?case
  proof (cases "b * 2 ^ 52 \<le> a * 2 ^ k")
    case True
    then show ?thesis using 1 by (subst norm_shift.simps) simp
  next
    case False
    then have "a * 2 ^ (k + 1) < b * 2 ^ 53" by simp
    with 1 False show ?thesis by (subst norm_shift.simps) simp
  qed
qed

lemma round_half_even_near:
  assumes "0 < d"
  shows "2 * n \<le> 2 * (round_half_even n d * d) + d" "2 * (round_half_even n d * d) \<le> 2 * n + d" "d dvd n \<Longrightarrow> round_half_even n d * d = n"
proof -
  define q r where "q = n div d" and "r = n mod d"
  have n: "n = q * d + r" "r < d" using assms by (simp_all add: q_def r_def)
  have e: "round_half_even n d = (if 2 * r < d \<or> 2 * r = d \<and> even q then q else q + 1)" by (simp add: round_half_even_def q_def r_def Let_def)
  show "2 * n \<le> 2 * (round_half_even n d * d) + d" "2 * (round_half_even n d * d) \<le> 2 * n + d" using n e by (auto simp: algebra_simps)
  show "d dvd n \<Longrightarrow> round_half_even n d * d = n" using assms by (simp add: round_half_even_def)
qed

text \<open>The quotient is a number with 53 bits, and none is nearer.\<close>

lemma double_div_nearest:
  assumes "0 < a" "a < b" "double_div a b = (q, k)"
  shows "53 \<le> k" "2 ^ 52 \<le> q" "q \<le> 2 ^ 53" "2 * (a * 2 ^ k) \<le> 2 * (q * b) + b" "2 * (q * b) \<le> 2 * (a * 2 ^ k) + b"
    "b dvd a * 2 ^ k \<Longrightarrow> q * b = a * 2 ^ k"
proof -
  have k: "k = norm_shift a b 0" "q = round_half_even (a * 2 ^ k) b" using assms(3) by (auto simp: double_div_def Let_def)
  have fits: "b * 2 ^ 52 \<le> a * 2 ^ k" using norm_shift_fits [OF assms(1)] k(1) by simp
  have least: "a * 2 ^ k < b * 2 ^ 53" using norm_shift_least [OF assms(1), of 0 b] assms(2) k(1) by simp
  have "a * 2 ^ 52 < a * 2 ^ k" using fits assms(2) by (meson mult_less_mono1 order.strict_trans2 zero_less_numeral zero_less_power)
  then have "(2 :: nat) ^ 52 < 2 ^ k" by simp
  then have "52 < k" by (rule power_less_imp_less_exp [rotated]) simp
  then show "53 \<le> k" by simp
  have b: "0 < b" using assms(2) by simp
  note near = round_half_even_near [OF b, of "a * 2 ^ k", folded k(2)]
  show "2 * (a * 2 ^ k) \<le> 2 * (q * b) + b" "2 * (q * b) \<le> 2 * (a * 2 ^ k) + b" by (rule near(1), rule near(2))
  show "b dvd a * 2 ^ k \<Longrightarrow> q * b = a * 2 ^ k" by (rule near(3))
  have "2 * (b * 2 ^ 52) \<le> 2 * (q * b) + b" using fits near(1) by linarith
  then have "b * 2 ^ 53 \<le> b * (2 * q + 1)" by (simp add: algebra_simps)
  then have "(2 :: nat) ^ 53 \<le> 2 * q + 1" using b by (meson mult_le_cancel1 not_le)
  then show "2 ^ 52 \<le> q" by simp
  have "2 * (q * b) < 2 * (b * 2 ^ 53) + b" using least near(2) by linarith
  then have "b * (2 * q) < b * (2 * 2 ^ 53 + 1)" by (simp add: algebra_simps)
  then have "2 * q < 2 * 2 ^ 53 + 1" using b by (meson mult_less_cancel1)
  then show "q \<le> 2 ^ 53" by simp
qed

lemma fraction_exact:
  assumes "r < 1000" "double_div r 1000 = (q, k)"
  shows "q * 2 ^ 32 div 2 ^ k = r * 2 ^ 32 div 1000"
proof (cases "r = 0")
  case True
  then have "k = 0" "q = 0" using assms(2) norm_shift.simps [of 0 1000 0] by (auto simp: double_div_def round_half_even_def Let_def)
  with True show ?thesis by simp
next
  case False
  note n = double_div_nearest [OF False [unfolded neq0_conv] assms]
  define m s where "m = r * 2 ^ 32 div 1000" and "s = r * 2 ^ 32 mod 1000"
  have N: "r * 2 ^ 32 = m * 1000 + s" "s < 1000" by (simp_all only: m_def s_def div_mult_mod_eq mod_less_divisor zero_less_numeral)
  have big: "2 ^ 53 \<le> (2 :: nat) ^ k" by (rule power_increasing) (use n(1) in simp_all)
  have scaled: "r * 2 ^ k * 2 ^ 32 = 1000 * (m * 2 ^ k) + s * 2 ^ k"
  proof -
    have "r * 2 ^ k * 2 ^ 32 = (r * 2 ^ 32) * 2 ^ k" by (simp only: ac_simps)
    then show ?thesis unfolding N(1) by (simp only: distrib_right distrib_left ac_simps)
  qed
  have low: "m * 2 ^ k \<le> q * 2 ^ 32"
  proof (cases "s = 0")
    case True
    have "1000 dvd r * 2 ^ 32" using True by (simp add: s_def mod_eq_0_iff_dvd)
    moreover have "r * 2 ^ k = r * 2 ^ 32 * 2 ^ (k - 32)" using n(1) by (simp only: mult.assoc flip: power_add) simp
    ultimately have "1000 dvd r * 2 ^ k" by (metis dvd_mult2)
    then have exact: "q * 1000 = r * 2 ^ k" by (rule n(6))
    have "A \<le> q * 2 ^ 32" if "P * 2 ^ 32 = 1000 * A + S" "q * 1000 = P" for P A S :: nat using that by simp
    from this [OF scaled exact] show ?thesis .
  next
    case False
    have "A \<le> q * 2 ^ 32" if "P * 2 ^ 32 = 1000 * A + S" "2 * P \<le> 2 * (q * 1000) + 1000" "K \<le> S" "2 ^ 53 \<le> K" for P A S K :: nat
      using that by simp
    from this [OF scaled n(4) _ big] show ?thesis using False by simp
  qed
  have high: "q * 2 ^ 32 < (m + 1) * 2 ^ k"
  proof -
    have "q * 2 ^ 32 < A + K" if "P * 2 ^ 32 = 1000 * A + S" "2 * (q * 1000) \<le> 2 * P + 1000" "S \<le> 999 * K" "2 ^ 53 \<le> K" for P A S K :: nat
      using that by simp
    from this [OF scaled n(5) _ big] show ?thesis using N(2) by simp
  qed
  show ?thesis unfolding m_def [symmetric] using low high by (intro div_nat_eqI) (simp_all add: algebra_simps)
qed

section \<open>Property\<close>

text \<open>Milliseconds and NTP time. The fraction of a second is exact in units of 2 to the power -32 seconds, rounded down, although it is computed with
  floating point numbers; and converting an instant before 2 to the power 32 seconds to NTP time and back gives the same number of milliseconds.\<close>

theorem ntp_roundtrip:
  assumes "unat ms < 1000 * 2 ^ 32"
  shows "unat (seconds (TimeMs2Ntp ms)) = unat ms div 1000 \<and>
    unat (fractions (TimeMs2Ntp ms)) = (unat ms mod 1000) * 2 ^ 32 div 1000 \<and>
    Ntp2TimeMs (TimeMs2Ntp ms) = ms"
proof -
  let ?r = "unat ms mod 1000"
  obtain q k where d: "double_div ?r 1000 = (q, k)" by fastforce
  have r: "unat (ms mod 1000) = ?r" "?r < 1000" by (simp_all add: unat_mod)
  have small: "unat ms div 1000 < 2 ^ 32" using assms by (simp only: less_mult_imp_div_less mult.commute)
  have s: "unat (seconds (TimeMs2Ntp ms)) = unat ms div 1000"
    using d r(1) small by (simp add: TimeMs2Ntp_def unat_div unsigned_ucast_eq take_bit_nat_eq_self)
  have lt: "?r * 2 ^ 32 div 1000 < 2 ^ 32" using r(2) by simp
  have f: "unat (fractions (TimeMs2Ntp ms)) = ?r * 2 ^ 32 div 1000"
    using d r(1) lt fraction_exact [OF r(2) d] by (simp add: TimeMs2Ntp_def unat_of_nat)
  let ?F = "?r * 2 ^ 32 div 1000"
  have "(2 * (?F * 1000) + 2 ^ 32) div (2 * 2 ^ 32) = ?r"
  proof (rule div_nat_eqI)
    define r F t where "r = ?r" and "F = ?F" and "t = ?r * 2 ^ 32 mod 1000"
    have "r * 2 ^ 32 = F * 1000 + t" "t < 1000" by (simp_all only: r_def F_def t_def div_mult_mod_eq mod_less_divisor zero_less_numeral)
    then have "2 * 2 ^ 32 * r \<le> 2 * (F * 1000) + 2 ^ 32" "2 * (F * 1000) + 2 ^ 32 < 2 * 2 ^ 32 * Suc r" by simp_all
    then show "2 * 2 ^ 32 * ?r \<le> 2 * (?F * 1000) + 2 ^ 32" "2 * (?F * 1000) + 2 ^ 32 < 2 * 2 ^ 32 * Suc ?r"
      by (simp_all only: r_def F_def)
  qed
  then have "Ntp2TimeMs (TimeMs2Ntp ms) = ucast (seconds (TimeMs2Ntp ms)) * 1000 + word_of_nat ?r" unfolding Ntp2TimeMs_def f by simp
  also have "\<dots> = word_of_nat (unat ms div 1000 * 1000 + ?r)" 
  proof -
    have "(ucast (seconds (TimeMs2Ntp ms)) :: uint64) = word_of_nat (unat (seconds (TimeMs2Ntp ms)))" by simp
    then show ?thesis unfolding s by (simp only: of_nat_add of_nat_mult of_nat_numeral)
  qed
  also have "\<dots> = ms" by simp
  finally show ?thesis using s f by blast
qed

theorem ntp_roundtrip_witness:
  "unat (fractions (TimeMs2Ntp 1700000000123)) = 528280977 \<and> Ntp2TimeMs (TimeMs2Ntp 1700000000123) = 1700000000123"
  using ntp_roundtrip [of 1700000000123] by simp

end
