(* ===== verification/Sockets.thy ===== *)
theory Sockets
  imports Server
begin

text \<open>
  The sockets under \<open>UdpServer\<close> and \<open>UdpConnection\<close> (net/udp_server.cc, net/udp_connection.cc). The kernel is a parameter: a state and one
  function per call. The listening socket and the socket of every connection share a local address; the socket of a connection is connected to
  its peer, so that the kernel delivers the peer's datagrams there, while the listening socket must stay unconnected.

  The constructor of a connection binds its socket with muduo's \<open>bindAddress\<close>, which ends the process when the call fails; the results of the
  other calls are ignored by the code.
\<close>

section \<open>The kernel\<close>

text \<open>A file descriptor is an \<open>int\<close>, -1 on failure. \<open>connect\<close> without an address stands for the family \<open>AF_UNSPEC\<close>.\<close>

record 'k posix =
  sys_socket :: "'k \<Rightarrow> int \<times> 'k"
  sys_reuse_addr :: "int \<Rightarrow> 'k \<Rightarrow> 'k"
  sys_reuse_port :: "int \<Rightarrow> 'k \<Rightarrow> 'k"
  sys_bind :: "int \<Rightarrow> TransportTuple \<Rightarrow> 'k \<Rightarrow> bool \<times> 'k"
  sys_connect :: "int \<Rightarrow> TransportTuple option \<Rightarrow> 'k \<Rightarrow> int \<times> 'k"
  sys_getsockname :: "int \<Rightarrow> 'k \<Rightarrow> TransportTuple option"
  getLocalAddr :: "int \<Rightarrow> 'k \<Rightarrow> TransportTuple"

text \<open>The server with its descriptors: that of the listening socket and those of the connections, by number.\<close>

record ('ssl, 'ss, 'pool, 'k) host =
  h_server :: "('ssl, 'ss, 'pool) server"
  h_fd :: int
  h_fds :: "int list"
  h_kernel :: 'k
  h_reading :: bool

section \<open>Operations\<close>

text \<open>What both constructors do with a new descriptor.\<close>

definition bind_socket :: "'k posix \<Rightarrow> int \<Rightarrow> TransportTuple \<Rightarrow> 'k \<Rightarrow> 'k res" where
  "bind_socket os fd addr k =
     (let k = sys_reuse_addr os fd k; k = sys_reuse_port os fd k; (ok, k) = sys_bind os fd addr k
      in if ok then Ok k else Fault (Abort ''bindOrDie''))"

definition open_UdpServer :: "'k posix \<Rightarrow> ('ssl, 'ss, 'pool) server \<Rightarrow> 'k \<Rightarrow> ('ssl, 'ss, 'pool, 'k) host res" where
  "open_UdpServer os sv k =
     (let (fd, k) = sys_socket os k
      in rbind (bind_socket os fd (sv_listen_addr sv) k) (\<lambda>k.
         Ok \<lparr>h_server = sv, h_fd = fd, h_fds = [], h_kernel = k, h_reading = False\<rparr>))"

definition open_UdpConnection :: "'k posix \<Rightarrow> int \<Rightarrow> TransportTuple \<Rightarrow> TransportTuple \<Rightarrow> 'k \<Rightarrow> 'k res" where
  "open_UdpConnection os sockfd local_addr peer_addr k =
     rbind (bind_socket os sockfd local_addr k) (\<lambda>k. Ok (snd (sys_connect os sockfd (Some peer_addr) k)))"

definition DissolveUdpSock :: "'k posix \<Rightarrow> int \<Rightarrow> 'k \<Rightarrow> int \<times> 'k" where
  "DissolveUdpSock os fd k =
     (case sys_getsockname os fd k of
        None \<Rightarrow> (-1, k)
      | Some addr \<Rightarrow> let (r, k) = sys_connect os fd None k in if r = -1 then (-1, k) else (0, k))"

definition get_or_create ::
  "'k posix \<Rightarrow> 'pool muduo \<Rightarrow> TransportTuple \<Rightarrow> ('ssl, 'ss, 'pool, 'k) host \<Rightarrow> (nat \<times> ('ssl, 'ss, 'pool, 'k) host) res" where
  "get_or_create os mu remote_addr h =
     (let sv = h_server h; key = toIpPort mu remote_addr in
      case map_of (sv_connections sv) key of
        Some c \<Rightarrow> Ok (c, h)
      | None \<Rightarrow>
          let (io_loop, pool) = getNextLoop mu (sv_pool sv);
              local_addr = getLocalAddr os (h_fd h) (h_kernel h);
              (fd, k) = sys_socket os (h_kernel h);
              c = length (sv_connection sv)
          in rbind (open_UdpConnection os fd local_addr remote_addr k) (\<lambda>k.
             Ok (c, h\<lparr>h_server := sv\<lparr>sv_pool := pool, sv_connection := sv_connection sv @ [new_UdpConnection io_loop key local_addr remote_addr],
                        sv_connections := map_assign key c (sv_connections sv)\<rparr>,
                      h_fds := h_fds h @ [fd], h_kernel := snd (DissolveUdpSock os (h_fd h) k)\<rparr>)))"

text \<open>\<open>Start\<close> of the server starts the threads of the pool (\<open>start_pool\<close>, muduo) and lets the loop read the listening socket. For a
  connection the flag is \<open>c_started\<close>, which \<open>SetNetworkTransport\<close> sets.\<close>

definition UdpServer_Start :: "('pool \<Rightarrow> 'pool) \<Rightarrow> ('ssl, 'ss, 'pool, 'k) host \<Rightarrow> ('ssl, 'ss, 'pool, 'k) host" where
  "UdpServer_Start start_pool h =
     h\<lparr>h_server := h_server h\<lparr>sv_pool := start_pool (sv_pool (h_server h))\<rparr>, h_reading := True\<rparr>"

section \<open>Documented behaviour of the kernel\<close>

text \<open>The address a socket was bound to and the peer it is connected to, as the kernel has them.\<close>

record 'k sock_view =
  sock_open :: "'k \<Rightarrow> int \<Rightarrow> bool"
  sock_addr :: "'k \<Rightarrow> int \<Rightarrow> TransportTuple option"
  sock_peer :: "'k \<Rightarrow> int \<Rightarrow> TransportTuple option"

definition same_sock :: "'k sock_view \<Rightarrow> 'k \<Rightarrow> 'k \<Rightarrow> int \<Rightarrow> bool" where
  "same_sock v k k' fd \<longleftrightarrow> sock_open v k' fd = sock_open v k fd \<and> sock_addr v k' fd = sock_addr v k fd \<and> sock_peer v k' fd = sock_peer v k fd"

text \<open>For port 0 the kernel chooses a port, so that the local address differs from the one of the call.\<close>

fun fixed_port :: "TransportTuple \<Rightarrow> bool" where
  "fixed_port (AF_INET port addr) \<longleftrightarrow> port \<noteq> 0"
| "fixed_port _ \<longleftrightarrow> False"

text \<open>The laws: a new descriptor is none of the open ones; the options change no address; a bind that succeeds is one of an open socket; a
  connect that succeeds sets the peer, one that fails leaves it; the local address of an unconnected socket is the one it was bound to.\<close>

definition socket_law :: "'k posix \<Rightarrow> 'k sock_view \<Rightarrow> bool" where
  "socket_law os v \<longleftrightarrow> (\<forall>k fd k'. sys_socket os k = (fd, k') \<longrightarrow> \<not> sock_open v k fd \<and>
     (sock_open v k' fd \<longrightarrow> sock_peer v k' fd = None) \<and> (\<forall>d. d \<noteq> fd \<longrightarrow> same_sock v k k' d))"

definition option_law :: "'k posix \<Rightarrow> 'k sock_view \<Rightarrow> bool" where
  "option_law os v \<longleftrightarrow> (\<forall>k fd d. same_sock v k (sys_reuse_addr os fd k) d \<and> same_sock v k (sys_reuse_port os fd k) d)"

definition bind_law :: "'k posix \<Rightarrow> 'k sock_view \<Rightarrow> bool" where
  "bind_law os v \<longleftrightarrow> (\<forall>k fd a k'. sys_bind os fd a k = (True, k') \<longrightarrow> (\<forall>d. d \<noteq> fd \<longrightarrow> same_sock v k k' d) \<and>
     sock_open v k fd \<and> sock_open v k' fd \<and> sock_peer v k' fd = sock_peer v k fd \<and> sock_addr v k' fd = Some a)"

definition connect_law :: "'k posix \<Rightarrow> 'k sock_view \<Rightarrow> bool" where
  "connect_law os v \<longleftrightarrow> (\<forall>k fd p r k'. sock_open v k fd \<longrightarrow> sys_connect os fd p k = (r, k') \<longrightarrow> (\<forall>d. d \<noteq> fd \<longrightarrow> same_sock v k k' d) \<and>
     sock_open v k' fd \<and> sock_addr v k' fd = sock_addr v k fd \<and> sock_peer v k' fd = (if r = -1 then sock_peer v k fd else p))"

definition local_law :: "'k posix \<Rightarrow> 'k sock_view \<Rightarrow> bool" where
  "local_law os v \<longleftrightarrow> (\<forall>k fd a. sock_open v k fd \<longrightarrow> sock_addr v k fd = Some a \<longrightarrow> fixed_port a \<longrightarrow> sock_peer v k fd = None \<longrightarrow>
     getLocalAddr os fd k = a)"

definition posix_ok :: "'k posix \<Rightarrow> 'k sock_view \<Rightarrow> bool" where
  "posix_ok os v \<longleftrightarrow> socket_law os v \<and> option_law os v \<and> bind_law os v \<and> connect_law os v \<and> local_law os v"

text \<open>Connecting an open datagram socket to a peer.\<close>

definition connects :: "'k posix \<Rightarrow> 'k sock_view \<Rightarrow> bool" where
  "connects os v \<longleftrightarrow> (\<forall>fd p k. sock_open v k fd \<longrightarrow> fst (sys_connect os fd (Some p) k) \<noteq> -1)"

text \<open>The listening socket is bound and unconnected; the socket of a connection is bound to the same address and connected to the connection's
  peer. No two of them are the same socket.\<close>

definition connection_socket :: "'k sock_view \<Rightarrow> 'k \<Rightarrow> TransportTuple \<Rightarrow> int \<Rightarrow> connection \<Rightarrow> bool" where
  "connection_socket v k a fd con \<longleftrightarrow> sock_open v k fd \<and> sock_addr v k fd = Some a \<and> sock_peer v k fd = Some (c_peer con)"

definition host_inv :: "'k sock_view \<Rightarrow> ('ssl, 'ss, 'pool, 'k) host \<Rightarrow> bool" where
  "host_inv v h \<longleftrightarrow>
     fixed_port (sv_listen_addr (h_server h)) \<and>
     sock_open v (h_kernel h) (h_fd h) \<and> sock_addr v (h_kernel h) (h_fd h) = Some (sv_listen_addr (h_server h)) \<and>
     sock_peer v (h_kernel h) (h_fd h) = None \<and> distinct (h_fd h # h_fds h) \<and>
     list_all2 (connection_socket v (h_kernel h) (sv_listen_addr (h_server h))) (h_fds h) (sv_connection (h_server h))"

section \<open>What the calls of a constructor do\<close>

lemma same_sock_trans: "same_sock v k k1 d \<Longrightarrow> same_sock v k1 k2 d \<Longrightarrow> same_sock v k k2 d"
  by (simp add: same_sock_def)

lemma connection_socket_same: "same_sock v k k' fd \<Longrightarrow> connection_socket v k' a fd con = connection_socket v k a fd con"
  by (simp add: same_sock_def connection_socket_def)

lemma bind_rule:
  assumes "posix_ok os v" "sys_bind os fd a k = (True, k')"
  shows "\<forall>d. d \<noteq> fd \<longrightarrow> same_sock v k k' d" "sock_open v k fd" "sock_open v k' fd" "sock_peer v k' fd = sock_peer v k fd"
    "sock_addr v k' fd = Some a"
  using assms by (simp_all add: posix_ok_def bind_law_def)

lemma option_rule: "posix_ok os v \<Longrightarrow> same_sock v k (sys_reuse_port os fd (sys_reuse_addr os fd k)) d"
  by (simp add: posix_ok_def option_law_def same_sock_def)

lemma bind_socket_cases:
  assumes "posix_ok os v"
  shows "bind_socket os fd a k = Inl (Abort ''bindOrDie'') \<or>
    (\<exists>k'. bind_socket os fd a k = Inr k' \<and> (\<forall>d. d \<noteq> fd \<longrightarrow> same_sock v k k' d) \<and> sock_open v k fd \<and> sock_open v k' fd \<and>
      sock_peer v k' fd = sock_peer v k fd \<and> sock_addr v k' fd = Some a)"
proof -
  let ?k = "sys_reuse_port os fd (sys_reuse_addr os fd k)"
  have same: "same_sock v k ?k d" for d by (rule option_rule [OF assms])
  obtain okb k' where b: "sys_bind os fd a ?k = (okb, k')" by fastforce
  show ?thesis
  proof (cases okb)
    case False
    then show ?thesis using b by (simp add: bind_socket_def)
  next
    case True
    have "sys_bind os fd a ?k = (True, k')" using b True by simp
    note now = bind_rule [OF assms this]
    have "\<forall>d. d \<noteq> fd \<longrightarrow> same_sock v k k' d" using same now(1) by (auto simp: same_sock_def)
    moreover have "bind_socket os fd a k = Inr k'" using b True by (simp add: bind_socket_def)
    moreover have "sock_open v k fd" "sock_peer v k' fd = sock_peer v k fd" using same [of fd] now(2,4) by (simp_all add: same_sock_def)
    ultimately show ?thesis using now by simp
  qed
qed

lemma open_UdpConnection_cases:
  assumes "posix_ok os v" "connects os v"
  shows "open_UdpConnection os fd a (c_peer con) k = Inl (Abort ''bindOrDie'') \<or>
    (\<exists>k'. open_UdpConnection os fd a (c_peer con) k = Inr k' \<and> (\<forall>d. d \<noteq> fd \<longrightarrow> same_sock v k k' d) \<and> connection_socket v k' a fd con)"
proof (cases "bind_socket os fd a k")
  case (Inl f)
  then show ?thesis using bind_socket_cases [OF assms(1), of fd a k] by (simp add: open_UdpConnection_def)
next
  case (Inr k1)
  then have b: "\<forall>d. d \<noteq> fd \<longrightarrow> same_sock v k k1 d" "sock_open v k1 fd" "sock_addr v k1 fd = Some a"
    using bind_socket_cases [OF assms(1), of fd a k] by simp_all
  obtain r k2 where c: "sys_connect os fd (Some (c_peer con)) k1 = (r, k2)" by fastforce
  then have "r \<noteq> -1" using assms(2) b(2) unfolding connects_def by (metis fst_conv)
  with assms(1) b(2) c have d: "\<forall>d. d \<noteq> fd \<longrightarrow> same_sock v k1 k2 d" "sock_open v k2 fd" "sock_addr v k2 fd = sock_addr v k1 fd"
    "sock_peer v k2 fd = Some (c_peer con)" unfolding posix_ok_def connect_law_def by metis+
  have "open_UdpConnection os fd a (c_peer con) k = Inr k2" using Inr c by (simp add: open_UdpConnection_def)
  moreover have "\<forall>d. d \<noteq> fd \<longrightarrow> same_sock v k k2 d" using b(1) d(1) same_sock_trans by meson
  ultimately show ?thesis using b(3) d by (simp add: connection_socket_def)
qed

lemma DissolveUdpSock_same:
  assumes "posix_ok os v" "sock_open v k fd" "sock_peer v k fd = None"
  shows "same_sock v k (snd (DissolveUdpSock os fd k)) d"
proof (cases "sys_getsockname os fd k")
  case None
  then show ?thesis by (simp add: DissolveUdpSock_def same_sock_def)
next
  case (Some a)
  obtain r k1 where c: "sys_connect os fd None k = (r, k1)" by fastforce
  then have "snd (DissolveUdpSock os fd k) = k1" using Some by (simp add: DissolveUdpSock_def)
  moreover from assms c have "\<forall>d. d \<noteq> fd \<longrightarrow> same_sock v k k1 d" "sock_open v k1 fd" "sock_addr v k1 fd = sock_addr v k fd"
    "sock_peer v k1 fd = (if r = -1 then sock_peer v k fd else None)" unfolding posix_ok_def connect_law_def by metis+
  ultimately show ?thesis using assms(2,3) by (cases "d = fd") (simp_all add: same_sock_def)
qed

lemma open_UdpServer_cases:
  assumes "posix_ok os v" "fixed_port (sv_listen_addr sv)" "sv_connection sv = []"
  shows "open_UdpServer os sv k = Inl (Abort ''bindOrDie'') \<or> (\<exists>h. open_UdpServer os sv k = Inr h \<and> h_server h = sv \<and> host_inv v h)"
proof -
  obtain fd k1 where s: "sys_socket os k = (fd, k1)" by fastforce
  have fresh: "sock_open v k1 fd \<longrightarrow> sock_peer v k1 fd = None" using assms(1) s unfolding posix_ok_def socket_law_def by metis
  show ?thesis
  proof (cases "bind_socket os fd (sv_listen_addr sv) k1")
    case (Inl f)
    then show ?thesis using s bind_socket_cases [OF assms(1), of fd "sv_listen_addr sv" k1] by (simp add: open_UdpServer_def)
  next
    case (Inr k2)
    then have "host_inv v \<lparr>h_server = sv, h_fd = fd, h_fds = [], h_kernel = k2, h_reading = False\<rparr>"
      using bind_socket_cases [OF assms(1), of fd "sv_listen_addr sv" k1] fresh assms(2,3) by (simp add: host_inv_def)
    then show ?thesis using Inr s by (simp add: open_UdpServer_def)
  qed
qed

text \<open>A new socket and the dissolving of the listening one leave the sockets that are already there as they are.\<close>

lemma host_inv_extend:
  assumes inv: "host_inv v h" and same: "\<And>d. d \<noteq> fd \<Longrightarrow> same_sock v (h_kernel h) k d" and new: "\<not> sock_open v (h_kernel h) fd"
    and con: "connection_socket v k (sv_listen_addr (h_server h)) fd con"
    and sv: "sv_listen_addr sv = sv_listen_addr (h_server h)" "sv_connection sv = sv_connection (h_server h) @ [con]"
  shows "host_inv v (h\<lparr>h_server := sv, h_fds := h_fds h @ [fd], h_kernel := k\<rparr>)"
proof -
  have l: "list_all2 (connection_socket v (h_kernel h) (sv_listen_addr (h_server h))) (h_fds h) (sv_connection (h_server h))"
    using inv by (simp add: host_inv_def)
  have "h_fd h \<noteq> fd" using inv new by (auto simp: host_inv_def)
  moreover have fds: "d \<noteq> fd" if "d \<in> set (h_fds h)" for d
    using l new that by (auto simp: connection_socket_def list_all2_conv_all_nth in_set_conv_nth)
  moreover have "list_all2 (connection_socket v k (sv_listen_addr (h_server h))) (h_fds h) (sv_connection (h_server h))"
    using l by (rule list.rel_mono_strong) (use fds same connection_socket_same in metis)
  ultimately show ?thesis using inv con sv same [of "h_fd h"] by (auto simp: host_inv_def same_sock_def list_all2_appendI)
qed

lemma get_or_create_new:
  assumes "posix_ok os v" "connects os v" and inv: "host_inv v h" and new: "map_of (sv_connections (h_server h)) (toIpPort mu addr) = None"
  shows "get_or_create os mu addr h = Inl (Abort ''bindOrDie'') \<or>
    (\<exists>c h'. get_or_create os mu addr h = Inr (c, h') \<and> GetOrCreatConnection mu addr (h_server h) = (c, h_server h') \<and> host_inv v h')"
proof -
  let ?sv = "h_server h" and ?k = "h_kernel h"
  let ?a = "sv_listen_addr ?sv"
  obtain io_loop pool where n: "getNextLoop mu (sv_pool ?sv) = (io_loop, pool)" by fastforce
  obtain fd k1 where s: "sys_socket os ?k = (fd, k1)" by fastforce
  from assms(1) s have closed: "\<not> sock_open v ?k fd" and keep1: "\<forall>d. d \<noteq> fd \<longrightarrow> same_sock v ?k k1 d"
    unfolding posix_ok_def socket_law_def by metis+
  have listen: "fixed_port ?a" "sock_open v ?k (h_fd h)" "sock_addr v ?k (h_fd h) = Some ?a" "sock_peer v ?k (h_fd h) = None"
    using inv by (simp_all add: host_inv_def)
  with assms(1) have local: "getLocalAddr os (h_fd h) ?k = ?a" unfolding posix_ok_def local_law_def by metis
  let ?con = "new_UdpConnection io_loop (toIpPort mu addr) ?a addr"
  let ?sv' = "?sv\<lparr>sv_pool := pool, sv_connection := sv_connection ?sv @ [?con],
      sv_connections := map_assign (toIpPort mu addr) (length (sv_connection ?sv)) (sv_connections ?sv)\<rparr>"
  have peer: "c_peer ?con = addr" by (simp add: new_UdpConnection_def)
  note made = open_UdpConnection_cases [OF assms(1,2), of fd ?a ?con k1, unfolded peer]
  show ?thesis
  proof (cases "open_UdpConnection os fd ?a addr k1")
    case (Inl f)
    then show ?thesis using made new n s local by (simp add: get_or_create_def)
  next
    case (Inr k2)
    with made have keep2: "\<forall>d. d \<noteq> fd \<longrightarrow> same_sock v k1 k2 d" and con: "connection_socket v k2 ?a fd ?con" by simp_all
    let ?k3 = "snd (DissolveUdpSock os (h_fd h) k2)"
    have "h_fd h \<noteq> fd" using closed listen(2) by metis
    then have "same_sock v ?k k2 (h_fd h)" using keep1 keep2 same_sock_trans by meson
    then have "sock_open v k2 (h_fd h)" "sock_peer v k2 (h_fd h) = None" using listen by (simp_all add: same_sock_def)
    note diss = DissolveUdpSock_same [OF assms(1) this]
    have "same_sock v ?k ?k3 d" if "d \<noteq> fd" for d using keep1 keep2 diss that same_sock_trans by meson
    then have "host_inv v (h\<lparr>h_server := ?sv', h_fds := h_fds h @ [fd], h_kernel := ?k3\<rparr>)"
      using inv closed con connection_socket_same [OF diss] by (intro host_inv_extend) simp_all
    moreover have "get_or_create os mu addr h = Inr (length (sv_connection ?sv), h\<lparr>h_server := ?sv', h_fds := h_fds h @ [fd], h_kernel := ?k3\<rparr>)"
      using new n s local Inr by (simp add: get_or_create_def Let_def)
    moreover have "GetOrCreatConnection mu addr ?sv = (length (sv_connection ?sv), ?sv')" using new n by (simp add: GetOrCreatConnection_def Let_def)
    ultimately show ?thesis by simp
  qed
qed

section \<open>Property\<close>


text \<open>At a kernel that numbers its sockets, with an address and a peer for each.\<close>

type_synonym example_kernel = "int \<times> (int \<Rightarrow> TransportTuple option) \<times> (int \<Rightarrow> TransportTuple option)"

definition example_posix :: "example_kernel posix" where
  "example_posix =
     \<lparr>sys_socket = (\<lambda>(n, A, P). (n, n + 1, A(n := None), P(n := None))), sys_reuse_addr = (\<lambda>_ k. k), sys_reuse_port = (\<lambda>_ k. k),
      sys_bind = (\<lambda>fd a (n, A, P). (fd < n, n, A(fd := Some a), P)), sys_connect = (\<lambda>fd p (n, A, P). (0, n, A, P(fd := p))),
      sys_getsockname = (\<lambda>fd (n, A, P). A fd), getLocalAddr = (\<lambda>fd (n, A, P). case A fd of None \<Rightarrow> AF_INET 0 0 | Some a \<Rightarrow> a)\<rparr>"

definition example_view :: "example_kernel sock_view" where
  "example_view = \<lparr>sock_open = (\<lambda>(n, A, P) fd. fd < n), sock_addr = (\<lambda>(n, A, P). A), sock_peer = (\<lambda>(n, A, P). P)\<rparr>"

lemma example_posix_ok: "posix_ok example_posix example_view" "connects example_posix example_view"
  by (auto simp: posix_ok_def socket_law_def option_law_def bind_law_def connect_law_def local_law_def connects_def same_sock_def
      example_posix_def example_view_def)


end
