(* ===== verification/Interleaving.thy ===== *)
theory Interleaving
  imports Prelude
begin

text \<open>
  Threads that share a state. A thread has a list of actions still to do; its next action may change the shared state
  and put further actions in front of the rest, it may be blocked, or it may fault. A thread without actions may get new ones from its
  environment. A scheduler picks any thread at every step. The interface \<open>rely_guarantee\<close> states what has to be
  shown of one action, with the other threads only known through a relation on the shared state, and what follows
  for every interleaving. \<open>run_alone\<close> performs a thread without interruption.
\<close>

type_synonym ('t, 'a, 's) actor = "'t \<Rightarrow> 'a \<Rightarrow> 's \<Rightarrow> ('s \<times> 'a list) option res"
type_synonym ('t, 'a, 's) arrival = "'t \<Rightarrow> 's \<Rightarrow> 's \<Rightarrow> 'a list \<Rightarrow> bool"
type_synonym ('t, 'a, 's) configuration = "'s \<times> ('t \<Rightarrow> 'a list)"

inductive thread_step ::
  "('t, 'a, 's) actor \<Rightarrow> ('t, 'a, 's) arrival \<Rightarrow> ('t, 'a, 's) configuration \<Rightarrow> ('t, 'a, 's) configuration \<Rightarrow> bool"
  for act and arrive where
  step_act: "ts t = a # rest \<Longrightarrow> act t a s = Inr (Some (s', more)) \<Longrightarrow> thread_step act arrive (s, ts) (s', ts(t := more @ rest))"
| step_arrive: "ts t = [] \<Longrightarrow> arrive t s s' todo \<Longrightarrow> thread_step act arrive (s, ts) (s', ts(t := todo))"

inductive_cases thread_step_raw: "thread_step act arrive (s, ts) (s', ts')"

lemmas thread_stepE = thread_step_raw [consumes 1, case_names step_act step_arrive]

lemma step_actI:
  "ts t = a # rest \<Longrightarrow> act t a s = Inr (Some (s', new)) \<Longrightarrow> ts' = ts(t := new @ rest) \<Longrightarrow> thread_step act arrive (s, ts) (s', ts')"
  by (simp add: step_act)

abbreviation thread_steps ::
  "('t, 'a, 's) actor \<Rightarrow> ('t, 'a, 's) arrival \<Rightarrow> ('t, 'a, 's) configuration \<Rightarrow> ('t, 'a, 's) configuration \<Rightarrow> bool" where
  "thread_steps act arrive \<equiv> (thread_step act arrive)\<^sup>*\<^sup>*"

text \<open>A thread without interruption; \<open>None\<close> if it blocks or does not end.\<close>

partial_function (option) run_alone :: "('t, 'a, 's) actor \<Rightarrow> 't \<Rightarrow> 'a list \<Rightarrow> 's \<Rightarrow> 's res option" where
  "run_alone act t todo s =
     (case todo of
        [] \<Rightarrow> Some (Ok s)
      | a # rest \<Rightarrow>
          (case act t a s of
             Inl f \<Rightarrow> Some (Inl f)
           | Inr None \<Rightarrow> None
           | Inr (Some (s', more)) \<Rightarrow> run_alone act t (more @ rest) s'))"

lemma run_alone_Nil [simp]: "run_alone act t [] s = Some (Inr s)"
  by (simp add: run_alone.simps)

lemma run_alone_Cons:
  "run_alone act t (a # rest) s =
     (case act t a s of Inl f \<Rightarrow> Some (Inl f) | Inr None \<Rightarrow> None | Inr (Some (s', more)) \<Rightarrow> run_alone act t (more @ rest) s')"
  by (subst run_alone.simps) simp

text \<open>What a thread does alone it can also do among others that wait.\<close>

lemma run_alone_steps:
  assumes "run_alone act t todo s = Some (Inr s')" "ts t = todo"
  shows "thread_steps act arrive (s, ts) (s', ts(t := []))"
proof -
  have "\<forall>s' ts. r = Inr s' \<longrightarrow> ts t = todo \<longrightarrow> thread_steps act arrive (s, ts) (s', ts(t := []))"
    if "run_alone act t todo s = Some r" for r
    using that
  proof (induction rule: run_alone.raw_induct [rotated 1, consumes 1, case_names step])
    case (step run act t todo s r)
    show ?case
    proof (cases todo)
      case Nil
      then show ?thesis using step(2) by (auto simp: fun_upd_idem)
    next
      case (Cons a rest)
      show ?thesis
      proof (intro allI impI)
        fix s' ts assume r: "r = Inr s'" "ts t = todo"
        obtain s1 more where a: "act t a s = Inr (Some (s1, more))" "run act t (more @ rest) s1 = Some r"
          using step(2) Cons r(1) by (auto split: sum.splits option.splits)
        have "thread_step act arrive (s, ts) (s1, ts(t := more @ rest))" using r(2) a(1) Cons by (auto intro: step_act)
        moreover have "thread_steps act arrive (s1, ts(t := more @ rest)) (s', (ts(t := more @ rest))(t := []))"
          using step(1) [OF a(2), rule_format, OF r(1), of "ts(t := more @ rest)"] by simp
        ultimately show "thread_steps act arrive (s, ts) (s', ts(t := []))" by (simp add: converse_rtranclp_into_rtranclp)
      qed
    qed
  qed
  with assms show ?thesis by blast
qed

section \<open>Rely and guarantee\<close>

text \<open>\<open>inv\<close> holds of the shared state and \<open>ok t\<close> of the actions of the thread \<open>t\<close>. Every action of a thread changes the state as the other
  threads rely on.\<close>

locale rely_guarantee =
  fixes act :: "('t, 'a, 's) actor"
    and arrive :: "('t, 'a, 's) arrival"
    and inv :: "'s \<Rightarrow> bool"
    and ok :: "'t \<Rightarrow> 's \<Rightarrow> 'a list \<Rightarrow> bool"
    and rely :: "'t \<Rightarrow> 's \<Rightarrow> 's \<Rightarrow> bool"
  assumes act_safe: "inv s \<Longrightarrow> ok t s (a # rest) \<Longrightarrow> \<exists>r. act t a s = Inr r"
    and act_keeps: "inv s \<Longrightarrow> ok t s (a # rest) \<Longrightarrow> act t a s = Inr (Some (s', more)) \<Longrightarrow> inv s' \<and> ok t s' (more @ rest)"
    and act_guarantees: "inv s \<Longrightarrow> ok t s (a # rest) \<Longrightarrow> act t a s = Inr (Some (s', more)) \<Longrightarrow> u \<noteq> t \<Longrightarrow> rely u s s'"
    and arrive_keeps: "inv s \<Longrightarrow> ok t s [] \<Longrightarrow> arrive t s s' todo \<Longrightarrow> inv s' \<and> ok t s' todo"
    and arrive_guarantees: "inv s \<Longrightarrow> ok t s [] \<Longrightarrow> arrive t s s' todo \<Longrightarrow> u \<noteq> t \<Longrightarrow> rely u s s'"
    and stable: "ok u s todo \<Longrightarrow> rely u s s' \<Longrightarrow> ok u s' todo"
begin

lemma step_keeps:
  assumes "thread_step act arrive (s, ts) (s', ts')" "inv s" "\<forall>t. ok t s (ts t)"
  shows "inv s' \<and> (\<forall>t. ok t s' (ts' t))"
  using assms(1)
proof (cases rule: thread_stepE)
  case (step_act t a rest more)
  have t: "ok t s (a # rest)" using assms(3) step_act(2) by metis
  have "ok u s' (ts' u)" for u
  proof (cases "u = t")
    case True
    then show ?thesis using act_keeps [OF assms(2) t step_act(3)] step_act(1) by simp
  next
    case False
    then show ?thesis using stable [OF assms(3) [rule_format] act_guarantees [OF assms(2) t step_act(3) False]] step_act(1) by simp
  qed
  then show ?thesis using act_keeps [OF assms(2) t step_act(3)] by simp
next
  case (step_arrive t todo)
  have t: "ok t s []" using assms(3) step_arrive(2) by metis
  have "ok u s' (ts' u)" for u
  proof (cases "u = t")
    case True
    then show ?thesis using arrive_keeps [OF assms(2) t step_arrive(3)] step_arrive(1) by simp
  next
    case False
    then show ?thesis using stable [OF assms(3) [rule_format] arrive_guarantees [OF assms(2) t step_arrive(3) False]] step_arrive(1) by simp
  qed
  then show ?thesis using arrive_keeps [OF assms(2) t step_arrive(3)] by simp
qed

lemma steps_keep:
  assumes "thread_steps act arrive c c'"
  shows "inv (fst c) \<Longrightarrow> \<forall>t. ok t (fst c) (snd c t) \<Longrightarrow> inv (fst c') \<and> (\<forall>t. ok t (fst c') (snd c' t))"
  using assms
proof (induction rule: rtranclp_induct)
  case (step c' c'')
  then show ?case using step_keeps [of "fst c'" "snd c'" "fst c''" "snd c''"] by simp
qed simp

lemma no_fault:
  assumes "thread_steps act arrive (s, ts) (s', ts')" "inv s" "\<forall>t. ok t s (ts t)" "ts' t = a # rest"
  shows "\<exists>r. act t a s' = Inr r"
  using steps_keep [OF assms(1)] assms(2,3,4) act_safe [of s' t a rest] by (metis fst_conv snd_conv)

end

end
