(* ===== verification/Threads.thy ===== *)
theory Threads
  imports Server Interleaving
begin

text \<open>
  The threads of the sending example and what they share: the main loop (HTTP requests, the listening socket), the remuxing thread, and the
  event loops of the connections. The operations of \<open>Session\<close> that several threads perform are cut into the accesses to shared objects
  they consist of, in the order of the code, with the mutex of the factory and the atomic flag of the sessions. An operation on the transport
  of a session is one action.

  Run without interruption, the actions of an operation are the operation of \<open>Session\<close>. In every interleaving no thread faults: the remuxing
  thread only sees sessions whose loop is set, and the map of sessions is only used by the owner of the mutex. That the transport of
  a session is used by one thread at a time holds with one event loop; with several, a second connection breaks it.
\<close>

section \<open>Shared state and actions\<close>

datatype thread = Main_thread | Media_thread | Io_thread nat

text \<open>\<open>s_network\<close> of the sessions of the server is the target of \<open>transport_\<close> of \<open>WebRtcTransport\<close>, which sending reads; \<open>g_network\<close> is
  \<open>network_transport_\<close> of \<open>WebRTCSession\<close>. Every loop has a queue of tasks, which muduo protects. \<open>g_wire\<close> is what was sent.\<close>

record ('ssl, 'ss, 'pool) shared =
  g_server :: "('ssl, 'ss, 'pool) server"
  g_network :: "nat \<Rightarrow> nat option"
  g_mutex :: "thread option"
  g_queue :: "nat \<Rightarrow> task list"
  g_wire :: "(TransportTuple \<times> bytes) list"

datatype action =
    New_session bytes bool bytes uint16
  | Lock
  | Unlock
  | Insert bytes nat
  | Packet bytes int TransportTuple
  | Find bytes bytes nat TransportTuple
  | Connect nat bytes nat TransportTuple
  | Set_network nat nat
  | Set_transport nat nat
  | Set_callback nat nat
  | Start nat
  | Set_loop nat nat
  | Set_ready nat
  | Post_input nat bytes nat TransportTuple
  | Write bytes nat
  | Scan nat "nat list" bytes nat
  | Post_send nat bytes nat
  | Recv nat bytes int TransportTuple
  | In_transport task

definition upd_session :: "nat \<Rightarrow> (('ssl, 'ss) session \<Rightarrow> ('ssl, 'ss) session) \<Rightarrow> ('ssl, 'ss, 'pool) shared \<Rightarrow> ('ssl, 'ss, 'pool) shared" where
  "upd_session sid f g = g\<lparr>g_server := g_server g\<lparr>sv_session := (sv_session (g_server g))[sid := f (sv_session (g_server g) ! sid)]\<rparr>\<rparr>"

definition upd_connection :: "nat \<Rightarrow> (connection \<Rightarrow> connection) \<Rightarrow> ('ssl, 'ss, 'pool) shared \<Rightarrow> ('ssl, 'ss, 'pool) shared" where
  "upd_connection c f g = g\<lparr>g_server := g_server g\<lparr>sv_connection := (sv_connection (g_server g))[c := f (sv_connection (g_server g) ! c)]\<rparr>\<rparr>"

text \<open>\<open>session->loop()->runInLoop(...)\<close> from another thread: the loop is read, the task is queued.\<close>

definition runInLoop :: "nat \<Rightarrow> task \<Rightarrow> ('ssl, 'ss, 'pool) shared \<Rightarrow> (('ssl, 'ss, 'pool) shared \<times> action list) option res" where
  "runInLoop sid k g =
     (case s_loop (sv_session (g_server g) ! sid) of
        None \<Rightarrow> Fault NullDeref
      | Some n \<Rightarrow> Ok (Some (g\<lparr>g_queue := (g_queue g)(n := g_queue g n @ [k])\<rparr>, [])))"

text \<open>What \<open>SetNetworkTransport\<close> does, and the end of \<open>HandlePacket\<close> after it.\<close>

definition bind_actions :: "nat \<Rightarrow> nat \<Rightarrow> bytes \<Rightarrow> nat \<Rightarrow> TransportTuple \<Rightarrow> action list" where
  "bind_actions sid c buf len addr =
     [Set_network sid c, Set_transport sid c, Set_callback sid c, Start c, Set_loop sid c, Set_ready sid, Post_input sid buf len addr]"

text \<open>Taking a mutex one has and releasing one that one does not have are undefined; taking a mutex another thread has blocks.\<close>

fun act :: "('ssl, 'ss) libs \<Rightarrow> 'pool muduo \<Rightarrow> (thread, action, ('ssl, 'ss, 'pool) shared) actor" where
  "act l mu t (New_session stun_buffer order ip port) g =
     (let sv = g_server g in
      rbind (new_WebRtcTransport l stun_buffer order ip port (sv_seed sv)) (\<lambda>(w, seed).
      Ok (Some (g\<lparr>g_server := sv\<lparr>sv_seed := seed, sv_session := sv_session sv @ [new_WebRTCSession w]\<rparr>\<rparr>,
        [Lock, Insert (GetidentifyID w) (length (sv_session sv)), Unlock]))))"
| "act l mu t Lock g =
     (case g_mutex g of
        None \<Rightarrow> Ok (Some (g\<lparr>g_mutex := Some t\<rparr>, []))
      | Some u \<Rightarrow> if u = t then Fault (UndefinedCall ''std::mutex::lock'') else Ok None)"
| "act l mu t Unlock g =
     (if g_mutex g = Some t then Ok (Some (g\<lparr>g_mutex := None\<rparr>, [])) else Fault (UndefinedCall ''std::mutex::unlock''))"
| "act l mu t (Insert key sid) g =
     Ok (Some (g\<lparr>g_server := g_server g\<lparr>sv_sessions := map_insert key sid (sv_sessions (g_server g))\<rparr>\<rparr>, []))"
| "act l mu t (Packet buf r addr) g =
     (let len = recv_len r in
      rbind (IsStun buf len) (\<lambda>stun. if \<not> stun then Ok (Some (g, [])) else
      rbind (Parse buf len) (\<lambda>packet.
      case packet of
        None \<Rightarrow> Ok (Some (g, []))
      | Some packet \<Rightarrow>
          (case Split (p_username packet) (str '':'') of
             None \<Rightarrow> Fault Diverges
           | Some vec \<Rightarrow>
               rbind (if vec = [] then Fault OutOfBounds else Ok (vec ! 0)) (\<lambda>use_name.
               Ok (Some (g, [Lock, Find use_name buf len addr])))))))"
| "act l mu t (Find key buf len addr) g =
     (case GetWebRTCSession key (g_server g) of
        None \<Rightarrow> Ok (Some (g, [Unlock]))
      | Some sid \<Rightarrow> Ok (Some (g, [Unlock, Connect sid buf len addr])))"
| "act l mu t (Connect sid buf len addr) g =
     (let (c, sv) = GetOrCreatConnection mu addr (g_server g) in Ok (Some (g\<lparr>g_server := sv\<rparr>, bind_actions sid c buf len addr)))"
| "act l mu t (Set_network sid c) g = Ok (Some (g\<lparr>g_network := (g_network g)(sid := Some c)\<rparr>, []))"
| "act l mu t (Set_transport sid c) g =
     Ok (Some (upd_session sid (\<lambda>s. s\<lparr>s_network := Some c, s_transport := SetNetworkTransport (s_transport s)\<rparr>) g, []))"
| "act l mu t (Set_callback sid c) g = Ok (Some (upd_connection c (\<lambda>con. con\<lparr>c_callback := Some sid\<rparr>) g, []))"
| "act l mu t (Start c) g = Ok (Some (upd_connection c (\<lambda>con. con\<lparr>c_started := True\<rparr>) g, []))"
| "act l mu t (Set_loop sid c) g =
     Ok (Some (upd_session sid (\<lambda>s. s\<lparr>s_loop := Some (c_loop (sv_connection (g_server g) ! c))\<rparr>) g, []))"
| "act l mu t (Set_ready sid) g = Ok (Some (upd_session sid (\<lambda>s. s\<lparr>s_is_ready := True\<rparr>) g, []))"
| "act l mu t (Post_input sid buf len addr) g =
     rbind (rd_range buf 0 len) (\<lambda>shared_buf. runInLoop sid (Input_task sid shared_buf len addr) g)"
| "act l mu t (Write buf buf_size) g =
     rbind (rd_range buf 0 buf_size) (\<lambda>shared_buf. Ok (Some (g, [Lock, Scan 0 [] shared_buf buf_size])))"
| "act l mu t (Scan i all_sessions buf buf_size) g =
     (let sv = g_server g in
      if i < length (sv_sessions sv) then
        let sid = snd (sv_sessions sv ! i) in
        Ok (Some (g, [Scan (i + 1) (if s_is_ready (sv_session sv ! sid) then all_sessions @ [sid] else all_sessions) buf buf_size]))
      else Ok (Some (g, Unlock # map (\<lambda>sid. Post_send sid buf buf_size) all_sessions)))"
| "act l mu t (Post_send sid buf buf_size) g = runInLoop sid (Send_task sid buf buf_size) g"
| "act l mu t (Recv c buf r addr) g =
     (case c_callback (sv_connection (g_server g) ! c) of
        None \<Rightarrow> Ok (Some (g, []))
      | Some sid \<Rightarrow> Ok (Some (g, [In_transport (Input_task sid buf (recv_len r) addr)])))"
| "act l mu t (In_transport k) g =
     rbind (run_task l k (g_server g)) (\<lambda>(sv, os).
     rbind (deliver sv (task_session k) os) (\<lambda>ps. Ok (Some (g\<lparr>g_server := sv, g_wire := g_wire g @ ps\<rparr>, []))))"

text \<open>What an idle thread may begin with: a request, a datagram on the listening socket, a packet of the muxer, the next task of the loop, a
  datagram on a started connection of the loop.\<close>

inductive arrive :: "(thread, action, ('ssl, 'ss, 'pool) shared) arrival" where
  arrive_request: "length stun_buffer = StunSerializeBufferSize \<Longrightarrow> arrive Main_thread g g [New_session stun_buffer order ip port]"
| arrive_packet: "length buf = 4096 \<Longrightarrow> -1 \<le> r \<Longrightarrow> r \<le> 4096 \<Longrightarrow> arrive Main_thread g g [Packet buf r addr]"
| arrive_media: "n \<le> length buf \<Longrightarrow> arrive Media_thread g g [Write buf n]"
| arrive_task: "g_queue g n = k # ks \<Longrightarrow> arrive (Io_thread n) g (g\<lparr>g_queue := (g_queue g)(n := ks)\<rparr>) [In_transport k]"
| arrive_read: "c < length (sv_connection (g_server g)) \<Longrightarrow> c_started (sv_connection (g_server g) ! c) \<Longrightarrow>
    c_loop (sv_connection (g_server g) ! c) = n \<Longrightarrow> length buf = 4096 \<Longrightarrow> 0 \<le> r \<Longrightarrow> r \<le> 4096 \<Longrightarrow>
    arrive (Io_thread n) g g [Recv c buf r addr]"

definition start_state :: "'pool \<Rightarrow> uint32 \<Rightarrow> TransportTuple \<Rightarrow> ('ssl, 'ss, 'pool) shared" where
  "start_state pool seed listen_addr =
     \<lparr>g_server = new_server pool seed listen_addr, g_network = (\<lambda>_. None), g_mutex = None, g_queue = (\<lambda>_. []), g_wire = []\<rparr>"

section \<open>Invariant\<close>

text \<open>Sessions whose transport has a target, and sessions that have a loop.\<close>

definition networked :: "('ssl, 'ss, 'pool) server \<Rightarrow> nat set" where
  "networked sv = {sid. sid < length (sv_session sv) \<and> s_network (sv_session sv ! sid) \<noteq> None}"

definition looped :: "('ssl, 'ss, 'pool) server \<Rightarrow> nat set" where
  "looped sv = {sid. sid < length (sv_session sv) \<and> s_loop (sv_session sv ! sid) \<noteq> None}"

text \<open>A session that is ready has a loop and a target; a callback belongs to a session with a target, and so do the tasks that wait.\<close>

definition shared_inv :: "('ssl, 'ss) libs \<Rightarrow> ('ssl, 'ss, 'pool) shared \<Rightarrow> bool" where
  "shared_inv l g \<longleftrightarrow>
     (let sv = g_server g in
      libs_ok l \<and> can_create l \<and> snd ` set (sv_sessions sv) \<subseteq> {..<length (sv_session sv)} \<and>
      snd ` set (sv_connections sv) \<subseteq> {..<length (sv_connection sv)} \<and>
      (\<forall>s \<in> set (sv_session sv). wt_inv l (s_transport s) \<and> \<not> w_rtp_channel (s_transport s)) \<and>
      (\<forall>sid < length (sv_session sv). s_is_ready (sv_session sv ! sid) \<longrightarrow> sid \<in> networked sv \<inter> looped sv) \<and>
      (\<forall>con \<in> set (sv_connection sv). \<forall>sid. c_callback con = Some sid \<longrightarrow> sid \<in> networked sv) \<and>
      (\<forall>n. \<forall>k \<in> set (g_queue g n). task_ok (\<lambda>sid. sid \<in> networked sv) k))"

text \<open>What never shrinks.\<close>

definition grows :: "('ssl, 'ss, 'pool) server \<Rightarrow> ('ssl, 'ss, 'pool) server \<Rightarrow> bool" where
  "grows sv sv' \<longleftrightarrow>
     length (sv_session sv) \<le> length (sv_session sv') \<and> length (sv_connection sv) \<le> length (sv_connection sv') \<and>
     networked sv \<subseteq> networked sv' \<and> looped sv \<subseteq> looped sv'"

text \<open>The arguments of an action are in range.\<close>

fun action_ok :: "('ssl, 'ss, 'pool) server \<Rightarrow> action \<Rightarrow> bool" where
  "action_ok sv (New_session stun_buffer order ip port) \<longleftrightarrow> length stun_buffer = StunSerializeBufferSize"
| "action_ok sv (Insert key sid) \<longleftrightarrow> sid < length (sv_session sv)"
| "action_ok sv (Packet buf r addr) \<longleftrightarrow> length buf = 4096 \<and> -1 \<le> r \<and> r \<le> 4096"
| "action_ok sv (Find key buf len addr) \<longleftrightarrow> len \<le> length buf \<and> len < 65536"
| "action_ok sv (Connect sid buf len addr) \<longleftrightarrow> sid < length (sv_session sv) \<and> len \<le> length buf \<and> len < 65536"
| "action_ok sv (Set_transport sid c) \<longleftrightarrow> sid < length (sv_session sv)"
| "action_ok sv (Set_callback sid c) \<longleftrightarrow> c < length (sv_connection sv)"
| "action_ok sv (Start c) \<longleftrightarrow> c < length (sv_connection sv)"
| "action_ok sv (Set_loop sid c) \<longleftrightarrow> sid < length (sv_session sv) \<and> c < length (sv_connection sv)"
| "action_ok sv (Set_ready sid) \<longleftrightarrow> sid < length (sv_session sv)"
| "action_ok sv (Post_input sid buf len addr) \<longleftrightarrow> len \<le> length buf \<and> len < 65536"
| "action_ok sv (Write buf n) \<longleftrightarrow> n \<le> length buf"
| "action_ok sv (Scan i all_sessions buf n) \<longleftrightarrow> n \<le> length buf"
| "action_ok sv (Post_send sid buf n) \<longleftrightarrow> n \<le> length buf"
| "action_ok sv (Recv c buf r addr) \<longleftrightarrow> c < length (sv_connection sv) \<and> length buf = 4096 \<and> 0 \<le> r \<and> r \<le> 4096"
| "action_ok sv (In_transport k) \<longleftrightarrow> task_ok (\<lambda>_. True) k"
| "action_ok sv _ \<longleftrightarrow> True"

text \<open>Actions that need a target or a loop come after those that set them, for the sets of sessions that have them.\<close>

fun order_ok :: "nat set \<Rightarrow> nat set \<Rightarrow> action list \<Rightarrow> bool" where
  "order_ok N L [] \<longleftrightarrow> True"
| "order_ok N L (Set_transport sid c # as) \<longleftrightarrow> order_ok (insert sid N) L as"
| "order_ok N L (Set_loop sid c # as) \<longleftrightarrow> order_ok N (insert sid L) as"
| "order_ok N L (Set_callback sid c # as) \<longleftrightarrow> sid \<in> N \<and> order_ok N L as"
| "order_ok N L (Set_ready sid # as) \<longleftrightarrow> sid \<in> N \<inter> L \<and> order_ok N L as"
| "order_ok N L (Post_input sid buf len addr # as) \<longleftrightarrow> sid \<in> N \<inter> L \<and> order_ok N L as"
| "order_ok N L (Post_send sid buf n # as) \<longleftrightarrow> sid \<in> N \<inter> L \<and> order_ok N L as"
| "order_ok N L (Scan i all_sessions buf n # as) \<longleftrightarrow> set all_sessions \<subseteq> N \<inter> L \<and> order_ok N L as"
| "order_ok N L (In_transport k # as) \<longleftrightarrow> task_session k \<in> N \<and> order_ok N L as"
| "order_ok N L (_ # as) \<longleftrightarrow> order_ok N L as"

text \<open>The thread is inside the guarded block: its next action uses the map or releases the mutex. Blocks are closed.\<close>

fun uses_map :: "action \<Rightarrow> bool" where
  "uses_map (Insert key sid) \<longleftrightarrow> True"
| "uses_map (Find key buf len addr) \<longleftrightarrow> True"
| "uses_map (Scan i all_sessions buf n) \<longleftrightarrow> True"
| "uses_map _ \<longleftrightarrow> False"

fun locked :: "action list \<Rightarrow> bool" where
  "locked [] \<longleftrightarrow> False"
| "locked (a # as) \<longleftrightarrow> a = Unlock \<or> uses_map a"

fun closed :: "action list \<Rightarrow> bool" where
  "closed [] \<longleftrightarrow> True"
| "closed (Lock # as) \<longleftrightarrow> locked as \<and> closed as"
| "closed (Insert key sid # as) \<longleftrightarrow> locked as \<and> closed as"
| "closed (_ # as) \<longleftrightarrow> \<not> locked as \<and> closed as"

definition thread_ok :: "thread \<Rightarrow> ('ssl, 'ss, 'pool) shared \<Rightarrow> action list \<Rightarrow> bool" where
  "thread_ok t g todo \<longleftrightarrow>
     list_all (action_ok (g_server g)) todo \<and> order_ok (networked (g_server g)) (looped (g_server g)) todo \<and> closed todo \<and>
     (g_mutex g = Some t \<longleftrightarrow> locked todo)"

definition others_keep :: "thread \<Rightarrow> ('ssl, 'ss, 'pool) shared \<Rightarrow> ('ssl, 'ss, 'pool) shared \<Rightarrow> bool" where
  "others_keep t g g' \<longleftrightarrow>
     grows (g_server g) (g_server g') \<and> (g_mutex g' = Some t \<longleftrightarrow> g_mutex g = Some t) \<and>
     (g_mutex g = Some t \<longrightarrow> sv_sessions (g_server g') = sv_sessions (g_server g))"

section \<open>Actions keep the invariant\<close>

lemma grows_refl [simp, intro!]: "grows sv sv"
  by (simp add: grows_def)

lemma grows_sets: "grows sv sv' \<Longrightarrow> sid \<in> networked sv \<Longrightarrow> sid \<in> networked sv'" "grows sv sv' \<Longrightarrow> sid \<in> looped sv \<Longrightarrow> sid \<in> looped sv'"
  by (auto simp: grows_def)

lemma in_range: "sid \<in> networked sv \<Longrightarrow> sid < length (sv_session sv)" "sid \<in> looped sv \<Longrightarrow> sid < length (sv_session sv)"
  by (simp_all add: networked_def looped_def)

lemma action_ok_grows: "grows sv sv' \<Longrightarrow> action_ok sv a \<Longrightarrow> action_ok sv' a"
  by (cases a) (auto simp: grows_def)

lemma actions_ok_grow: "grows sv sv' \<Longrightarrow> list_all (action_ok sv) as \<Longrightarrow> list_all (action_ok sv') as"
  by (auto simp: list_all_iff intro: action_ok_grows)

lemma order_ok_mono: "order_ok N L as \<Longrightarrow> N \<subseteq> N' \<Longrightarrow> L \<subseteq> L' \<Longrightarrow> order_ok N' L' as"
proof (induction N L as arbitrary: N' L' rule: order_ok.induct)
  case (2 N L sid c as)
  then show ?case by (metis insert_mono order_ok.simps(2))
next
  case (3 N L sid c as)
  then show ?case by (metis insert_mono order_ok.simps(3))
qed auto

lemma order_ok_grows: "grows sv sv' \<Longrightarrow> order_ok (networked sv) (looped sv) as \<Longrightarrow> order_ok (networked sv') (looped sv') as"
  by (rule order_ok_mono) (auto simp: grows_def)

lemma thread_ok_stable: "thread_ok u g todo \<Longrightarrow> others_keep u g g' \<Longrightarrow> thread_ok u g' todo"
  by (auto simp: thread_ok_def others_keep_def intro: actions_ok_grow order_ok_grows)

lemma session_upd_sets:
  assumes "sid < length (sv_session sv)"
    and "s_network (sv_session sv ! sid) \<noteq> None \<Longrightarrow> s_network s \<noteq> None" "s_loop (sv_session sv ! sid) \<noteq> None \<Longrightarrow> s_loop s \<noteq> None"
  defines "sv' \<equiv> sv\<lparr>sv_session := (sv_session sv)[sid := s]\<rparr>"
  shows "networked sv' = (if s_network s = None then networked sv else insert sid (networked sv))"
    "looped sv' = (if s_loop s = None then looped sv else insert sid (looped sv))" "grows sv sv'"
proof -
  show n: "networked sv' = (if s_network s = None then networked sv else insert sid (networked sv))"
    using assms(1,2) by (auto simp: networked_def sv'_def nth_list_update)
  show l: "looped sv' = (if s_loop s = None then looped sv else insert sid (looped sv))"
    using assms(1,3) by (auto simp: looped_def sv'_def nth_list_update)
  show "grows sv sv'" using n l by (auto simp: grows_def sv'_def)
qed

lemma upd_session_ok:
  assumes inv: "shared_inv l g" and sid: "sid < length (sv_session (g_server g))"
  defines "s \<equiv> sv_session (g_server g) ! sid"
  assumes w: "wt_inv l (s_transport s) \<Longrightarrow> \<not> w_rtp_channel (s_transport s) \<Longrightarrow> wt_inv l (s_transport (f s)) \<and> \<not> w_rtp_channel (s_transport (f s))"
    and n: "s_network s \<noteq> None \<Longrightarrow> s_network (f s) \<noteq> None" and p: "s_loop s \<noteq> None \<Longrightarrow> s_loop (f s) \<noteq> None"
    and r: "s_is_ready (f s) \<Longrightarrow> s_network (f s) \<noteq> None \<and> s_loop (f s) \<noteq> None"
  shows "shared_inv l (upd_session sid f g)" "grows (g_server g) (g_server (upd_session sid f g))"
proof -
  let ?sv = "g_server g" and ?sv' = "g_server (upd_session sid f g)"
  note sets = session_upd_sets [OF sid, of "f s", folded s_def, OF n p]
  have sv': "?sv' = ?sv\<lparr>sv_session := (sv_session ?sv)[sid := f s]\<rparr>" by (simp add: upd_session_def s_def)
  show g: "grows ?sv ?sv'" using sets(3) by (simp add: sv')
  have "s \<in> set (sv_session ?sv)" using sid by (simp add: s_def)
  then have "wt_inv l (s_transport x) \<and> \<not> w_rtp_channel (s_transport x)" if "x \<in> set (sv_session ?sv')" for x
    using inv w that set_update_subset_insert [of "sv_session ?sv" sid "f s"] by (auto simp: shared_inv_def Let_def sv')
  moreover have "i \<in> networked ?sv' \<inter> looped ?sv'" if "i < length (sv_session ?sv')" "s_is_ready (sv_session ?sv' ! i)" for i
  proof (cases "i = sid")
    case True
    then show ?thesis using that r sid by (simp add: sv' networked_def looped_def)
  next
    case False
    then show ?thesis using that inv grows_sets [OF g, of i] by (simp add: sv' shared_inv_def Let_def)
  qed
  moreover have "g_queue (upd_session sid f g) = g_queue g" by (simp add: upd_session_def)
  ultimately show "shared_inv l (upd_session sid f g)" using inv grows_sets(1) [OF g] task_ok_more [of "\<lambda>sid. sid \<in> networked ?sv"]
    by (simp add: shared_inv_def Let_def) (simp add: sv')
qed

text \<open>The result of an action is blocking or a state in which everything holds again.\<close>

definition goes_well :: "('ssl, 'ss) libs \<Rightarrow> thread \<Rightarrow> ('ssl, 'ss, 'pool) shared \<Rightarrow> action list \<Rightarrow>
    (('ssl, 'ss, 'pool) shared \<times> action list) option res \<Rightarrow> bool" where
  "goes_well l t g rest r \<longleftrightarrow> r = Inr None \<or>
     (\<exists>g' more. r = Inr (Some (g', more)) \<and> shared_inv l g' \<and> thread_ok t g' (more @ rest) \<and> (\<forall>u. u \<noteq> t \<longrightarrow> others_keep u g g'))"

lemma goes_wellI:
  assumes "thread_ok t g (a # rest)" "shared_inv l g'" "grows (g_server g) (g_server g')"
    and "list_all (action_ok (g_server g')) new" "order_ok (networked (g_server g')) (looped (g_server g')) (new @ rest)"
    and "closed (new @ rest)" "g_mutex g' = g_mutex g" "locked (new @ rest) = locked (a # rest)"
    and "locked (a # rest) \<or> sv_sessions (g_server g') = sv_sessions (g_server g)"
  shows "goes_well l t g rest (Inr (Some (g', new)))"
  using assms by (auto simp: goes_well_def thread_ok_def others_keep_def intro: actions_ok_grow)

lemma ok_parts:
  assumes "thread_ok t g (a # rest)"
  shows "action_ok (g_server g) a" "list_all (action_ok (g_server g)) rest" "closed (a # rest)"
    "order_ok (networked (g_server g)) (looped (g_server g)) (a # rest)" "g_mutex g = Some t \<longleftrightarrow> locked (a # rest)"
  using assms by (simp_all add: thread_ok_def)

lemma session_transport_ok:
  assumes "shared_inv l g" "sid < length (sv_session (g_server g))"
  shows "libs_ok l" "wt_inv l (s_transport (sv_session (g_server g) ! sid))" "\<not> w_rtp_channel (s_transport (sv_session (g_server g) ! sid))"
  using assms by (simp_all add: shared_inv_def Let_def)

lemma act_Lock_ok: "shared_inv l g \<Longrightarrow> thread_ok t g (Lock # rest) \<Longrightarrow> goes_well l t g rest (act l mu t Lock g)"
  by (cases "g_mutex g") (auto simp: goes_well_def thread_ok_def others_keep_def shared_inv_def)

lemma act_Unlock_ok: "shared_inv l g \<Longrightarrow> thread_ok t g (Unlock # rest) \<Longrightarrow> goes_well l t g rest (act l mu t Unlock g)"
  by (auto simp: goes_well_def thread_ok_def others_keep_def shared_inv_def)

lemma new_session_fields: "s_transport (new_WebRTCSession w) = w" "\<not> s_is_ready (new_WebRTCSession w)"
  by (simp_all add: new_WebRTCSession_def)

lemma set_map_stores: "set (map_insert k v m) \<subseteq> insert (k, v) (set m)" "set (map_assign k v m) \<subseteq> insert (k, v) (set m)"
  by (induction k v m rule: map_insert.induct) auto

lemma act_New_session_ok:
  assumes inv: "shared_inv l g" and ok: "thread_ok t g (New_session stun_buffer order ip port # rest)"
  shows "goes_well l t g rest (act l mu t (New_session stun_buffer order ip port) g)"
proof -
  let ?sv = "g_server g"
  have c: "can_create l" "libs_ok l" using inv by (simp_all add: shared_inv_def Let_def)
  obtain w seed where w: "new_WebRtcTransport l stun_buffer order ip port (sv_seed ?sv) = Inr (w, seed)"
    using c(1) by (auto simp: can_create_def new_WebRtcTransport_def Let_def split_beta)
  have i: "wt_inv l w" "\<not> w_rtp_channel w" using new_WebRtcTransport_inv [OF w c(2)] ok_parts(1) [OF ok] by simp_all
  let ?sv' = "?sv\<lparr>sv_seed := seed, sv_session := sv_session ?sv @ [new_WebRTCSession w]\<rparr>"
  have n: "networked ?sv' = networked ?sv" "looped ?sv' = looped ?sv"
    by (auto simp: networked_def looped_def nth_append new_WebRTCSession_def less_Suc_eq)
  then have g: "grows ?sv ?sv'" by (simp add: grows_def)
  have "shared_inv l (g\<lparr>g_server := ?sv'\<rparr>)" using inv i
    by (auto simp: shared_inv_def Let_def n nth_append new_session_fields less_Suc_eq)
  with ok g ok_parts(3,4) [OF ok] show ?thesis by (auto simp: w n Let_def intro!: goes_wellI [OF ok])
qed

lemma act_Insert_ok:
  assumes inv: "shared_inv l g" and ok: "thread_ok t g (Insert key sid # rest)"
  shows "goes_well l t g rest (act l mu t (Insert key sid) g)"
proof -
  let ?sv = "g_server g"
  let ?sv' = "?sv\<lparr>sv_sessions := map_insert key sid (sv_sessions ?sv)\<rparr>"
  have n: "networked ?sv' = networked ?sv" "looped ?sv' = looped ?sv" by (auto simp: networked_def looped_def)
  have "snd ` set (map_insert key sid (sv_sessions ?sv)) \<subseteq> insert sid (snd ` set (sv_sessions ?sv))" using set_map_stores(1) by fastforce
  then have "shared_inv l (g\<lparr>g_server := ?sv'\<rparr>)" using inv ok_parts(1) [OF ok] by (auto simp: shared_inv_def Let_def n)
  with ok_parts(3,4) [OF ok] show ?thesis by (auto simp: n grows_def intro!: goes_wellI [OF ok])
qed

lemma received_parse:
  assumes b: "length buf = 4096" "-1 \<le> r" "r \<le> 4096"
  obtains stun p where "IsStun buf (recv_len r) = Inr stun" "Parse buf (recv_len r) = Inr p"
    "p = None \<or> recv_len r \<le> length buf \<and> recv_len r < 65536"
proof (cases "recv_len r = 2 ^ 64 - 1")
  case True
  then show ?thesis using that Parse_failed_read [of buf] b(1) by auto
next
  case False
  then have "recv_len r \<le> length buf" "recv_len r < 65536" using recv_len_cases [OF b(2,3)] b(1) by auto
  then show ?thesis using that classifiers_total(1) Parse_total by blast
qed

lemma act_Packet_ok:
  assumes inv: "shared_inv l g" and ok: "thread_ok t g (Packet buf r addr # rest)"
  shows "goes_well l t g rest (act l mu t (Packet buf r addr) g)"
proof -
  have b: "length buf = 4096" "-1 \<le> r" "r \<le> 4096" using ok_parts(1) [OF ok] by simp_all
  have rest: "\<not> locked rest" "closed rest" "order_ok (networked (g_server g)) (looped (g_server g)) rest" using ok_parts(3,4) [OF ok] by simp_all
  have none: "goes_well l t g rest (Inr (Some (g, [])))" using inv rest by (intro goes_wellI [OF ok]) simp_all
  obtain stun p where p: "IsStun buf (recv_len r) = Inr stun" "Parse buf (recv_len r) = Inr p" "p = None \<or> recv_len r \<le> length buf \<and> recv_len r < 65536"
    by (rule received_parse [OF b])
  show ?thesis
  proof (cases p)
    case (Some pkt)
    obtain vec where v: "Split (p_username pkt) (str '':'') = Some vec" "vec \<noteq> []" using Split_username by blast
    have "goes_well l t g rest (Inr (Some (g, [Lock, Find (vec ! 0) buf (recv_len r) addr])))"
      using inv rest p(3) Some by (intro goes_wellI [OF ok]) simp_all
    then have "stun \<Longrightarrow> ?thesis" using p(1,2) v Some by (simp add: Let_def)
    moreover have "\<not> stun \<Longrightarrow> ?thesis" using p(1) by (simp add: Let_def) (rule none)
    ultimately show ?thesis by blast
  qed (use none p in \<open>simp add: Let_def\<close>)
qed

lemma act_Find_ok:
  assumes inv: "shared_inv l g" and ok: "thread_ok t g (Find key buf len addr # rest)"
  shows "goes_well l t g rest (act l mu t (Find key buf len addr) g)"
proof -
  have "sid < length (sv_session (g_server g))" if "GetWebRTCSession key (g_server g) = Some sid" for sid
    using inv map_of_SomeD that by (fastforce simp: shared_inv_def Let_def GetWebRTCSession_def)
  with inv ok_parts [OF ok] show ?thesis
    by (cases "GetWebRTCSession key (g_server g)") (auto intro!: goes_wellI [OF ok])
qed

lemma connection_made:
  assumes inv: "shared_inv l g" and "GetOrCreatConnection mu addr (g_server g) = (c, sv)"
  shows "shared_inv l (g\<lparr>g_server := sv\<rparr>)" "networked sv = networked (g_server g)" "looped sv = looped (g_server g)"
    "grows (g_server g) sv" "c < length (sv_connection sv)" "sv_sessions sv = sv_sessions (g_server g)" "sv_session sv = sv_session (g_server g)"
proof -
  let ?sv = "g_server g"
  show s: "sv_sessions sv = sv_sessions ?sv" "sv_session sv = sv_session ?sv"
    using assms(2) by (auto simp: GetOrCreatConnection_def Let_def split: option.splits prod.splits)
  then show n: "networked sv = networked ?sv" "looped sv = looped ?sv" by (simp_all add: networked_def looped_def)
  have "c < length (sv_connection sv) \<and> snd ` set (sv_connections sv) \<subseteq> {..<length (sv_connection sv)} \<and>
    length (sv_connection ?sv) \<le> length (sv_connection sv) \<and>
    (\<forall>con \<in> set (sv_connection sv). c_callback con = None \<or> con \<in> set (sv_connection ?sv))"
  proof (cases "map_of (sv_connections ?sv) (toIpPort mu addr)")
    case (Some d)
    then have "sv = ?sv" "c = d" using assms(2) by (simp_all add: GetOrCreatConnection_def)
    then show ?thesis using inv map_of_SomeD [OF Some] by (fastforce simp: shared_inv_def Let_def)
  next
    case None
    obtain io_loop pool where n: "getNextLoop mu (sv_pool ?sv) = (io_loop, pool)" by fastforce
    have sv: "c = length (sv_connection ?sv)" "sv = ?sv\<lparr>sv_pool := pool,
        sv_connection := sv_connection ?sv @ [new_UdpConnection io_loop (toIpPort mu addr) (sv_listen_addr ?sv) addr],
        sv_connections := map_assign (toIpPort mu addr) c (sv_connections ?sv)\<rparr>"
      using assms(2) None n by (auto simp: GetOrCreatConnection_def Let_def)
    have "snd ` set (sv_connections sv) \<subseteq> insert c (snd ` set (sv_connections ?sv))" using set_map_stores(2) by (fastforce simp: sv(2))
    moreover have "snd ` set (sv_connections ?sv) \<subseteq> {..<length (sv_connection ?sv)}" using inv by (simp add: shared_inv_def Let_def)
    ultimately have "snd ` set (sv_connections sv) \<subseteq> {..<length (sv_connection sv)}" by (fastforce simp: sv)
    then show ?thesis by (simp add: sv new_UdpConnection_def)
  qed
  moreover from this show "c < length (sv_connection sv)" "grows ?sv sv" by (simp_all add: grows_def n s)
  ultimately show "shared_inv l (g\<lparr>g_server := sv\<rparr>)" using inv by (fastforce simp: shared_inv_def Let_def n s)
qed

lemma act_Connect_ok:
  assumes inv: "shared_inv l g" and ok: "thread_ok t g (Connect sid buf len addr # rest)"
  shows "goes_well l t g rest (act l mu t (Connect sid buf len addr) g)"
proof -
  obtain c sv where c: "GetOrCreatConnection mu addr (g_server g) = (c, sv)" by fastforce
  note made = connection_made [OF inv c]
  have "order_ok N L rest \<Longrightarrow> order_ok (insert sid N) (insert sid L) rest" for N L by (rule order_ok_mono) auto
  with made ok_parts [OF ok] show ?thesis by (auto simp: c bind_actions_def intro!: goes_wellI [OF ok])
qed

lemma upd_session_simps [simp]:
  "g_mutex (upd_session sid f g) = g_mutex g" "g_queue (upd_session sid f g) = g_queue g"
  "sv_sessions (g_server (upd_session sid f g)) = sv_sessions (g_server g)" "sv_connection (g_server (upd_session sid f g)) = sv_connection (g_server g)"
  by (simp_all add: upd_session_def)

lemma bound_transport: "wt_inv l w \<Longrightarrow> wt_inv l (SetNetworkTransport w)" "w_rtp_channel (SetNetworkTransport w) = w_rtp_channel w"
  by (auto simp: SetNetworkTransport_def wt_inv_def)

lemma act_Set_session_ok:
  assumes inv: "shared_inv l g"
  shows act_Set_transport_ok: "thread_ok t g (Set_transport sid c # rest) \<Longrightarrow> goes_well l t g rest (act l mu t (Set_transport sid c) g)"
    and act_Set_loop_ok: "thread_ok t g (Set_loop sid c # rest) \<Longrightarrow> goes_well l t g rest (act l mu t (Set_loop sid c) g)"
    and act_Set_ready_ok: "thread_ok t g (Set_ready sid # rest) \<Longrightarrow> goes_well l t g rest (act l mu t (Set_ready sid) g)"
proof -
  have ready: "s_is_ready (sv_session (g_server g) ! sid) \<Longrightarrow> sid < length (sv_session (g_server g)) \<Longrightarrow>
      s_network (sv_session (g_server g) ! sid) \<noteq> None \<and> s_loop (sv_session (g_server g) ! sid) \<noteq> None"
    using inv by (simp add: shared_inv_def Let_def networked_def looped_def)
  {
    assume ok: "thread_ok t g (Set_transport sid c # rest)"
    let ?f = "\<lambda>s. s\<lparr>s_network := Some c, s_transport := SetNetworkTransport (s_transport s)\<rparr>"
    have sid: "sid < length (sv_session (g_server g))" using ok_parts(1) [OF ok] by simp
    have u: "shared_inv l (upd_session sid ?f g)" "grows (g_server g) (g_server (upd_session sid ?f g))"
      by (rule upd_session_ok [OF inv sid]; use ready sid in \<open>simp add: bound_transport\<close>)+
    have "networked (g_server (upd_session sid ?f g)) = insert sid (networked (g_server g))" "looped (g_server (upd_session sid ?f g)) = looped (g_server g)"
      using sid by (auto simp: upd_session_def networked_def looped_def nth_list_update)
    with u ok_parts [OF ok] show "goes_well l t g rest (act l mu t (Set_transport sid c) g)" by (auto intro!: goes_wellI [OF ok])
  next
    assume ok: "thread_ok t g (Set_loop sid c # rest)"
    let ?f = "\<lambda>s. s\<lparr>s_loop := Some (c_loop (sv_connection (g_server g) ! c))\<rparr>"
    have sid: "sid < length (sv_session (g_server g))" using ok_parts(1) [OF ok] by simp
    have u: "shared_inv l (upd_session sid ?f g)" "grows (g_server g) (g_server (upd_session sid ?f g))"
      by (rule upd_session_ok [OF inv sid]; use ready sid in simp)+
    have "networked (g_server (upd_session sid ?f g)) = networked (g_server g)" "looped (g_server (upd_session sid ?f g)) = insert sid (looped (g_server g))"
      using sid by (auto simp: upd_session_def networked_def looped_def nth_list_update)
    with u ok_parts [OF ok] show "goes_well l t g rest (act l mu t (Set_loop sid c) g)" by (auto intro!: goes_wellI [OF ok])
  next
    assume ok: "thread_ok t g (Set_ready sid # rest)"
    let ?f = "\<lambda>s. s\<lparr>s_is_ready := True\<rparr>"
    have sid: "sid < length (sv_session (g_server g))" "sid \<in> networked (g_server g)" "sid \<in> looped (g_server g)"
      using ok_parts(1,4) [OF ok] by simp_all
    have u: "shared_inv l (upd_session sid ?f g)" "grows (g_server g) (g_server (upd_session sid ?f g))"
      by (rule upd_session_ok [OF inv sid(1)]; use sid in \<open>simp add: networked_def looped_def\<close>)+
    have "networked (g_server (upd_session sid ?f g)) = networked (g_server g)" "looped (g_server (upd_session sid ?f g)) = looped (g_server g)"
      using sid by (auto simp: upd_session_def networked_def looped_def nth_list_update)
    with u ok_parts [OF ok] show "goes_well l t g rest (act l mu t (Set_ready sid) g)" by (auto intro!: goes_wellI [OF ok])
  }
qed

lemma act_connection_ok:
  assumes inv: "shared_inv l g" and c: "c < length (sv_connection (g_server g))"
    and f: "\<And>con. c_callback (f con) = c_callback con \<or> (\<exists>sid \<in> networked (g_server g). c_callback (f con) = Some sid)"
    and ok: "thread_ok t g (a # rest)" and a: "\<not> locked (a # rest)" "closed rest" "\<not> locked rest"
      "order_ok (networked (g_server g)) (looped (g_server g)) rest"
  shows "goes_well l t g rest (Inr (Some (upd_connection c f g, [])))"
proof -
  let ?sv = "g_server g" and ?sv' = "g_server (upd_connection c f g)"
  have n: "networked ?sv' = networked ?sv" "looped ?sv' = looped ?sv" by (simp_all add: upd_connection_def networked_def looped_def)
  have "\<forall>con \<in> set (sv_connection ?sv'). \<forall>sid. c_callback con = Some sid \<longrightarrow> sid \<in> networked ?sv"
  proof (intro ballI allI impI)
    fix con sid assume m: "con \<in> set (sv_connection ?sv')" "c_callback con = Some sid"
    have "sv_connection ?sv ! c \<in> set (sv_connection ?sv)" using c by simp
    moreover have "con = f (sv_connection ?sv ! c) \<or> con \<in> set (sv_connection ?sv)"
      using m(1) set_update_subset_insert by (fastforce simp: upd_connection_def)
    ultimately show "sid \<in> networked ?sv" using inv f [of "sv_connection ?sv ! c"] m(2) by (auto simp: shared_inv_def Let_def)
  qed
  then have "shared_inv l (upd_connection c f g)" using inv n by (simp add: shared_inv_def Let_def) (simp add: upd_connection_def)
  then show ?thesis using a n by (intro goes_wellI [OF ok]) (simp_all add: grows_def, simp_all add: upd_connection_def)
qed

lemma runInLoop_ok:
  assumes inv: "shared_inv l g" and sid: "sid \<in> looped (g_server g)" and k: "task_ok (\<lambda>sid. sid \<in> networked (g_server g)) k"
    and ok: "thread_ok t g (a # rest)" and a: "\<not> locked (a # rest)" "closed rest" "\<not> locked rest"
      "order_ok (networked (g_server g)) (looped (g_server g)) rest"
  shows "goes_well l t g rest (runInLoop sid k g)"
proof -
  obtain n where n: "s_loop (sv_session (g_server g) ! sid) = Some n" using sid by (auto simp: looped_def)
  have "shared_inv l (g\<lparr>g_queue := (g_queue g)(n := g_queue g n @ [k])\<rparr>)" using inv k by (auto simp: shared_inv_def Let_def)
  then show ?thesis using a by (auto simp: runInLoop_def n intro!: goes_wellI [OF ok])
qed

lemma act_Scan_ok:
  assumes inv: "shared_inv l g" and ok: "thread_ok t g (Scan i all_sessions buf n # rest)"
  shows "goes_well l t g rest (act l mu t (Scan i all_sessions buf n) g)"
proof (cases "i < length (sv_sessions (g_server g))")
  case True
  let ?sid = "snd (sv_sessions (g_server g) ! i)"
  have "?sid \<in> snd ` set (sv_sessions (g_server g))" using True by simp
  then have "?sid < length (sv_session (g_server g))" using inv by (auto simp: shared_inv_def Let_def)
  then have "s_is_ready (sv_session (g_server g) ! ?sid) \<Longrightarrow> ?sid \<in> networked (g_server g) \<inter> looped (g_server g)"
    using inv by (simp add: shared_inv_def Let_def)
  with inv True ok_parts [OF ok] show ?thesis by (auto simp: Let_def intro!: goes_wellI [OF ok])
next
  case False
  let ?posts = "map (\<lambda>sid. Post_send sid buf n) all_sessions"
  have "order_ok N L (map (\<lambda>sid. Post_send sid buf n) xs @ rest) \<longleftrightarrow> set xs \<subseteq> N \<inter> L \<and> order_ok N L rest" for N L xs
    by (induction xs) auto
  moreover have "closed (map (\<lambda>sid. Post_send sid buf n) xs @ rest) \<and> \<not> locked (map (\<lambda>sid. Post_send sid buf n) xs @ rest)" for xs
    using ok_parts(3) [OF ok] by (induction xs) auto
  ultimately show ?thesis using False inv ok_parts [OF ok] by (auto simp: Let_def list_all_iff intro!: goes_wellI [OF ok])
qed

lemma act_Recv_ok:
  assumes inv: "shared_inv l g" and ok: "thread_ok t g (Recv c buf r addr # rest)"
  shows "goes_well l t g rest (act l mu t (Recv c buf r addr) g)"
proof (cases "c_callback (sv_connection (g_server g) ! c)")
  case None
  then show ?thesis using inv ok_parts [OF ok] by (auto intro!: goes_wellI [OF ok])
next
  case (Some sid)
  have "sv_connection (g_server g) ! c \<in> set (sv_connection (g_server g))" using ok_parts(1) [OF ok] by simp
  then have "sid \<in> networked (g_server g)" using inv Some by (auto simp: shared_inv_def Let_def)
  moreover have "recv_len r \<le> length buf" "recv_len r < 65536" using ok_parts(1) [OF ok] by (auto simp: recv_len_def)
  ultimately show ?thesis using Some inv ok_parts [OF ok] by (auto intro!: goes_wellI [OF ok])
qed

lemma run_task_updates:
  assumes inv: "shared_inv l g" and k: "task_ok (\<lambda>_. True) k" "task_session k < length (sv_session (g_server g))"
  shows "\<exists>w os. run_task l k (g_server g) = Inr (g_server (upd_session (task_session k) (\<lambda>s. s\<lparr>s_transport := w\<rparr>) g), os) \<and>
    wt_inv l w \<and> \<not> w_rtp_channel w"
proof -
  note t = session_transport_ok [OF inv k(2)]
  show ?thesis
  proof (cases k)
    case (Input_task sid buf len addr)
    then show ?thesis using k OnInputDataPacket_ok [OF t(1,2), of len buf addr] t(3)
      by (auto simp: wt_stepped_def on_connection_packet_def upd_session_def)
  next
    case (Send_task sid buf len)
    then show ?thesis using k EncryptAndSend_ok [OF t(1,2), of len buf] t(3) by (auto simp: send_to_session_def upd_session_def)
  qed
qed

lemma act_In_transport_ok:
  assumes inv: "shared_inv l g" and ok: "thread_ok t g (In_transport k # rest)"
  shows "goes_well l t g rest (act l mu t (In_transport k) g)"
proof -
  let ?sid = "task_session k"
  have sid: "?sid \<in> networked (g_server g)" using ok_parts(4) [OF ok] by simp
  obtain w os where w: "run_task l k (g_server g) = Inr (g_server (upd_session ?sid (\<lambda>s. s\<lparr>s_transport := w\<rparr>) g), os)" "wt_inv l w" "\<not> w_rtp_channel w"
    using run_task_updates [OF inv _ in_range(1) [OF sid]] ok_parts(1) [OF ok] by auto
  let ?g = "upd_session ?sid (\<lambda>s. s\<lparr>s_transport := w\<rparr>) g"
  have u: "shared_inv l ?g" "grows (g_server g) (g_server ?g)"
    by (rule upd_session_ok [OF inv in_range(1) [OF sid]]; use w inv in_range(1) [OF sid] in
        \<open>simp add: shared_inv_def Let_def networked_def looped_def\<close>)+
  have "networked (g_server ?g) = networked (g_server g)" "looped (g_server ?g) = looped (g_server g)"
    using in_range(1) [OF sid] by (auto simp: upd_session_def networked_def looped_def nth_list_update)
  moreover obtain c where "s_network (sv_session (g_server ?g) ! ?sid) = Some c" using grows_sets(1) [OF u(2) sid] by (auto simp: networked_def)
  then obtain ps where "deliver (g_server ?g) ?sid os = Inr ps" using deliver_ok by blast
  moreover have "shared_inv l (g\<lparr>g_server := g_server ?g, g_wire := ps\<rparr>)" for ps
    using u(1) by (simp add: shared_inv_def)
  ultimately show ?thesis using w(1) u(2) ok_parts [OF ok] by (auto intro!: goes_wellI [OF ok])
qed

lemma act_goes_well:
  assumes inv: "shared_inv l g" and ok: "thread_ok t g (a # rest)"
  shows "goes_well l t g rest (act l mu t a g)"
proof (cases a)
  case (Set_network sid c)
  have "shared_inv l (g\<lparr>g_network := (g_network g)(sid := Some c)\<rparr>)" using inv by (simp add: shared_inv_def)
  then show ?thesis using ok_parts [OF ok] Set_network by (auto intro!: goes_wellI [OF ok])
next
  case (Set_callback sid c)
  then show ?thesis using act_connection_ok [OF inv _ _ ok, of c "\<lambda>con. con\<lparr>c_callback := Some sid\<rparr>"] ok_parts [OF ok] by simp
next
  case (Start c)
  then show ?thesis using act_connection_ok [OF inv _ _ ok, of c "\<lambda>con. con\<lparr>c_started := True\<rparr>"] ok_parts [OF ok] by simp
next
  case (Post_input sid buf len addr)
  then show ?thesis using runInLoop_ok [OF inv _ _ ok, of sid "Input_task sid (take len buf) len addr"] ok_parts [OF ok] by simp
next
  case (Post_send sid buf n)
  then show ?thesis using runInLoop_ok [OF inv _ _ ok, of sid "Send_task sid buf n"] ok_parts [OF ok] by simp
next
  case (Write buf n)
  then show ?thesis using inv ok_parts [OF ok] by (auto intro!: goes_wellI [OF ok])
qed (use inv ok act_Lock_ok act_Unlock_ok act_New_session_ok act_Insert_ok act_Packet_ok act_Find_ok act_Connect_ok act_Set_transport_ok
    act_Set_loop_ok act_Set_ready_ok act_Scan_ok act_Recv_ok act_In_transport_ok in \<open>simp_all del: act.simps\<close>)

lemma arrive_ok:
  assumes "arrive t g g' todo" "shared_inv l g" "thread_ok t g []"
  shows "shared_inv l g' \<and> thread_ok t g' todo \<and> others_keep u g g'"
  using assms
proof (induction rule: arrive.induct)
  case (arrive_task g n k ks)
  then have "task_ok (\<lambda>sid. sid \<in> networked (g_server g)) k" by (auto simp: shared_inv_def Let_def dest: spec [of _ n])
  then have "task_ok (\<lambda>_. True) k" "task_session k \<in> networked (g_server g)" by (cases k; simp)+
  moreover have "shared_inv l (g\<lparr>g_queue := (g_queue g)(n := ks)\<rparr>)"
    using arrive_task(1,2) by (auto simp: shared_inv_def Let_def dest: spec [of _ n])
  ultimately show ?case using arrive_task(3) by (simp add: thread_ok_def others_keep_def)
qed (auto simp: thread_ok_def others_keep_def)

interpretation threads: rely_guarantee "act l mu" arrive "shared_inv l" thread_ok others_keep
  for l :: "('ssl, 'ss) libs" and mu :: "'pool muduo"
proof
  fix t u :: thread and a :: action and rest new todo :: "action list" and s s' :: "('ssl, 'ss, 'pool) shared"
  show "\<exists>r. act l mu t a s = Inr r" if "shared_inv l s" "thread_ok t s (a # rest)"
    using act_goes_well [OF that, of mu] by (auto simp: goes_well_def)
  show "shared_inv l s' \<and> thread_ok t s' (new @ rest)"
    if "shared_inv l s" "thread_ok t s (a # rest)" "act l mu t a s = Inr (Some (s', new))"
    using act_goes_well [OF that(1,2), of mu] that(3) by (simp add: goes_well_def)
  show "others_keep u s s'"
    if "shared_inv l s" "thread_ok t s (a # rest)" "act l mu t a s = Inr (Some (s', new))" "u \<noteq> t"
    using act_goes_well [OF that(1,2), of mu] that(3,4) by (simp add: goes_well_def)
  show "shared_inv l s' \<and> thread_ok t s' todo" if "shared_inv l s" "thread_ok t s []" "arrive t s s' todo"
    using arrive_ok [OF that(3,1,2)] by blast
  show "others_keep u s s'" if "shared_inv l s" "thread_ok t s []" "arrive t s s' todo"
    using arrive_ok [OF that(3,1,2)] by blast
  show "thread_ok u s' todo" if "thread_ok u s todo" "others_keep u s s'" using thread_ok_stable that .
qed

lemma start_ok:
  assumes "libs_ok l" "can_create l"
  shows "shared_inv l (start_state pool seed listen_addr)" "\<forall>t. thread_ok t (start_state pool seed listen_addr) []"
  using assms by (simp_all add: start_state_def shared_inv_def thread_ok_def new_server_def)

lemma reached:
  assumes "libs_ok l" "can_create l" "thread_steps (act l mu) arrive (start_state pool seed listen_addr, \<lambda>_. []) (g, ts)"
  shows "shared_inv l g" "thread_ok t g (ts t)"
  using threads.steps_keep [OF assms(3), unfolded fst_conv snd_conv, OF start_ok [OF assms(1,2)]] by simp_all

section \<open>Blocking\<close>

text \<open>Only taking a mutex that another thread has blocks.\<close>

lemma act_blocked: "act l mu t a g = Inr None \<Longrightarrow> a = Lock \<and> (\<exists>u. g_mutex g = Some u \<and> u \<noteq> t)"
  by (cases a) (auto simp: Let_def runInLoop_def rbind_def split: option.splits if_splits sum.splits prod.splits)

section \<open>Operations without interruption\<close>

definition queue_tasks :: "('ssl, 'ss, 'pool) server \<Rightarrow> task list \<Rightarrow> (nat \<Rightarrow> task list) \<Rightarrow> nat \<Rightarrow> task list" where
  "queue_tasks sv ks q = fold (\<lambda>k q. case s_loop (sv_session sv ! task_session k) of None \<Rightarrow> q | Some n \<Rightarrow> q(n := q n @ [k])) ks q"

lemma run_Post_sends:
  "set sids \<subseteq> looped (g_server g) \<Longrightarrow>
   run_alone (act l mu) t (map (\<lambda>sid. Post_send sid buf n) sids) g =
     Some (Inr (g\<lparr>g_queue := queue_tasks (g_server g) (map (\<lambda>sid. Send_task sid buf n) sids) (g_queue g)\<rparr>))"
proof (induction sids arbitrary: g)
  case (Cons sid sids)
  then obtain m where "s_loop (sv_session (g_server g) ! sid) = Some m" by (auto simp: looped_def)
  with Cons show ?case by (simp add: run_alone_Cons runInLoop_def queue_tasks_def)
qed (simp add: queue_tasks_def)

lemma run_Scan:
  "run_alone (act l mu) t [Scan i all_sessions buf n] g =
     run_alone (act l mu) t (Unlock # map (\<lambda>sid. Post_send sid buf n)
       (all_sessions @ filter (\<lambda>sid. s_is_ready (sv_session (g_server g) ! sid)) (map snd (drop i (sv_sessions (g_server g)))))) g"
proof (induction "length (sv_sessions (g_server g)) - i" arbitrary: i all_sessions)
  case 0
  then show ?case by (subst run_alone_Cons) simp
next
  case (Suc m)
  then have "i < length (sv_sessions (g_server g))" by simp
  moreover note Suc(1) [of "Suc i"]
  ultimately show ?case using Suc(2) by (subst run_alone_Cons) (simp add: Let_def Cons_nth_drop_Suc [symmetric])
qed

lemma run_bind_actions:
  assumes "sid < length (sv_session (g_server g))" "c < length (sv_connection (g_server g))" "len \<le> length buf"
  shows "run_alone (act l mu) t (bind_actions sid c buf len addr) g =
    Some (Inr (g\<lparr>g_server := WebRTCSession_SetNetworkTransport sid c (g_server g), g_network := (g_network g)(sid := Some c),
      g_queue := queue_tasks (WebRTCSession_SetNetworkTransport sid c (g_server g)) [Input_task sid (take len buf) len addr] (g_queue g)\<rparr>))"
  using assms by (simp add: bind_actions_def run_alone_Cons upd_session_def upd_connection_def runInLoop_def queue_tasks_def
      WebRTCSession_SetNetworkTransport_def Let_def)

lemma released: "g_mutex g = None \<Longrightarrow> g\<lparr>g_mutex := None\<rparr> = g" "g_mutex g = None \<Longrightarrow> g\<lparr>g_mutex := None, g_server := sv\<rparr> = g\<lparr>g_server := sv\<rparr>"
  by (cases g; simp)+

lemma run_Packet:
  assumes inv: "shared_inv l g" and free: "g_mutex g = None" and b: "length buf = 4096" "-1 \<le> r" "r \<le> 4096"
  shows "\<exists>sv ks net. HandlePacket mu buf (recv_len r) addr (g_server g) = Inr (sv, ks) \<and>
    run_alone (act l mu) t [Packet buf r addr] g =
      Some (Inr (g\<lparr>g_server := sv, g_network := net, g_queue := queue_tasks sv ks (g_queue g)\<rparr>))"
proof -
  obtain stun p where p: "IsStun buf (recv_len r) = Inr stun" "Parse buf (recv_len r) = Inr p" "p = None \<or> recv_len r \<le> length buf \<and> recv_len r < 65536"
    by (rule received_parse [OF b])
  have idle: ?thesis if "HandlePacket mu buf (recv_len r) addr (g_server g) = Inr (g_server g, [])"
      "run_alone (act l mu) t [Packet buf r addr] g = Some (Inr g)"
    using that by (intro exI [of _ "g_server g"] exI [of _ "[]"] exI [of _ "g_network g"]) (simp add: queue_tasks_def)
  show ?thesis
  proof (cases "p = None \<or> \<not> stun")
    case True
    then have "p = None" using p(1,2) by (auto simp: Parse_def)
    then show ?thesis using p by (intro idle) (simp_all add: HandlePacket_eq [OF p(1,2)] run_alone_Cons Let_def)
  next
    case False
    then obtain pkt where pkt: "p = Some pkt" and stun: "stun" by auto
    obtain vec where v: "Split (p_username pkt) (str '':'') = Some vec" "vec \<noteq> []" "vec ! 0 = ufrag_of pkt" using Split_username by blast
    show ?thesis
    proof (cases "GetWebRTCSession (ufrag_of pkt) (g_server g)")
      case None
      then show ?thesis using p pkt stun v free by (intro idle) (simp_all add: HandlePacket_eq [OF p(1,2)] run_alone_Cons Let_def)
    next
      case (Some sid)
      then have sid: "sid < length (sv_session (g_server g))"
        using inv map_of_SomeD by (fastforce simp: shared_inv_def Let_def GetWebRTCSession_def)
      obtain c sv where c: "GetOrCreatConnection mu addr (g_server g) = (c, sv)" by fastforce
      note made = connection_made [OF inv c]
      have "run_alone (act l mu) t [Packet buf r addr] g = run_alone (act l mu) t (bind_actions sid c buf (recv_len r) addr) (g\<lparr>g_server := sv\<rparr>)"
        using p(1,2) pkt stun v free Some c by (simp add: run_alone_Cons Let_def released)
      then show ?thesis using run_bind_actions [of sid "g\<lparr>g_server := sv\<rparr>" c] made sid p(3) pkt Some c
        by (auto simp: HandlePacket_eq [OF p(1,2)] bind_session_def)
    qed
  qed
qed

lemma run_Write:
  assumes inv: "shared_inv l g" and free: "g_mutex g = None" and n: "n \<le> length buf"
  shows "\<exists>ks. WriteRtpCallback buf n (g_server g) = Inr (n, ks) \<and>
    run_alone (act l mu) t [Write buf n] g = Some (Inr (g\<lparr>g_queue := queue_tasks (g_server g) ks (g_queue g)\<rparr>))"
proof -
  let ?ready = "filter (\<lambda>sid. s_is_ready (sv_session (g_server g) ! sid)) (map snd (sv_sessions (g_server g)))"
  have "set ?ready \<subseteq> looped (g_server g)"
  proof
    fix sid assume "sid \<in> set ?ready"
    then have "s_is_ready (sv_session (g_server g) ! sid)" "sid \<in> snd ` set (sv_sessions (g_server g))" by auto
    moreover from this have "sid < length (sv_session (g_server g))" using inv by (auto simp: shared_inv_def Let_def)
    ultimately show "sid \<in> looped (g_server g)" using inv by (simp add: shared_inv_def Let_def)
  qed
  then have "run_alone (act l mu) t [Scan 0 [] (take n buf) n] (g\<lparr>g_mutex := Some t\<rparr>) =
      Some (Inr (g\<lparr>g_queue := queue_tasks (g_server g) (map (\<lambda>sid. Send_task sid (take n buf) n) ?ready) (g_queue g)\<rparr>))"
    using free by (simp add: run_Scan run_alone_Cons [of _ _ Unlock] run_Post_sends released)
  then show ?thesis using free n
    by (simp add: run_alone_Cons [of _ _ "Write buf n"] run_alone_Cons [of _ _ Lock] WriteRtpCallback_def GetAllReadyWebRTCSession_def)
qed

lemma run_New_session:
  assumes inv: "shared_inv l g" and free: "g_mutex g = None"
  shows "\<exists>sid sv. CreateWebRTCSession l stun_buffer order ip port (g_server g) = Inr (sid, sv) \<and>
    run_alone (act l mu) t [New_session stun_buffer order ip port] g = Some (Inr (g\<lparr>g_server := sv\<rparr>))"
proof -
  obtain w seed where "new_WebRtcTransport l stun_buffer order ip port (sv_seed (g_server g)) = Inr (w, seed)"
    using inv by (auto simp: shared_inv_def can_create_def new_WebRtcTransport_def Let_def split_beta)
  then show ?thesis using free by (simp add: CreateWebRTCSession_def run_alone_Cons Let_def)
qed

section \<open>Several threads in one transport\<close>

lemma map_of_assign_other: "k' \<noteq> k \<Longrightarrow> map_of (map_assign k v m) k' = map_of m k'"
  by (induction k v m rule: map_assign.induct) auto

lemma bound_loop:
  assumes sid: "sid < length (sv_session sv)" and new: "map_of (sv_connections sv) (toIpPort mu addr) = None"
    and n: "getNextLoop mu (sv_pool sv) = (n, pool)"
  defines "sv' \<equiv> bind_session mu sid addr sv"
  shows "s_loop (sv_session sv' ! sid) = Some n" "sv_sessions sv' = sv_sessions sv" "sv_pool sv' = pool"
    "k \<noteq> toIpPort mu addr \<Longrightarrow> map_of (sv_connections sv') k = map_of (sv_connections sv) k"
  using assms by (simp_all add: sv'_def bind_session_def GetOrCreatConnection_def WebRTCSession_SetNetworkTransport_def Let_def
      new_UdpConnection_def map_of_assign_other)

text \<open>A packet for a session from a new address puts a thread into the transport of the session.\<close>

lemma packet_enters:
  assumes inv: "shared_inv l g" and idle: "ts Main_thread = []" "ts (Io_thread n) = []"
    and g: "g_mutex g = None" "g_queue g = (\<lambda>_. [])"
    and b: "length buf = 4096" "0 \<le> r" "r \<le> 4096" "Parse buf (nat r) = Inr (Some pkt)" "GetWebRTCSession (ufrag_of pkt) (g_server g) = Some sid"
    and new: "map_of (sv_connections (g_server g)) (toIpPort mu addr) = None" and n: "getNextLoop mu (sv_pool (g_server g)) = (n, pool)"
  shows "\<exists>g' k. thread_steps (act l mu) arrive (g, ts) (g', ts(Io_thread n := [In_transport k])) \<and> task_session k = sid \<and>
    g_mutex g' = None \<and> g_queue g' = (\<lambda>_. []) \<and> sv_sessions (g_server g') = sv_sessions (g_server g) \<and> sv_pool (g_server g') = pool \<and>
    (\<forall>x. x \<noteq> toIpPort mu addr \<longrightarrow> map_of (sv_connections (g_server g')) x = map_of (sv_connections (g_server g)) x)"
proof -
  let ?sv = "bind_session mu sid addr (g_server g)" and ?k = "Input_task sid (take (nat r) buf) (nat r) addr"
  have r: "recv_len r = nat r" "-1 \<le> r" using b(2,3) by (simp_all add: recv_len_def)
  have len: "nat r \<le> length buf" using b(1,3) by simp
  obtain stun where stun: "IsStun buf (nat r) = Inr stun" using classifiers_total(1) [OF len] by blast
  have h: "HandlePacket mu buf (recv_len r) addr (g_server g) = Inr (?sv, [?k])"
    using b(5) len by (simp add: r(1) HandlePacket_eq [OF stun b(4)])
  obtain net where run: "run_alone (act l mu) Main_thread [Packet buf r addr] g =
      Some (Inr (g\<lparr>g_server := ?sv, g_network := net, g_queue := queue_tasks ?sv [?k] (g_queue g)\<rparr>))"
    using run_Packet [OF inv g(1) b(1) r(2) b(3), of mu addr Main_thread] h by auto
  have sid: "sid < length (sv_session (g_server g))"
    using inv b(5) map_of_SomeD by (fastforce simp: shared_inv_def Let_def GetWebRTCSession_def)
  note bound = bound_loop [OF sid new n]
  let ?g1 = "g\<lparr>g_server := ?sv, g_network := net, g_queue := (\<lambda>_. [])(n := [?k])\<rparr>"
  let ?g2 = "?g1\<lparr>g_queue := (g_queue ?g1)(n := [])\<rparr>"
  have "queue_tasks ?sv [?k] (g_queue g) = (\<lambda>_. [])(n := [?k])" using bound(1) by (simp add: queue_tasks_def g(2))
  with run have "run_alone (act l mu) Main_thread [Packet buf r addr] g = Some (Inr ?g1)" by simp
  then have "thread_steps (act l mu) arrive (g, ts(Main_thread := [Packet buf r addr])) (?g1, (ts(Main_thread := [Packet buf r addr]))(Main_thread := []))"
    by (rule run_alone_steps) simp
  moreover have "thread_step (act l mu) arrive (g, ts) (g, ts(Main_thread := [Packet buf r addr]))"
    using idle(1) b(1,3) r(2) by (intro step_arrive arrive_packet)
  moreover have "(ts(Main_thread := [Packet buf r addr]))(Main_thread := []) = ts" using idle(1) by auto
  ultimately have "thread_steps (act l mu) arrive (g, ts) (?g1, ts)" by (metis converse_rtranclp_into_rtranclp)
  moreover have "arrive (Io_thread n) ?g1 ?g2 [In_transport ?k]" by (rule arrive_task) simp
  then have "thread_step (act l mu) arrive (?g1, ts) (?g2, ts(Io_thread n := [In_transport ?k]))" by (rule step_arrive [of ts, OF idle(2)])
  ultimately have "thread_steps (act l mu) arrive (g, ts) (?g2, ts(Io_thread n := [In_transport ?k]))" by (rule rtranclp.rtrancl_into_rtrancl)
  moreover have "g_queue ?g2 = (\<lambda>_. [])" by auto
  ultimately show ?thesis using g(1) bound(2-4) by (intro exI [of _ ?g2] exI [of _ ?k]) simp
qed

section \<open>One event loop\<close>

definition one_loop_inv :: "nat \<Rightarrow> ('ssl, 'ss, 'pool) shared \<Rightarrow> bool" where
  "one_loop_inv n g \<longleftrightarrow>
     (\<forall>con \<in> set (sv_connection (g_server g)). c_loop con = n) \<and> (\<forall>s \<in> set (sv_session (g_server g)). s_loop s = None \<or> s_loop s = Some n) \<and>
     (\<forall>m. m \<noteq> n \<longrightarrow> g_queue g m = [])"

fun io_action :: "action \<Rightarrow> bool" where
  "io_action (Recv c buf r addr) \<longleftrightarrow> True"
| "io_action (In_transport k) \<longleftrightarrow> True"
| "io_action _ \<longleftrightarrow> False"

definition one_loop_ok :: "nat \<Rightarrow> thread \<Rightarrow> action list \<Rightarrow> bool" where
  "one_loop_ok n t todo \<longleftrightarrow> t = Io_thread n \<or> list_all (\<lambda>a. \<not> io_action a) todo"

lemma act_Packet_new:
  "act l mu t (Packet buf r addr) g = Inr (Some (g', new)) \<Longrightarrow> g' = g \<and> (new = [] \<or> (\<exists>k. new = [Lock, Find k buf (recv_len r) addr]))"
  by (auto simp: Let_def rbind_def simp del: rbind_eq_Inr split: sum.splits option.splits if_splits)

lemma act_no_io: "act l mu t a g = Inr (Some (g', new)) \<Longrightarrow> \<not> io_action a \<Longrightarrow> list_all (\<lambda>a. \<not> io_action a) new"
proof (cases a)
  case (Packet buf r addr)
  assume "act l mu t a g = Inr (Some (g', new))"
  from act_Packet_new [OF this [unfolded Packet]] show ?thesis by auto
qed (auto simp: Let_def runInLoop_def bind_actions_def list_all_iff split: option.splits if_splits prod.splits)

lemma one_loop_upd_session:
  assumes "one_loop_inv n g" "sid < length (sv_session (g_server g))"
    and "\<And>s. s_loop s = None \<or> s_loop s = Some n \<Longrightarrow> s_loop (f s) = None \<or> s_loop (f s) = Some n"
  shows "one_loop_inv n (upd_session sid f g)"
proof -
  have "sv_session (g_server g) ! sid \<in> set (sv_session (g_server g))" using assms(2) by simp
  then show ?thesis using assms(1,3) set_update_subset_insert [of "sv_session (g_server g)" sid "f (sv_session (g_server g) ! sid)"]
    by (auto simp: one_loop_inv_def upd_session_def)
qed

lemma one_loop_upd_connection:
  assumes "one_loop_inv n g" "c < length (sv_connection (g_server g))" "\<And>con. c_loop (f con) = c_loop con"
  shows "one_loop_inv n (upd_connection c f g)"
proof -
  have "sv_connection (g_server g) ! c \<in> set (sv_connection (g_server g))" using assms(2) by simp
  then show ?thesis using assms(1,3) set_update_subset_insert [of "sv_connection (g_server g)" c "f (sv_connection (g_server g) ! c)"]
    by (auto simp: one_loop_inv_def upd_connection_def)
qed

lemma one_loop_runInLoop:
  assumes "one_loop_inv n g" "sid \<in> looped (g_server g)" "runInLoop sid k g = Inr (Some (g', new))"
  shows "one_loop_inv n g'"
proof -
  have "sv_session (g_server g) ! sid \<in> set (sv_session (g_server g))" using in_range(2) [OF assms(2)] by simp
  with assms show ?thesis by (auto simp: one_loop_inv_def runInLoop_def split: option.splits)
qed

lemma one_loop_act:
  assumes one: "one_loop_inv n g" and mu: "\<forall>p. fst (getNextLoop mu p) = n" and inv: "shared_inv l g" and ok: "thread_ok t g (a # rest)"
    and a: "act l mu t a g = Inr (Some (g', new))"
  shows "one_loop_inv n g'"
proof (cases a)
  case (Connect sid buf len addr)
  obtain c sv where c: "GetOrCreatConnection mu addr (g_server g) = (c, sv)" by fastforce
  obtain io_loop pool where p: "getNextLoop mu (sv_pool (g_server g)) = (io_loop, pool)" "io_loop = n" using mu by (metis prod.collapse)
  have "sv_session sv = sv_session (g_server g)" by (rule connection_made(7) [OF inv c])
  moreover have "\<forall>con \<in> set (sv_connection sv). c_loop con = n" using c one p
    by (auto simp: GetOrCreatConnection_def one_loop_inv_def Let_def new_UdpConnection_def split: option.splits)
  ultimately show ?thesis using one a c Connect by (auto simp: one_loop_inv_def)
next
  case (Set_loop sid c)
  have "sv_connection (g_server g) ! c \<in> set (sv_connection (g_server g))" using ok_parts(1) [OF ok] Set_loop by simp
  then have "c_loop (sv_connection (g_server g) ! c) = n" using one by (auto simp: one_loop_inv_def)
  then show ?thesis using one_loop_upd_session [OF one, of sid] ok_parts(1) [OF ok] a Set_loop by auto
next
  case (In_transport k)
  have sid: "task_session k < length (sv_session (g_server g))" using ok_parts(4) [OF ok] in_range(1) In_transport by auto
  obtain w os where "run_task l k (g_server g) = Inr (g_server (upd_session (task_session k) (\<lambda>s. s\<lparr>s_transport := w\<rparr>) g), os)"
    using run_task_updates [OF inv _ sid] ok_parts(1) [OF ok] In_transport by auto
  moreover have "one_loop_inv n (upd_session (task_session k) (\<lambda>s. s\<lparr>s_transport := w\<rparr>) g)" by (rule one_loop_upd_session [OF one sid]) simp
  ultimately show ?thesis using a In_transport by (auto simp: one_loop_inv_def)
next
  case (Post_input sid buf len addr)
  then show ?thesis using a ok_parts(4) [OF ok] by (auto intro: one_loop_runInLoop [OF one])
next
  case (Post_send sid buf m)
  then show ?thesis using a ok_parts(4) [OF ok] by (auto intro: one_loop_runInLoop [OF one])
next
  case (Packet buf r addr)
  then show ?thesis using act_Packet_new a one by blast
next
  case (New_session stun_buffer order ip port)
  then show ?thesis using a one by (auto simp: Let_def one_loop_inv_def new_WebRTCSession_def)
next
  case (Set_transport sid c)
  then show ?thesis using a one_loop_upd_session [OF one, of sid] ok_parts(1) [OF ok] by auto
next
  case (Set_ready sid)
  then show ?thesis using a one_loop_upd_session [OF one, of sid] ok_parts(1) [OF ok] by auto
next
  case (Set_callback sid c)
  then show ?thesis using a one_loop_upd_connection [OF one, of c] ok_parts(1) [OF ok] by auto
next
  case (Start c)
  then show ?thesis using a one_loop_upd_connection [OF one, of c] ok_parts(1) [OF ok] by auto
qed (use a one in \<open>auto simp: Let_def one_loop_inv_def split: option.splits if_splits\<close>)

lemma one_loop_arrive:
  assumes "arrive t g g' todo" "one_loop_inv n g"
  shows "one_loop_inv n g' \<and> one_loop_ok n t todo"
  using assms
proof (induction rule: arrive.induct)
  case (arrive_task g m k ks)
  then have "m = n" by (auto simp: one_loop_inv_def)
  with arrive_task show ?case by (auto simp: one_loop_inv_def one_loop_ok_def)
next
  case (arrive_read c g m buf r addr)
  then have "sv_connection (g_server g) ! c \<in> set (sv_connection (g_server g))" by simp
  with arrive_read show ?case by (auto simp: one_loop_inv_def one_loop_ok_def)
qed (auto simp: one_loop_ok_def)

lemma start_one_loop:
  assumes "libs_ok l" "can_create l"
  shows "shared_inv l (start_state pool seed listen_addr) \<and> one_loop_inv n (start_state pool seed listen_addr)"
    "\<forall>t. thread_ok t (start_state pool seed listen_addr) [] \<and> one_loop_ok n t []"
  using start_ok [OF assms] by (simp_all add: one_loop_inv_def one_loop_ok_def start_state_def new_server_def)

text \<open>A pool of one thread. Only that thread enters transports, on top of what the actions keep anyway.\<close>

definition one_loop_muduo :: "nat \<Rightarrow> 'pool muduo \<Rightarrow> 'pool muduo" where
  "one_loop_muduo n mu = mu\<lparr>getNextLoop := (\<lambda>p. (n, snd (getNextLoop mu p)))\<rparr>"

lemma one_loop_muduo_id: "\<forall>p. fst (getNextLoop mu p) = n \<Longrightarrow> one_loop_muduo n mu = mu"
  by (cases mu) (auto simp: one_loop_muduo_def fun_eq_iff prod_eq_iff)

interpretation one_loop: rely_guarantee "act l (one_loop_muduo n mu)" arrive "\<lambda>g. shared_inv l g \<and> one_loop_inv n g"
    "\<lambda>t g todo. thread_ok t g todo \<and> one_loop_ok n t todo" others_keep
  for l :: "('ssl, 'ss) libs" and mu :: "'pool muduo" and n :: nat
proof
  fix t u :: thread and a :: action and rest new todo :: "action list" and s s' :: "('ssl, 'ss, 'pool) shared"
  show "\<exists>r. act l (one_loop_muduo n mu) t a s = Inr r" if "shared_inv l s \<and> one_loop_inv n s" "thread_ok t s (a # rest) \<and> one_loop_ok n t (a # rest)"
    using that threads.act_safe by blast
  show "(shared_inv l s' \<and> one_loop_inv n s') \<and> (thread_ok t s' (new @ rest) \<and> one_loop_ok n t (new @ rest))"
    if "shared_inv l s \<and> one_loop_inv n s" "thread_ok t s (a # rest) \<and> one_loop_ok n t (a # rest)" "act l (one_loop_muduo n mu) t a s = Inr (Some (s', new))"
  proof -
    have mu: "\<forall>p. fst (getNextLoop (one_loop_muduo n mu) p) = n" by (simp add: one_loop_muduo_def)
    have "one_loop_inv n s'" using one_loop_act [OF _ mu _ _ that(3)] that(1,2) by blast
    moreover have "one_loop_ok n t (new @ rest)" using that(2) act_no_io [OF that(3)] by (auto simp: one_loop_ok_def)
    ultimately show ?thesis using threads.act_keeps [OF _ _ that(3)] that(1,2) by blast
  qed
  show "others_keep u s s'"
    if "shared_inv l s \<and> one_loop_inv n s" "thread_ok t s (a # rest) \<and> one_loop_ok n t (a # rest)" "act l (one_loop_muduo n mu) t a s = Inr (Some (s', new))" "u \<noteq> t"
    using threads.act_guarantees [OF _ _ that(3,4)] that(1,2) by blast
  show "(shared_inv l s' \<and> one_loop_inv n s') \<and> (thread_ok t s' todo \<and> one_loop_ok n t todo)"
    if "shared_inv l s \<and> one_loop_inv n s" "thread_ok t s [] \<and> one_loop_ok n t []" "arrive t s s' todo"
    using threads.arrive_keeps [OF _ _ that(3)] one_loop_arrive [OF that(3)] that(1,2) by blast
  show "others_keep u s s'" if "shared_inv l s \<and> one_loop_inv n s" "thread_ok t s [] \<and> one_loop_ok n t []" "arrive t s s' todo" "u \<noteq> t"
    using threads.arrive_guarantees [OF _ _ that(3,4)] that(1,2) by blast
  show "thread_ok u s' todo \<and> one_loop_ok n u todo" if "thread_ok u s todo \<and> one_loop_ok n u todo" "others_keep u s s'"
    using thread_ok_stable that by blast
qed

section \<open>Properties\<close>


definition example_start :: "(nat, unit, unit) shared" where
  "example_start = start_state () 1 (AF_INET 10000 1)"

definition example_busy :: "thread \<Rightarrow> action list" where
  "example_busy = (\<lambda>_. [])(Main_thread := [New_session (replicate StunSerializeBufferSize 0) True (str ''10.0.0.1'') 10000], Media_thread := [Write [1, 2, 3] 3])"

lemma example_busy_reached: "thread_steps (act example_libs example_muduo) arrive (example_start, \<lambda>_. []) (example_start, example_busy)"
proof -
  let ?ts = "(\<lambda>_. [])(Main_thread := [New_session (replicate StunSerializeBufferSize 0) True (str ''10.0.0.1'') 10000]) :: thread \<Rightarrow> action list"
  have "thread_step (act example_libs example_muduo) arrive (example_start, \<lambda>_. []) (example_start, ?ts)"
    by (rule step_arrive [where t = Main_thread], simp, rule arrive_request, rule length_replicate)
  moreover have "thread_step (act example_libs example_muduo) arrive (example_start, ?ts) (example_start, example_busy)"
    unfolding example_busy_def by (rule step_arrive [where t = Media_thread], simp, rule arrive_media, simp)
  ultimately show ?thesis by (rule rtranclp_trans [OF r_into_rtranclp r_into_rtranclp])
qed




text \<open>A server with one session that waits for its peer, two event loops in turn, and a connectivity check in a receive buffer.\<close>

definition two_loops :: "bool muduo" where
  "two_loops = \<lparr>toIpPort = example_ip_port, getNextLoop = (\<lambda>b. (if b then 1 else 0, \<not> b))\<rparr>"

definition example_shared :: "(nat, unit, bool) shared" where
  "example_shared = (start_state False 1 (AF_INET 10000 1))\<lparr>g_server := (new_server False 1 (AF_INET 10000 1))\<lparr>
     sv_sessions := [(str ''ab'', 0)], sv_session := [new_WebRTCSession (example_wt\<lparr>w_transport := False\<rparr>)]\<rparr>\<rparr>"

lemma example_shared_inv: "shared_inv example_libs example_shared" "one_loop_inv n example_shared"
proof -
  have "wt_inv example_libs (example_wt\<lparr>w_transport := False\<rparr>)" using example_wt_inv by (auto simp: wt_inv_def)
  moreover have "\<not> w_rtp_channel example_wt" by (simp add: example_wt_def)
  ultimately show "shared_inv example_libs example_shared" "one_loop_inv n example_shared" using example_libs_ok example_can_create
    by (simp_all add: shared_inv_def one_loop_inv_def example_shared_def start_state_def new_server_def new_WebRTCSession_def)
qed

lemma check_read: "\<exists>buf pkt. Parse buf (nat 72) = Inr (Some pkt) \<and> length buf = 4096 \<and> ufrag_of pkt = str ''ab''"
proof -
  let ?d = "enc_message example_hmac example_check (replicate 100 0) @ replicate 4024 0"
  obtain pkt where "Parse ?d 72 = Inr (Some pkt)" "p_username pkt = p_username example_check"
    using Parse_enc_message [of example_check "replicate 100 0" example_hmac, OF _ _ _ _ _ _ refl, of "replicate 4024 0"]
    unfolding with_attributes_reparsed by (simp add: example_check_ok example_check_size example_hmac_ok reparsed_def)
  moreover have "length ?d = 4096"
    using length_enc_message(2) [of example_check "replicate 100 0" example_hmac] by (simp add: example_check_ok example_check_size example_hmac_ok)
  moreover have "takeWhile (\<lambda>x. x \<noteq> 58) (p_username example_check) = str ''ab''" by (simp add: example_check_def new_StunPacket_def str_def)
  ultimately show ?thesis by (intro exI [of _ ?d] exI [of _ pkt]) (simp add: ufrag_of_def)
qed

lemma example_shared_facts:
  "g_mutex example_shared = None" "g_queue example_shared = (\<lambda>_. [])" "sv_pool (g_server example_shared) = False"
  "GetWebRTCSession (str ''ab'') (g_server example_shared) = Some 0" "sv_connections (g_server example_shared) = []"
  by (simp_all add: example_shared_def start_state_def new_server_def GetWebRTCSession_def)

text \<open>With one event loop, only the thread of the loop performs operations on the transports of sessions (input of a datagram, sending of a media
  packet), so that two such operations never overlap. The server starts in such a state. The main loop still sets the pointer to the connection of
  the peer in a transport (\<open>Set_transport\<close>), which is not covered.\<close>

theorem transport_confined:
  assumes "shared_inv l g0" and "one_loop_inv n g0" and "g_mutex g0 = None" and "\<forall>p. fst (getNextLoop mu p) = n"
    and "thread_steps (act l mu) arrive (g0, \<lambda>_. []) (g, ts)" and "In_transport k \<in> set (ts t)"
  shows "t = Io_thread n"
proof -
  have start: "shared_inv l g0 \<and> one_loop_inv n g0" "\<forall>t. thread_ok t g0 [] \<and> one_loop_ok n t []"
    using assms(1-3) by (simp_all add: thread_ok_def one_loop_ok_def)
  have "thread_steps (act l (one_loop_muduo n mu)) arrive (g0, \<lambda>_. []) (g, ts)" using assms(5) by (simp add: one_loop_muduo_id [OF assms(4)])
  from one_loop.steps_keep [OF this, unfolded fst_conv snd_conv, OF start] have "one_loop_ok n t (ts t)" by blast
  then show ?thesis using assms(6) by (auto simp: one_loop_ok_def list_all_iff)
qed

theorem transport_confined_witness:
  "\<exists>g ts t k. thread_steps (act example_libs (one_loop_muduo 0 two_loops)) arrive (example_shared, \<lambda>_. []) (g, ts) \<and>
    In_transport k \<in> set (ts t) \<and> task_session k = 0 \<and> t = Io_thread 0"
proof -
  let ?mu = "one_loop_muduo 0 two_loops"
  obtain buf pkt where buf: "Parse buf (nat 72) = Inr (Some pkt)" "length buf = 4096" "ufrag_of pkt = str ''ab''" using check_read by blast
  have mu: "\<forall>p. fst (getNextLoop ?mu p) = 0" "getNextLoop ?mu (sv_pool (g_server example_shared)) = (0, True)"
    by (simp_all add: one_loop_muduo_def two_loops_def example_shared_facts)
  obtain g k where g: "thread_steps (act example_libs ?mu) arrive (example_shared, \<lambda>_. []) (g, (\<lambda>_. [])(Io_thread 0 := [In_transport k]))" "task_session k = 0"
    using packet_enters [OF example_shared_inv(1) refl refl example_shared_facts(1,2) buf(2) _ _ buf(1) _ _ mu(2), of 0 "AF_INET 5000 1"]
      buf(3) example_shared_facts by auto
  have m: "In_transport k \<in> set (((\<lambda>_. [])(Io_thread 0 := [In_transport k])) (Io_thread 0))" by simp
  from transport_confined [OF example_shared_inv(1,2) example_shared_facts(1) mu(1) g(1) m] g m show ?thesis by blast
qed

text \<open>C15: With several event loops the transport of a session can be used by two threads at once. Two packets from different addresses that name the username
  fragment of a session, neither of which has to be authenticated, bind it to connections in different loops. The first packet's task can still be at work
  in one loop while the second packet's task is at work in the other, both on the same transport, which has no lock.\<close>

theorem transport_race:
  assumes "shared_inv l g" and "g_mutex g = None" and "g_queue g = (\<lambda>_. [])"
    and "length buf = 4096" and "0 \<le> r" and "r \<le> 4096" and "Parse buf (nat r) = Inr (Some pkt)"
    and "GetWebRTCSession (ufrag_of pkt) (g_server g) = Some sid"
    and "map_of (sv_connections (g_server g)) (toIpPort mu addr1) = None" and "map_of (sv_connections (g_server g)) (toIpPort mu addr2) = None"
    and "toIpPort mu addr1 \<noteq> toIpPort mu addr2"
    and "getNextLoop mu (sv_pool (g_server g)) = (n1, pool1)" and "getNextLoop mu pool1 = (n2, pool2)" and "n1 \<noteq> n2"
  shows "\<exists>g' ts k1 k2. thread_steps (act l mu) arrive (g, \<lambda>_. []) (g', ts) \<and>
    ts (Io_thread n1) = [In_transport k1] \<and> ts (Io_thread n2) = [In_transport k2] \<and> task_session k1 = sid \<and> task_session k2 = sid"
proof -
  obtain g1 k1 where 1: "thread_steps (act l mu) arrive (g, \<lambda>_. []) (g1, (\<lambda>_. [])(Io_thread n1 := [In_transport k1]))" "task_session k1 = sid"
      "g_mutex g1 = None" "g_queue g1 = (\<lambda>_. [])" "sv_sessions (g_server g1) = sv_sessions (g_server g)" "sv_pool (g_server g1) = pool1"
      "map_of (sv_connections (g_server g1)) (toIpPort mu addr2) = None"
    using packet_enters [OF assms(1) refl refl assms(2-9,12)] assms(10,11) by metis
  have "thread_ok t g []" for t using assms(2) by (simp add: thread_ok_def)
  with threads.steps_keep [OF 1(1)] assms(1) have inv: "shared_inv l g1" by simp
  let ?ts = "(\<lambda>_. [])(Io_thread n1 := [In_transport k1])"
  have idle: "?ts Main_thread = []" "?ts (Io_thread n2) = []" using assms(14) by simp_all
  have look: "GetWebRTCSession (ufrag_of pkt) (g_server g1) = Some sid" using assms(8) 1(5) by (simp add: GetWebRTCSession_def)
  obtain g2 k2 where 2: "thread_steps (act l mu) arrive (g1, ?ts) (g2, ?ts(Io_thread n2 := [In_transport k2]))" "task_session k2 = sid"
    using packet_enters [OF inv idle 1(3,4) assms(4-7) look 1(7)] assms(13) 1(6) by metis
  from rtranclp_trans [OF 1(1) 2(1)] 1(2) 2(2) assms(14) show ?thesis
    by (intro exI [of _ g2] exI [of _ "?ts(Io_thread n2 := [In_transport k2])"]) auto
qed

theorem transport_race_witness:
  "\<exists>g' ts k1 k2. thread_steps (act example_libs two_loops) arrive (example_shared, \<lambda>_. []) (g', ts) \<and>
    ts (Io_thread 0) = [In_transport k1] \<and> ts (Io_thread 1) = [In_transport k2] \<and> task_session k1 = 0 \<and> task_session k2 = 0"
proof -
  obtain buf pkt where buf: "Parse buf (nat 72) = Inr (Some pkt)" "length buf = 4096" "ufrag_of pkt = str ''ab''" using check_read by blast
  have mu: "getNextLoop two_loops (sv_pool (g_server example_shared)) = (0, True)" "getNextLoop two_loops True = (1, False)"
    by (simp_all add: two_loops_def example_shared_facts)
  have "decimal_digits (unat (5000 :: uint16)) \<noteq> decimal_digits (unat (6000 :: uint16))" by (simp add: decimal_digits.simps)
  then have k: "toIpPort two_loops (AF_INET 5000 1) \<noteq> toIpPort two_loops (AF_INET 6000 1)" by (simp add: two_loops_def)
  show ?thesis
    by (rule transport_race [OF example_shared_inv(1) example_shared_facts(1,2) buf(2) _ _ buf(1) _ _ _ k mu])
      (simp_all add: buf(3) example_shared_facts)
qed

end
