(* ===== verification/SharedBuffer.thy ===== *)
theory SharedBuffer
  imports IceServer Interleaving
begin

text \<open>
  The static buffer of rtc/ice_server.cc. \<open>IceServer::ProcessStunPacket\<close> serializes every response into it and the listener sends from it, in
  the thread of the event loop of the session. The ICE agents of all sessions share it, without a lock. Here the two steps of answering a request
  are actions of threads: one thread alone sends its response; with two threads a peer can get the response for another.
\<close>

record stun_statics =
  st_buffer :: bytes
  st_wire :: "(TransportTuple \<times> bytes) list"

datatype response_action =
    Serialize_response stun_packet TransportTuple
  | Send_stun_packet nat TransportTuple

text \<open>The serialized packet keeps a pointer to the buffer and its own size; sending reads the bytes from there.\<close>

fun respond :: "hmac_lib \<Rightarrow> (nat, response_action, stun_statics) actor" where
  "respond lib t (Serialize_response response tuple) s =
     rbind (Serialize lib response (st_buffer s)) (\<lambda>response.
     case p_data response of
       None \<Rightarrow> Fault NullDeref
     | Some buffer \<Rightarrow> Ok (Some (s\<lparr>st_buffer := buffer\<rparr>, [Send_stun_packet (p_size response) tuple])))"
| "respond lib t (Send_stun_packet n tuple) s =
     rbind (rd_range (st_buffer s) 0 n) (\<lambda>bs. Ok (Some (s\<lparr>st_wire := st_wire s @ [(tuple, bs)]\<rparr>, [])))"

abbreviation no_arrival :: "(nat, response_action, stun_statics) arrival" where
  "no_arrival \<equiv> \<lambda>t s s' todo. False"

section \<open>Serializing\<close>

definition after_response :: "hmac_lib \<Rightarrow> stun_packet \<Rightarrow> bytes \<Rightarrow> bytes" where
  "after_response lib response buffer = enc_message lib response buffer @ drop (serialized_size response) buffer"

lemma respond_serialize:
  assumes "serializable response" "serialized_size response \<le> length (st_buffer s)" "hmac_ok lib"
  shows "respond lib t (Serialize_response response tuple) s =
    Inr (Some (s\<lparr>st_buffer := after_response lib response (st_buffer s)\<rparr>, [Send_stun_packet (serialized_size response) tuple]))"
  using Serialize_eq [OF assms] by (simp add: after_response_def)

lemma after_response:
  assumes "serializable response" "serialized_size response \<le> length buffer" "hmac_ok lib"
  shows "length (after_response lib response buffer) = length buffer"
    "take (serialized_size response) (after_response lib response buffer) = enc_message lib response buffer"
  using length_enc_message(2) [OF assms] assms(2) by (simp_all add: after_response_def)

section \<open>Property\<close>

text \<open>C16: The buffer of serialized responses is shared by the sessions. A thread that is not interrupted sends its response to the peer it answers. Two threads
  that answer requests of two sessions at the same time can both send the later response, when the responses have the same size: the peer of the first gets
  a message with the transaction id of the other peer's request.\<close>

theorem responses_mixed_up:
  assumes "hmac_ok lib" and "serializable r1" and "serializable r2"
    and "serialized_size r1 \<le> length (st_buffer s)" and "serialized_size r2 = serialized_size r1"
  shows "run_alone (respond lib) t [Serialize_response r1 peer1] s =
      Some (Inr \<lparr>st_buffer = after_response lib r1 (st_buffer s), st_wire = st_wire s @ [(peer1, enc_message lib r1 (st_buffer s))]\<rparr>) \<and>
    (\<exists>s' message. thread_steps (respond lib) no_arrival
        (s, (\<lambda>_. [])(0 := [Serialize_response r1 peer1], 1 := [Serialize_response r2 peer2])) (s', \<lambda>_. []) \<and>
      st_wire s' = st_wire s @ [(peer1, message), (peer2, message)] \<and> take 12 (drop 8 message) = p_transactionId r2)"
proof
  note one = respond_serialize [OF assms(2,4,1)] and len1 = after_response [OF assms(2,4,1)]
  show "run_alone (respond lib) t [Serialize_response r1 peer1] s =
      Some (Inr \<lparr>st_buffer = after_response lib r1 (st_buffer s), st_wire = st_wire s @ [(peer1, enc_message lib r1 (st_buffer s))]\<rparr>)"
    using assms(4) len1 by (simp add: run_alone_Cons [of _ _ "Serialize_response r1 peer1"] one run_alone_Cons [of _ _ "Send_stun_packet n p" for n p]
      del: respond.simps(1))
  let ?s1 = "s\<lparr>st_buffer := after_response lib r1 (st_buffer s)\<rparr>"
  have room: "serialized_size r2 \<le> length (st_buffer ?s1)" using assms(4,5) len1(1) by simp
  note two = respond_serialize [OF assms(3) room assms(1)] and len2 = after_response [OF assms(3) room assms(1)]
  let ?m = "enc_message lib r2 (st_buffer ?s1)"
  let ?s2 = "?s1\<lparr>st_buffer := after_response lib r2 (st_buffer ?s1)\<rparr>"
  let ?s3 = "?s2\<lparr>st_wire := st_wire s @ [(peer1, ?m)]\<rparr>" and ?s4 = "?s2\<lparr>st_wire := st_wire s @ [(peer1, ?m)], st_wire := (st_wire s @ [(peer1, ?m)]) @ [(peer2, ?m)]\<rparr>"
  let ?send = "\<lambda>peer. [Send_stun_packet (serialized_size r1) peer]"
  define ts where "ts = (\<lambda>a b. (\<lambda>_. [] :: response_action list)((0 :: nat) := a, 1 := b))"
  have upd: "(ts a b)(0 := c) = ts c b" "(ts a b)(1 := c) = ts a c" "ts [] [] = (\<lambda>_. [])" for a b c by (auto simp: ts_def)
  have send: "respond lib t (Send_stun_packet (serialized_size r1) peer) s' = Inr (Some (s'\<lparr>st_wire := w @ [(peer, ?m)]\<rparr>, []))"
    if "st_buffer s' = st_buffer ?s2" "st_wire s' = w" for t peer s' w
    using that len2 room assms(5) by simp
  have "thread_step (respond lib) no_arrival (s, ts [Serialize_response r1 peer1] [Serialize_response r2 peer2]) (?s1, ts (?send peer1) [Serialize_response r2 peer2])"
    by (rule step_actI [where t = 0 and act = "respond lib", OF _ one]) (simp_all add: upd ts_def fun_eq_iff)
  moreover have "thread_step (respond lib) no_arrival (?s1, ts (?send peer1) [Serialize_response r2 peer2]) (?s2, ts (?send peer1) (?send peer2))"
    by (rule step_actI [where t = 1 and act = "respond lib", OF _ two]) (simp_all add: upd assms(5) ts_def fun_eq_iff)
  moreover have "thread_step (respond lib) no_arrival (?s2, ts (?send peer1) (?send peer2)) (?s3, ts [] (?send peer2))"
    by (rule step_actI [where t = 0 and act = "respond lib", OF _ send]) (simp_all add: upd ts_def fun_eq_iff)
  moreover have "thread_step (respond lib) no_arrival (?s3, ts [] (?send peer2)) (?s4, ts [] [])"
    by (rule step_actI [where t = 1 and act = "respond lib", OF _ send]) (simp_all add: upd ts_def fun_eq_iff)
  ultimately have "thread_steps (respond lib) no_arrival (s, ts [Serialize_response r1 peer1] [Serialize_response r2 peer2]) (?s4, ts [] [])"
    by (meson converse_rtranclp_into_rtranclp rtranclp.rtrancl_refl)
  moreover have "take 12 (drop 8 ?m) = p_transactionId r2"
    using assms(3) by (simp add: enc_message_def enc_body_def enc_header_def magicCookie_def serializable_def Let_def)
  ultimately show "\<exists>s' message. thread_steps (respond lib) no_arrival
        (s, (\<lambda>_. [])(0 := [Serialize_response r1 peer1], 1 := [Serialize_response r2 peer2])) (s', \<lambda>_. []) \<and>
      st_wire s' = st_wire s @ [(peer1, message), (peer2, message)] \<and> take 12 (drop 8 message) = p_transactionId r2"
    by (intro exI [of _ ?s4] exI [of _ ?m]) (simp add: ts_def fun_upd_idem)
qed

theorem responses_mixed_up_witness:
  "\<exists>s' message. thread_steps (respond example_hmac) no_arrival
      (\<lparr>st_buffer = replicate 100 0, st_wire = []\<rparr>, (\<lambda>_. [])(0 := [Serialize_response (error_response example_check 400) (AF_INET 5000 1)],
        1 := [Serialize_response (error_response (example_check\<lparr>p_transactionId := replicate 12 7\<rparr>) 401) (AF_INET 6000 1)])) (s', \<lambda>_. []) \<and>
    st_wire s' = [(AF_INET 5000 1, message), (AF_INET 6000 1, message)] \<and> take 12 (drop 8 message) = replicate 12 7"
proof -
  let ?r1 = "error_response example_check 400" and ?r2 = "error_response (example_check\<lparr>p_transactionId := replicate 12 7\<rparr>) 401"
  let ?s = "\<lparr>st_buffer = replicate 100 0, st_wire = []\<rparr>"
  have tid: "length (p_transactionId example_check) = 12" using example_check_ok by (simp add: serializable_def)
  have s1: "serializable ?r1" "serialized_size ?r1 \<le> length (st_buffer ?s)" using response_serializable(1,2) [OF tid, of 400] by simp_all
  have s2: "serializable ?r2" by (rule response_serializable) simp
  have "serialized_size ?r2 = serialized_size ?r1" by (simp add: error_response_def new_StunPacket_def serialized_size_def usernamePaddedLen_def
      addXorMappedAddress_def addErrorCode_def addMessageIntegrity_def)
  from responses_mixed_up [OF example_hmac_ok s1(1) s2 s1(2) this, of 0 "AF_INET 5000 1" "AF_INET 6000 1"]
  show ?thesis by (simp add: error_response_def new_StunPacket_def)
qed

end
