(* ===== verification/Utilities.thy ===== *)
theory Utilities
  imports Dumps TimeUtils Ntp
begin

text \<open>
  Small operations beside the path of the packets: the text of an RTP packet (rtp/rtp_packet.cc), the macro that logs the errors of OpenSSL
  (rtc/dtls_transport.cc), the count of set bits (common/utils.h), and the calls of libsrtp that remove a stream and shut the library down
  (rtc/srtp_session.h, rtc/srtp_session.cc).
\<close>

section \<open>The text of an RTP packet\<close>

text \<open>A stream prints a \<open>uint8_t\<close> as the character with that code: the payload type is converted with \<open>std::to_string\<close>, the padding size is not.\<close>

definition stream_bool :: "bool \<Rightarrow> bytes" where
  "stream_bool v = (if v then str ''1'' else str ''0'')"

definition stream_uint8 :: "byte \<Rightarrow> bytes" where
  "stream_uint8 v = [v]"

definition RtpPacket_ToString :: "rtp_packet \<Rightarrow> bytes" where
  "RtpPacket_ToString p =
     str ''{payload_type='' @ decimal_digits (unat (r_payload_type p)) @
     str ''marker='' @ stream_bool (r_marker p) @ str '', sequence_number='' @ decimal_digits (unat (r_sequence_number p)) @
     str '', padding_size='' @ stream_uint8 (r_padding_size p) @ str '', timestamp='' @ decimal_digits (unat (r_timestamp p)) @
     str '', ssrc='' @ decimal_digits (unat (r_ssrc p)) @ str '', payload_offset='' @ decimal_digits (r_payload_offset p) @
     str '', payload_size='' @ decimal_digits (r_payload_size p) @ str '', total_size='' @ decimal_digits (rtp_size p) @ str ''}''"

text \<open>Numbers are followed by another character than a digit.\<close>

lemma decimal_split:
  assumes "decimal_digits a @ c # xs = decimal_digits b @ d # ys" "c \<notin> {48..57}" "d \<notin> {48..57}"
  shows "a = b" "c # xs = d # ys"
proof -
  have t: "takeWhile (\<lambda>x. x \<in> {48..57}) (decimal_digits n @ e # zs) = decimal_digits n" "dropWhile (\<lambda>x. x \<in> {48..57}) (decimal_digits n @ e # zs) = e # zs"
    if "e \<notin> {48..57}" for n e zs
    using decimal_digits_range [of n] that by (auto simp: subset_iff takeWhile_append dropWhile_append)
  from t [OF assms(2), of a xs] t [OF assms(3), of b ys] assms(1) have "decimal_digits a = decimal_digits b" "c # xs = d # ys" by simp_all
  then show "a = b" "c # xs = d # ys" using decimal_value_digits by metis+
qed

lemma decimal_split_iff:
  "c \<notin> {48..57} \<Longrightarrow> decimal_digits a @ c # xs = decimal_digits b @ c # ys \<longleftrightarrow> a = b \<and> xs = ys"
  using decimal_split by blast

text \<open>The text determines the fields of the packet, although the missing separator after the payload type makes it hard to read.\<close>

lemma RtpPacket_ToString_inj:
  "RtpPacket_ToString p = RtpPacket_ToString q \<longleftrightarrow>
     r_payload_type p = r_payload_type q \<and> r_marker p = r_marker q \<and> r_sequence_number p = r_sequence_number q \<and>
     r_padding_size p = r_padding_size q \<and> r_timestamp p = r_timestamp q \<and> r_ssrc p = r_ssrc q \<and>
     r_payload_offset p = r_payload_offset q \<and> r_payload_size p = r_payload_size q"
proof -
  have "rtp_size p = rtp_size q" if "r_payload_offset p = r_payload_offset q" "r_payload_size p = r_payload_size q" "r_padding_size p = r_padding_size q"
    using that by (simp add: rtp_size_def)
  then show ?thesis
    by (auto simp: RtpPacket_ToString_def stream_bool_def stream_uint8_def str_def decimal_split_iff word_unat_eq_iff split: if_splits)
qed

section \<open>Errors of OpenSSL\<close>

text \<open>The queue of errors of OpenSSL; \<open>ERR_get_error\<close> takes the oldest one, or is 0. \<open>ERR_error_string\<close> is a parameter.\<close>

fun openssl_error_loop ::
  "(nat \<Rightarrow> bytes) \<Rightarrow> log_build \<Rightarrow> Configuration \<Rightarrow> log_site \<Rightarrow> bytes \<Rightarrow> nat list \<Rightarrow> log_state \<Rightarrow> (nat list \<times> log_state) res" where
  "openssl_error_loop error_string b cfg site desc [] st = Ok ([], st)"
| "openssl_error_loop error_string b cfg site desc (err # errs) st =
     (if err = 0 then Ok (errs, st)
      else rbind (macro_variant b MS_ERROR MS_ERROR_STD b cfg site
          (str ''OpenSSL error [desc:'' @ [39] @ desc @ [39] @ str '', error:'' @ [39] @ error_string err @ [39] @ str '']'') st)
        (\<lambda>st. openssl_error_loop error_string b cfg site desc errs st))"

definition LOG_OPENSSL_ERROR ::
  "(nat \<Rightarrow> bytes) \<Rightarrow> log_build \<Rightarrow> Configuration \<Rightarrow> log_site \<Rightarrow> bytes \<Rightarrow> nat list \<Rightarrow> log_state \<Rightarrow> (nat list \<times> log_state) res" where
  "LOG_OPENSSL_ERROR error_string b cfg site desc errs st =
     (if (case errs of [] \<Rightarrow> 0 | err # _ \<Rightarrow> err) = 0 then
        rbind (macro_variant b MS_ERROR MS_ERROR_STD b cfg site (str ''OpenSSL error [desc:'' @ [39] @ desc @ [39] @ str '']'') st) (\<lambda>st. Ok (errs, st))
      else rbind (openssl_error_loop error_string b cfg site desc errs st) (\<lambda>(errs, st). Ok ([], st)))"

text \<open>The descriptions of the messages for a queue.\<close>

definition openssl_messages :: "(nat \<Rightarrow> bytes) \<Rightarrow> bytes \<Rightarrow> nat list \<Rightarrow> bytes list" where
  "openssl_messages error_string desc errs =
     (if errs = [] then [str ''OpenSSL error [desc:'' @ [39] @ desc @ [39] @ str '']'']
      else map (\<lambda>err. str ''OpenSSL error [desc:'' @ [39] @ desc @ [39] @ str '', error:'' @ [39] @ error_string err @ [39] @ str '']'') errs)"

abbreviation logs_error :: "log_build \<Rightarrow> Configuration \<Rightarrow> log_site \<Rightarrow> log_state \<Rightarrow> bytes \<Rightarrow> log_state \<Rightarrow> bool" where
  "logs_error b cfg site \<equiv> (\<lambda>st desc st'. logged b cfg Error site desc st st')"

lemma error_logged:
  "logger_ok st \<Longrightarrow> \<exists>st'. macro_variant b MS_ERROR MS_ERROR_STD b cfg site desc st = Inr st' \<and> logger_ok st' \<and> logged b cfg Error site desc st st'"
  using log_macro_logged [of st b cfg Error site desc] by simp

lemma openssl_error_loop_logs:
  "logger_ok st \<Longrightarrow> 0 \<notin> set errs \<Longrightarrow>
   \<exists>st'. openssl_error_loop error_string b cfg site desc errs st = Inr ([], st') \<and> logger_ok st' \<and>
     trace (logs_error b cfg site) st
       (map (\<lambda>err. str ''OpenSSL error [desc:'' @ [39] @ desc @ [39] @ str '', error:'' @ [39] @ error_string err @ [39] @ str '']'') errs) st'"
proof (induction errs arbitrary: st)
  case (Cons err errs)
  let ?d = "str ''OpenSSL error [desc:'' @ [39] @ desc @ [39] @ str '', error:'' @ [39] @ error_string err @ [39] @ str '']''"
  obtain st1 where 1: "macro_variant b MS_ERROR MS_ERROR_STD b cfg site ?d st = Inr st1" "logger_ok st1" "logged b cfg Error site ?d st st1"
    using error_logged [OF Cons.prems(1)] by blast
  with Cons show ?case by fastforce
qed simp

text \<open>Every error of the queue is logged once, oldest first, or one message without an error if there is none; the queue is empty afterwards.\<close>

lemma openssl_errors_logged:
  assumes "logger_ok st" "0 \<notin> set errs"
  shows "\<exists>st'. LOG_OPENSSL_ERROR error_string b cfg site desc errs st = Inr ([], st') \<and> logger_ok st' \<and>
    trace (logs_error b cfg site) st (openssl_messages error_string desc errs) st'"
proof (cases errs)
  case Nil
  then show ?thesis using error_logged [OF assms(1)] by (fastforce simp: LOG_OPENSSL_ERROR_def openssl_messages_def)
next
  case (Cons err rest)
  then have "LOG_OPENSSL_ERROR error_string b cfg site desc errs st =
      rbind (openssl_error_loop error_string b cfg site desc errs st) (\<lambda>(errs, st). Ok ([], st))"
    using assms(2) by (auto simp: LOG_OPENSSL_ERROR_def)
  then show ?thesis using openssl_error_loop_logs [OF assms] Cons by (fastforce simp: openssl_messages_def)
qed

section \<open>Set bits\<close>

text \<open>\<open>__builtin_popcount\<close> of a 16-bit value.\<close>

definition CountSetBits :: "uint16 \<Rightarrow> nat" where
  "CountSetBits v = length (filter (bit v) [0..<16])"

lemma CountSetBits_card: "CountSetBits v = card {n. bit v n}"
proof -
  have "{n. bit v n} = set (filter (bit v) [0..<16])" using bit_imp_le_length [of v] by auto
  then have "card {n. bit v n} = length (filter (bit v) [0..<16])" using distinct_card [of "filter (bit v) [0..<16]"] by simp
  then show ?thesis by (simp add: CountSetBits_def)
qed

lemma CountSetBits_bounds: "CountSetBits v \<le> 16" "CountSetBits v = 0 \<longleftrightarrow> v = 0"
proof -
  show "CountSetBits v \<le> 16" using length_filter_le [of "bit v" "[0..<16]"] by (simp add: CountSetBits_def)
  have "finite {n. bit v n}" by (rule finite_subset [of _ "{..<16}"]) (use bit_imp_le_length [of v] in auto)
  then show "CountSetBits v = 0 \<longleftrightarrow> v = 0" using bit_imp_le_length [of v] by (fastforce simp: CountSetBits_card bit_eq_iff [of v])
qed

section \<open>libsrtp\<close>

text \<open>\<open>htonl\<close>: the value whose bytes in memory are the big-endian bytes of the argument.\<close>

definition htonl :: "bool \<Rightarrow> uint32 \<Rightarrow> uint32" where
  "htonl little v = (if little then of_le (be_bytes 4 v) else v)"

definition native_bytes :: "bool \<Rightarrow> uint32 \<Rightarrow> bytes" where
  "native_bytes little v = (if little then le_bytes 4 v else be_bytes 4 v)"

lemma htonl_network_order: "native_bytes little (htonl little v) = be_bytes 4 v"
  using le_bytes_of_le [of "be_bytes 4 v", where 'a = 32] by (simp add: native_bytes_def htonl_def)

text \<open>The status of the call is ignored. A session that was not made passes a null pointer.\<close>

definition RemoveStream :: "('ss option \<Rightarrow> uint32 \<Rightarrow> nat \<times> 'ss option) \<Rightarrow> bool \<Rightarrow> uint32 \<Rightarrow> 'ss srtp_session \<Rightarrow> 'ss srtp_session" where
  "RemoveStream srtp_remove_stream little ssrc s = s\<lparr>ss_session := snd (srtp_remove_stream (ss_session s) (htonl little ssrc))\<rparr>"

definition DepLibSRTP_ClassDestroy :: "('l \<Rightarrow> nat \<times> 'l) \<Rightarrow> 'l \<Rightarrow> 'l" where
  "DepLibSRTP_ClassDestroy srtp_shutdown lib = snd (srtp_shutdown lib)"

end
