(* ===== verification/Spec2Isabelle.thy ===== *)
theory Spec2Isabelle
  imports H264 SignedIO MediaFlow Dumps Remux Startup Ntp Sockets Threads SharedBuffer Utilities
begin

text \<open>
  \<^bold>\<open>Verification of easy_webrtc_server.\<close>

  \<^bold>\<open>The program.\<close> A WebRTC server in C++ on the muduo event loop library. A browser asks for a session over HTTP
  and gets a session description with a username fragment, a password and a certificate fingerprint. Its STUN
  packets arrive on one UDP socket (net/udp_server.cc), are routed to the session by the username
  (session/webrtc_session.cc) and make a connected socket for the peer (net/udp_connection.cc). The transport of the
  session (rtc/webrtc_transport.cc) demultiplexes what arrives there: STUN goes to the ICE agent
  (rtc/ice_server.cc, rtc/stun_packet.cc), DTLS to the DTLS transport (rtc/dtls_transport.cc), which yields the keys of
  the SRTP session (rtc/srtp_session.cc), and RTP to a channel, which in the publishing example parses
  RTP packets (rtp/rtp_packet.cc) and H.264 payloads (rtp/video_rtp_depacketizer_h264.cc). Media to send are protected and
  written to the connection; in the sending example they come from a file that a thread remuxes with FFmpeg
  (example/rtp_src_example.cc). common/ holds byte access, CRC-32, random strings, times, settings and logging.

  \<^bold>\<open>How it is modelled.\<close> Operations are functions. A call that can fail in C++ returns \<open>'a res\<close>: a value
  or a fault (an access outside a buffer, a null pointer dereferenced, a double free, a failed assertion, an exception, a
  loop that does not end, an undefined shift, a library call outside its contract). Buffers are lists of bytes with bounds-checked access; integers keep their width as
  words. Objects are records that operations take and return. Calls of a listener are events in the result, handled by the owner
  after the operation that made them, in their order. OpenSSL, libsrtp, the HMAC function, FFmpeg, muduo and the file system are records
  of functions, with their documented behaviour as named hypotheses (\<open>hmac_ok\<close>, \<open>ssl_ok\<close>, \<open>digest_ok\<close>, \<open>completes\<close>, \<open>srtp_ok\<close>, \<open>srtp_setup_ok\<close>, \<open>plays\<close>); every
  hypothesis is shown to hold for concrete functions. Loops that need not end are
  partial functions (the attribute loop of the STUN parser, \<open>Split\<close>, the loop of the remuxing thread); their results are proved, not assumed. There is no fuel.

  \<^bold>\<open>Theories.\<close>
  \<^item> \<open>Prelude\<close>: words, faults, sequencing, checked buffers. \<open>Machine\<close>: runs of operations, and the interfaces
    \<open>safe_machine\<close> (no fault, an invariant), \<open>latched_machine\<close> (an event at most once), \<open>simulated_machine\<close> (events follow
    an abstract protocol), interpreted by the components below.
  \<^item> \<open>ByteIO\<close> (common/utils.h \<open>Byte\<close>, rtp/byte_io.h): getters, setters, padding, readers and writers; the interface \<open>byte_codec\<close>; the
    specialised readers and writers equal the generic loops. \<open>SignedIO\<close>: the templates for signed types; what they read is the
    two's complement value, except where the sign extension shifts too far.
  \<^item> \<open>CryptoUtils\<close> (common/utils.h, common/crypto.cc): the table-driven CRC-32 equals the bitwise one; random strings; HMAC.
  \<^item> \<open>StunPacket\<close> (rtc/stun_packet.h, rtc/stun_packet.cc): the definitions. \<open>StunParse\<close>: the parser is total and safe below 64 KiB, what
    it accepts, and authentication. \<open>StunSerialize\<close>: the serializer refines a reference encoding; parsing inverts it;
    authentication of what was serialized; the packet on which the parser's loop does not end.
  \<^item> \<open>IceServer\<close> (rtc/ice_server.cc): the decision and effect of every request, the responses as the peer reads them, and that an
    address is selected at most once.
  \<^item> \<open>SrtpSession\<close> (rtc/srtp_session.cc): bounds of the encryption buffer, and the statuses whose report throws.
  \<^item> \<open>DtlsTransport\<close> (rtc/dtls_transport.cc): the definitions. \<open>DtlsMachine\<close>: every sequence of operations keeps the invariant, does
    not fault, and tells the listener a trace of an abstract protocol. \<open>DtlsSecurity\<close>: fingerprints, that the two ends extract
    the same keys, timers, and the release of resources.
  \<^item> \<open>RtpPacket\<close> (rtp/rtp_packet.cc, rtp/rtp_util.cc) and \<open>H264\<close> (rtp/video_rtp_depacketizer_h264.cc): accepted layouts, round trips,
    fragments that reassemble, and that the channel of the publishing example never faults.
  \<^item> \<open>WebRtcTransport\<close> (rtc/webrtc_transport.cc): the definitions. \<open>TransportProofs\<close>: the invariant across ICE, DTLS and SRTP; safety of
    every run; demultiplexing; what is sent when; a peer with the credentials brings the transport up. \<open>Sdp\<close>: a reader of
    session descriptions, which gets back what the transport printed, and when the descriptions fit their arrays.
  \<^item> \<open>Session\<close> (session/, net/, the callbacks of example/): the registry, the connection table, the listening socket, tasks of the
    event loops, the HTTP handlers; the interface \<open>keyed_store\<close> of the two maps. \<open>Server\<close>: the whole server as a machine that never
    faults; routing; that an unauthenticated packet takes over a session; that early RTP ends a publishing server.
  \<^item> \<open>EndToEnd\<close>: from the HTTP request through the description and the connectivity check to a transport that is connecting.
    \<open>MediaFlow\<close>: from the last datagram of the handshake to protected media on the connection of the peer.
  \<^item> \<open>Remux\<close> (example/rtp_src_example.cc \<open>H2642Rtp\<close>): the thread plays the video stream of the file over and over and
    hands every packet to the ready sessions; how it ends. \<open>Startup\<close> (\<open>main\<close> of both examples, common/crypto.cc): the
    command line and the class start-up yield the server of the previous theories, on the port its descriptions name.
  \<^item> \<open>Settings\<close> (common/settings.cc, common/file.cc, common/log_level.h): which command lines are accepted and what they set.
    \<open>TimeUtils\<close> (common/utils.h \<open>Time\<close>, \<open>IP\<close>): timestamps that wrap around, send times, addresses. \<open>Ntp\<close>: the conversions to and
    from NTP time, with the rounding of the type \<open>double\<close>.
  \<^item> \<open>Sockets\<close> (net/udp_server.cc, net/udp_connection.cc): the sockets under the server, with the kernel as a parameter; that the
    sockets match the connection table of \<open>Session\<close>.
  \<^item> \<open>Interleaving\<close>: threads that share a state, step by step, and the interface \<open>rely_guarantee\<close> (no thread faults in any interleaving).
    \<open>Threads\<close> (session/webrtc_session.cc, example/rtp_src_example.cc): the main loop, the remuxing thread and the event loops, with the operations of
    \<open>Session\<close> cut into their accesses to shared objects under the mutex and the atomic flag. No interleaving faults or
    deadlocks; without interruption the accesses are the operations of \<open>Session\<close>; with one event loop no two operations on a transport
    overlap, with several they can. \<open>SharedBuffer\<close> (rtc/ice_server.cc): the static buffer of the ICE agents, through which a peer can get
    the response for another.
  \<^item> \<open>Logger\<close> (common/logger.h, common/logger.cc, common/throw_errors.h): every logging and throwing macro; which
    calls log what where, and that dumps of data stay in the buffer and can be read back; the interface \<open>dump_sink\<close>. \<open>Dumps\<close>: what
    \<open>StunPacket::Dump\<close>, \<open>DtlsTransport::Dump\<close>, \<open>PrintConfiguration\<close> and the event handler of libsrtp print.
    \<open>Utilities\<close>: the text of an RTP packet, the macro that logs the errors of OpenSSL, set bits, and calls of libsrtp.

  \<^bold>\<open>Bounds.\<close> Statements about datagrams assume less than 65536 bytes where the code is only right below that; the receive buffers of
  the program have 4096 bytes, which the statements about the server use. Reads of the listening socket may fail there;
  a failed read of a connection is excluded, since the length it passes on is not meaningful.

  \<^bold>\<open>Not modelled.\<close> In the theories other than \<open>Threads\<close> and \<open>SharedBuffer\<close> each operation of an event loop is one step. \<open>Threads\<close> interleaves
  the accesses of the session operations; an operation on a transport is one action there, accesses are sequentially consistent, and torn
  reads of a variable that two threads use are not modelled. The publishing example, whose media come in on the event loops, has no
  threads of its own. The event loops, the thread pool and the HTTP server (muduo); the kernel is a parameter (\<open>Sockets\<close>). Log statements are left out
  of the operations of the other theories: they write to a channel with an empty \<open>SendLog\<close> and do not change what is modelled there. The
  copy of the crypto utilities in common/crypto.h; functions of common/ip.cc with empty bodies other than \<open>GetAddressInfo\<close>. Memory
  that is not released (parsed STUN packets) has no counterpart outside \<open>Remux\<close> and the class-level objects.
\<close>

end
